(* ===== verification/Prelude.thy ===== *)
theory Prelude
  imports Main "HOL-Library.Word" "HOL-Library.Char_ord" "HOL-Library.List_Lexorder"
    "HOL-Library.Multiset"
begin

text \<open>
  What every component of the development shares: the integer width of the program, the
  collections of facts the component proofs draw on, and a few generic lemmas on lists,
  association lists and words.
  \<^item> \<open>go_simps\<close> unfolds the small helpers of the language and its standard library;
  \<^item> \<open>quiet\<close> holds the rules that a computation extends the call history with calls of one
    kind only, used to frame whole operations.
\<close>

named_theorems go_simps "small helpers of the language that proofs unfold"
named_theorems quiet "computations that add only calls of one kind to the history"

text \<open>Go's \<open>int\<close>, \<open>int64\<close> and \<open>time.Duration\<close>: 64 bits, two's complement.\<close>

type_synonym go_int = "64 word"

text \<open>A Go \<open>string\<close> and a \<open>[]byte\<close> are both byte sequences.\<close>

type_synonym bytes = string

text \<open>A Go map with its iteration order written out: no key occurs twice.\<close>

type_synonym 'v gomap = "(string \<times> 'v) list"

definition gomap_wf :: "'v gomap \<Rightarrow> bool" where
  "gomap_wf m \<longleftrightarrow> distinct (map fst m)"

lemma gomap_wf_Nil [simp]: "gomap_wf []"
  by (simp add: gomap_wf_def)

lemma gomap_wf_Cons [simp]:
  "gomap_wf ((k, v) # m) \<longleftrightarrow> k \<notin> fst ` set m \<and> gomap_wf m"
  by (simp add: gomap_wf_def)

text \<open>Two enumerations of one map look up alike.\<close>

lemma map_of_mset_eq:
  assumes "mset m = mset m'" "gomap_wf m"
  shows "map_of m = map_of m'"
proof -
  have "mset (map fst m) = mset (map fst m')"
    using assms(1) by (metis mset_map)
  then have "distinct (map fst m')"
    using assms(2) by (metis gomap_wf_def mset_eq_imp_distinct_iff)
  moreover have "set m = set m'"
    using assms(1) by (metis set_mset_mset)
  ultimately show ?thesis
    using assms(2) by (simp add: gomap_wf_def map_of_inject_set)
qed

lemma sort_mset_eq: "mset xs = mset ys \<Longrightarrow> sort xs = sort ys"
  by (metis mset_sort properties_for_sort sorted_sort)

lemma image_mset_inj_on:
  assumes "inj_on f A" "set_mset M \<subseteq> A" "set_mset N \<subseteq> A" "image_mset f M = image_mset f N"
  shows "M = N"
proof -
  let ?g = "the_inv_into A f"
  have inv: "image_mset ?g (image_mset f X) = X" if "set_mset X \<subseteq> A" for X
  proof -
    have "image_mset (\<lambda>x. ?g (f x)) X = image_mset (\<lambda>x. x) X"
      using that by (intro image_mset_cong) (auto simp: the_inv_into_f_f [OF assms(1)])
    then show ?thesis
      by (simp add: multiset.map_comp comp_def)
  qed
  have "M = image_mset ?g (image_mset f M)"
    by (rule inv [OF assms(2), symmetric])
  also have "\<dots> = image_mset ?g (image_mset f N)"
    by (rule arg_cong [OF assms(4)])
  also have "\<dots> = N"
    by (rule inv [OF assms(3)])
  finally show ?thesis .
qed

text \<open>Splitting at the first occurrence of a separator.\<close>

lemma split_first:
  assumes "x @ s # y = x' @ s # y'" "s \<notin> set x" "s \<notin> set x'"
  shows "x = x' \<and> y = y'"
  using assms
proof (induction x arbitrary: x')
  case Nil
  then show ?case by (cases x') auto
next
  case (Cons a x)
  then show ?case by (cases x') auto
qed

lemma split_last:
  assumes "x @ s # y = x' @ s # y'" "s \<notin> set y" "s \<notin> set y'"
  shows "x = x' \<and> y = y'"
proof -
  have "rev y @ s # rev x = rev y' @ s # rev x'"
    using arg_cong [OF assms(1), of rev] by simp
  then have "rev y = rev y' \<and> rev x = rev x'"
    using assms(2,3) by (intro split_first) simp_all
  then show ?thesis
    by simp
qed

text \<open>Words without the terminator are determined by their terminated concatenation.\<close>

lemma terminated_concat_inj:
  assumes "\<And>w. w \<in> set ws \<Longrightarrow> z \<notin> set w" "\<And>w. w \<in> set vs \<Longrightarrow> z \<notin> set w"
    and "concat (map (\<lambda>w. w @ [z]) ws) = concat (map (\<lambda>w. w @ [z]) vs)"
  shows "ws = vs"
  using assms
proof (induction ws arbitrary: vs)
  case Nil
  then show ?case by (cases vs) auto
next
  case (Cons w ws)
  then obtain v vs' where vs: "vs = v # vs'"
    by (cases vs) auto
  have "w @ z # concat (map (\<lambda>w. w @ [z]) ws) = v @ z # concat (map (\<lambda>w. w @ [z]) vs')"
    using Cons.prems(3) vs by simp
  then have "w = v \<and> concat (map (\<lambda>w. w @ [z]) ws) = concat (map (\<lambda>w. w @ [z]) vs')"
    by (rule split_first) (use Cons.prems vs in auto)
  then show ?case
    using Cons vs by simp
qed

text \<open>Counting in \<open>go_int\<close> is exact while the count fits.\<close>

lemma unat_of_nat_go:
  assumes "n < 2 ^ 64" shows "unat (of_nat n :: go_int) = n"
  using assms by (simp add: unat_of_nat take_bit_nat_eq_self)

lemma of_nat_go_eq_0:
  assumes "n < 2 ^ 64" shows "(of_nat n :: go_int) = 0 \<longleftrightarrow> n = 0"
proof
  assume "(of_nat n :: go_int) = 0"
  then have "unat (of_nat n :: go_int) = 0"
    by simp
  then show "n = 0"
    by (simp only: unat_of_nat_go [OF assms])
qed simp

lemma sint_of_nat_go:
  assumes "n < 2 ^ 63" shows "sint (of_nat n :: go_int) = int n"
proof -
  have "int n < 2 ^ 63"
    using assms by (metis of_nat_less_numeral_power_cancel_iff)
  then show ?thesis
    by (simp add: signed_of_nat signed_take_bit_int_eq_self_iff)
qed

text \<open>
  Go's conversion \<open>float64 (n)\<close> of an integer, as the integer the float denotes: at most 53
  significant bits, rounded to nearest, ties to even. A 64-bit integer needs an exponent of at
  most 11.
\<close>

definition float64_exponent :: "nat \<Rightarrow> nat" where
  "float64_exponent a = length (filter (\<lambda>j. 2 ^ (53 + j) \<le> a) [0 ..< 11])"

definition float64_round :: "nat \<Rightarrow> nat \<Rightarrow> nat" where
  "float64_round k a =
     (let q = a div 2 ^ k; r = a mod 2 ^ k in
      if 2 * r > 2 ^ k \<or> 2 * r = 2 ^ k \<and> odd q then (q + 1) * 2 ^ k else q * 2 ^ k)"

definition float64_of_int :: "int \<Rightarrow> int" where
  "float64_of_int i = sgn i * int (float64_round (float64_exponent (nat \<bar>i\<bar>)) (nat \<bar>i\<bar>))"

lemma float64_of_int_exact:
  assumes "\<bar>i\<bar> < 2 ^ 53"
  shows "float64_of_int i = i"
proof -
  have small: "nat \<bar>i\<bar> < 2 ^ 53"
    using assms by (simp add: nat_less_iff)
  have "\<not> 2 ^ (53 + j) \<le> nat \<bar>i\<bar>" for j :: nat
  proof -
    have "(2::nat) ^ 53 \<le> 2 ^ (53 + j)"
      by (rule power_increasing) simp_all
    then show ?thesis
      using small by linarith
  qed
  then have "float64_exponent (nat \<bar>i\<bar>) = 0"
    unfolding float64_exponent_def by (metis (lifting) filter_False list.size(3))
  then show ?thesis
    by (simp add: float64_of_int_def float64_round_def sgn_if)
qed

lemma list_all_filter_none:
  "list_all P xs \<Longrightarrow> (\<And>x. P x \<Longrightarrow> \<not> Q x) \<Longrightarrow> filter Q xs = []"
  by (auto simp: list_all_iff filter_empty_conv)

end
