(* ===== verification/Go_Strings.thy ===== *)
theory Go_Strings
  imports Prelude
begin

text \<open>
  The part of Go's \<open>strings\<close>, \<open>bytes\<close>, \<open>strconv\<close>, \<open>fmt\<close> and \<open>sort\<close> packages that the program
  calls, on byte strings: trimming, joining, prefixes and suffixes, decimal numbers and quoted
  strings. \<open>TrimSpace\<close> is exact for every byte string: white space is given by the UTF-8 encodings
  of the Unicode White_Space code points, and a byte sequence that is not one of them (an invalid
  encoding included) stops the trimming, as the decoder's RuneError does.
\<close>

subsection \<open>Prefixes, suffixes, joining\<close>

definition HasPrefix :: "string \<Rightarrow> string \<Rightarrow> bool" where
  "HasPrefix s p \<longleftrightarrow> take (length p) s = p"

definition HasSuffix :: "string \<Rightarrow> string \<Rightarrow> bool" where
  "HasSuffix s p \<longleftrightarrow> HasPrefix (rev s) (rev p)"

fun bytes_Join :: "bytes list \<Rightarrow> bytes \<Rightarrow> bytes" where
  "bytes_Join [] sep = []"
| "bytes_Join [d] sep = d"
| "bytes_Join (d # ds) sep = d @ sep @ bytes_Join ds sep"

definition sort_Strings :: "string list \<Rightarrow> string list" where
  "sort_Strings = sort"

lemma HasPrefix_append [simp]: "HasPrefix (p @ s) p"
  by (simp add: HasPrefix_def)

lemma HasPrefix_iff: "HasPrefix s p \<longleftrightarrow> (\<exists>r. s = p @ r)"
  unfolding HasPrefix_def by (metis append_eq_conv_conj append_take_drop_id)

lemma HasSuffix_iff: "HasSuffix s p \<longleftrightarrow> (\<exists>r. s = r @ p)"
  unfolding HasSuffix_def HasPrefix_iff by (metis rev_append rev_rev_ident)

lemma bytes_Join_Cons: "ds \<noteq> [] \<Longrightarrow> bytes_Join (d # ds) sep = d @ sep @ bytes_Join ds sep"
  by (cases ds) simp_all

subsection \<open>White space\<close>

text \<open>The UTF-8 encodings of the code points of \<open>unicode.IsSpace\<close>.\<close>

definition space_runes :: "bytes list" where
  "space_runes =
     map (\<lambda>c. [char_of (c::nat)]) [9, 10, 11, 12, 13, 32]
     @ map (map (\<lambda>c. char_of (c::nat)))
         ([[0xC2, 0x85], [0xC2, 0xA0], [0xE1, 0x9A, 0x80]]
          @ map (\<lambda>c. [0xE2, 0x80, c])
              [0x80, 0x81, 0x82, 0x83, 0x84, 0x85, 0x86, 0x87, 0x88, 0x89, 0x8A, 0xA8, 0xA9, 0xAF]
          @ [[0xE2, 0x81, 0x9F], [0xE3, 0x80, 0x80]])"

text \<open>\<open>trim_left ws s\<close> drops the longest run of the words \<open>ws\<close> from the front.\<close>

fun strip_one :: "bytes list \<Rightarrow> bytes \<Rightarrow> bytes option" where
  "strip_one [] s = None"
| "strip_one (w # ws) s =
     (if w \<noteq> [] \<and> HasPrefix s w then Some (drop (length w) s) else strip_one ws s)"

lemma strip_one_Some:
  "strip_one ws s = Some t \<Longrightarrow> \<exists>w \<in> set ws. w \<noteq> [] \<and> s = w @ t"
  by (induction ws) (auto simp: HasPrefix_iff split: if_splits)

lemma strip_one_None: "strip_one ws s = None \<Longrightarrow> w \<in> set ws \<Longrightarrow> w \<noteq> [] \<Longrightarrow> \<not> HasPrefix s w"
  by (induction ws) (auto split: if_splits)

function trim_left :: "bytes list \<Rightarrow> bytes \<Rightarrow> bytes" where
  "trim_left ws s = (case strip_one ws s of None \<Rightarrow> s | Some t \<Rightarrow> trim_left ws t)"
  by pat_completeness auto
termination
  by (relation "measure (\<lambda>(ws, s). length s)") (auto dest: strip_one_Some)

declare trim_left.simps [simp del]

definition trim_right :: "bytes list \<Rightarrow> bytes \<Rightarrow> bytes" where
  "trim_right ws s = rev (trim_left (map rev ws) (rev s))"

definition TrimSpace :: "bytes \<Rightarrow> bytes" where
  "TrimSpace s = trim_right space_runes (trim_left space_runes s)"

text \<open>\<open>TrimRight (s, "\r\n")\<close>: trailing carriage returns and line feeds.\<close>

definition TrimRight_CRLF :: "bytes \<Rightarrow> bytes" where
  "TrimRight_CRLF = trim_right [[char_of (13::nat)], [char_of (10::nat)]]"

lemma trim_left_nil [simp]: "trim_left ws [] = []"
  by (subst trim_left.simps) (auto dest!: strip_one_Some split: option.split)

lemma trim_left_decomp: "\<exists>us. set us \<subseteq> set ws \<and> s = concat us @ trim_left ws s"
proof (induction ws s rule: trim_left.induct)
  case (1 ws s)
  show ?case
  proof (cases "strip_one ws s")
    case None
    then show ?thesis
      by (intro exI [of _ "[]"]) (simp add: trim_left.simps [of ws s])
  next
    case (Some t)
    from "1.IH" [OF Some] obtain us where us: "set us \<subseteq> set ws" "t = concat us @ trim_left ws t"
      by blast
    from strip_one_Some [OF Some] obtain w where w: "w \<in> set ws" "s = w @ t"
      by blast
    have "trim_left ws s = trim_left ws t"
      using Some by (simp add: trim_left.simps [of ws s])
    then have "s = concat (w # us) @ trim_left ws s"
      using w(2) us(2) by simp
    then show ?thesis
      using w(1) us(1) by (intro exI [of _ "w # us"]) auto
  qed
qed

lemma strip_one_trim_left: "strip_one ws (trim_left ws s) = None"
  by (induction ws s rule: trim_left.induct)
    (subst trim_left.simps, simp split: option.split)

lemma trim_left_fixed: "strip_one ws s = None \<Longrightarrow> trim_left ws s = s"
  by (subst trim_left.simps) simp

lemma trim_left_idem [simp]: "trim_left ws (trim_left ws s) = trim_left ws s"
  by (rule trim_left_fixed) (rule strip_one_trim_left)

lemma trim_right_decomp: "\<exists>us. set us \<subseteq> set ws \<and> s = trim_right ws s @ concat us"
proof -
  obtain us where us: "set us \<subseteq> rev ` set ws" "rev s = concat us @ trim_left (map rev ws) (rev s)"
    using trim_left_decomp [of "map rev ws" "rev s"] by auto
  have "s = rev (concat us @ trim_left (map rev ws) (rev s))"
    using us(2) by (metis rev_rev_ident)
  then have "s = trim_right ws s @ concat (map rev (rev us))"
    by (simp add: trim_right_def rev_concat rev_map)
  moreover have "set (map rev (rev us)) \<subseteq> set ws"
    using us(1) by auto
  ultimately show ?thesis
    by blast
qed


lemma TrimSpace_decomp:
  "\<exists>us vs. set us \<subseteq> set space_runes \<and> set vs \<subseteq> set space_runes
      \<and> s = concat us @ TrimSpace s @ concat vs"
proof -
  obtain us where us: "set us \<subseteq> set space_runes" "s = concat us @ trim_left space_runes s"
    using trim_left_decomp by blast
  obtain vs where vs: "set vs \<subseteq> set space_runes"
      "trim_left space_runes s = TrimSpace s @ concat vs"
    using trim_right_decomp unfolding TrimSpace_def by blast
  show ?thesis
    using us vs by metis
qed

lemma TrimSpace_Nil [simp]: "TrimSpace [] = []"
  by (simp add: TrimSpace_def trim_right_def)

lemma TrimRight_CRLF_Nil [simp]: "TrimRight_CRLF [] = []"
  by (simp add: TrimRight_CRLF_def trim_right_def)

text \<open>A printable ASCII character is not part of any white space, so trimming leaves something.\<close>

lemma space_runes_not_visible:
  "w \<in> set space_runes \<Longrightarrow> c \<in> set w \<Longrightarrow> (of_char c :: nat) \<le> 32 \<or> 128 \<le> (of_char c :: nat)"
  by (auto simp: space_runes_def)

lemma TrimSpace_visible:
  assumes "c \<in> set s" "32 < (of_char c :: nat)" "(of_char c :: nat) < 128"
  shows "TrimSpace s \<noteq> []"
proof
  assume "TrimSpace s = []"
  then obtain us vs where "set us \<subseteq> set space_runes" "set vs \<subseteq> set space_runes"
      "s = concat us @ concat vs"
    using TrimSpace_decomp [of s] by auto
  then obtain w where "w \<in> set space_runes" "c \<in> set w"
    using assms(1) by auto
  then show False
    using space_runes_not_visible [of w c] assms(2,3) by linarith
qed

text \<open>What is left after trimming trailing line ends does not end in one.\<close>

lemma TrimRight_CRLF_last:
  assumes "TrimRight_CRLF s \<noteq> []"
  shows "last (TrimRight_CRLF s) \<notin> {char_of (13::nat), char_of (10::nat)}"
proof -
  let ?ws = "[[char_of (13::nat)], [char_of (10::nat)]]"
  let ?t = "trim_left (map rev ?ws) (rev s)"
  have none: "strip_one (map rev ?ws) ?t = None"
    by (rule strip_one_trim_left)
  have "hd ?t \<notin> {char_of (13::nat), char_of (10::nat)}" if "?t \<noteq> []"
    using none that by (cases ?t) (auto simp: HasPrefix_def split: if_splits)
  then show ?thesis
    using assms by (simp add: TrimRight_CRLF_def trim_right_def last_rev)
qed

lemma TrimRight_CRLF_decomp:
  "\<exists>e. set e \<subseteq> {char_of (13::nat), char_of (10::nat)} \<and> s = TrimRight_CRLF s @ e"
proof -
  obtain us where us: "set us \<subseteq> {[char_of (13::nat)], [char_of (10::nat)]}"
      "s = TrimRight_CRLF s @ concat us"
    using trim_right_decomp [of "[[char_of (13::nat)], [char_of (10::nat)]]" s]
    by (auto simp: TrimRight_CRLF_def)
  have "set (concat us) \<subseteq> {char_of (13::nat), char_of (10::nat)}"
    using us(1) by fastforce
  then show ?thesis
    using us(2) by blast
qed

subsection \<open>Decimal numbers\<close>

text \<open>The verb \<open>%d\<close>.\<close>

fun nat_decimal :: "nat \<Rightarrow> string" where
  "nat_decimal n =
     (if n < 10 then [char_of (48 + n)] else nat_decimal (n div 10) @ [char_of (48 + n mod 10)])"

declare nat_decimal.simps [simp del]

definition int_decimal :: "int \<Rightarrow> string" where
  "int_decimal i = (if i < 0 then CHR ''-'' # nat_decimal (nat (- i)) else nat_decimal (nat i))"

definition go_decimal :: "go_int \<Rightarrow> string" where
  "go_decimal w = int_decimal (sint w)"

definition decimal_value :: "string \<Rightarrow> nat" where
  "decimal_value s = foldl (\<lambda>acc c. 10 * acc + (of_char c - 48)) 0 s"

lemma decimal_value_nat_decimal [simp]: "decimal_value (nat_decimal n) = n"
proof (induction n rule: nat_decimal.induct)
  case (1 n)
  have digit: "of_char (char_of (48 + d) :: char) = 48 + d" if "d < 10" for d :: nat
    using that by (simp add: of_char_of)
  show ?case
  proof (cases "n < 10")
    case True
    then show ?thesis
      by (simp add: nat_decimal.simps [of n] decimal_value_def digit)
  next
    case False
    have "decimal_value (nat_decimal n)
        = 10 * decimal_value (nat_decimal (n div 10)) + n mod 10"
      using False by (simp add: nat_decimal.simps [of n] decimal_value_def digit)
    also have "\<dots> = n"
      using "1.IH" [OF False] by simp
    finally show ?thesis .
  qed
qed

lemma nat_decimal_inject [simp]: "nat_decimal m = nat_decimal n \<longleftrightarrow> m = n"
  by (metis decimal_value_nat_decimal)

subsection \<open>UTF-8\<close>

text \<open>The length of the UTF-8 encoding a byte sequence starts with; 0 if there is none.\<close>

definition utf8_cont :: "nat \<Rightarrow> nat \<Rightarrow> nat \<Rightarrow> bool" where
  "utf8_cont lo hi b \<longleftrightarrow> lo \<le> b \<and> b \<le> hi"

fun utf8_len :: "nat list \<Rightarrow> nat" where
  "utf8_len [] = 0"
| "utf8_len (b # bs) =
     (if b < 0x80 then 1
      else
        (let ok = (\<lambda>n lo hi. n \<le> length bs \<and> utf8_cont lo hi (hd bs)
                        \<and> list_all (utf8_cont 0x80 0xBF) (take (n - 1) (tl bs)))
         in
         if 0xC2 \<le> b \<and> b \<le> 0xDF then (if ok 1 0x80 0xBF then 2 else 0)
         else if b = 0xE0 then (if ok 2 0xA0 0xBF then 3 else 0)
         else if b = 0xED then (if ok 2 0x80 0x9F then 3 else 0)
         else if 0xE1 \<le> b \<and> b \<le> 0xEF then (if ok 2 0x80 0xBF then 3 else 0)
         else if b = 0xF0 then (if ok 3 0x90 0xBF then 4 else 0)
         else if b = 0xF4 then (if ok 3 0x80 0x8F then 4 else 0)
         else if 0xF1 \<le> b \<and> b \<le> 0xF3 then (if ok 3 0x80 0xBF then 4 else 0)
         else 0))"

declare utf8_len.simps(2) [simp del]

subsection \<open>Quoted strings\<close>

text \<open>
  The verb \<open>%q\<close>: double quotes, with Go's escapes for the quote, the backslash and the ASCII
  control characters, and \<open>\x\<close> for a byte that starts no UTF-8 encoding. A character outside ASCII
  stands for itself, as Go prints it if its tables call it printable; the tables are left out.
\<close>

definition hex_nibble :: "nat \<Rightarrow> char" where
  "hex_nibble d = char_of (if d < 10 then 48 + d else 87 + d)"

definition quote_char :: "char \<Rightarrow> string" where
  "quote_char c =
     (let n = of_char c :: nat; bs = char_of (92::nat) in
      if n = 34 \<or> n = 92 then [bs, c]
      else if n = 7 then [bs, CHR ''a''] else if n = 8 then [bs, CHR ''b'']
      else if n = 12 then [bs, CHR ''f''] else if n = 10 then [bs, CHR ''n'']
      else if n = 13 then [bs, CHR ''r''] else if n = 9 then [bs, CHR ''t'']
      else if n = 11 then [bs, CHR ''v'']
      else if n < 32 \<or> n = 127 then [bs, CHR ''x'', hex_nibble (n div 16), hex_nibble (n mod 16)]
      else [c])"

fun quote_runes :: "string \<Rightarrow> string" where
  "quote_runes [] = []"
| "quote_runes (c # cs) =
     (let n = utf8_len (map of_char (c # cs)); b = of_char c :: nat in
      if n = 0 then [char_of (92::nat), CHR ''x'', hex_nibble (b div 16), hex_nibble (b mod 16)] @ quote_runes cs
      else if n = 1 then quote_char c @ quote_runes cs
      else c # take (n - 1) cs @ quote_runes (drop (n - 1) cs))"

declare quote_runes.simps(2) [simp del]

definition go_quote :: "string \<Rightarrow> string" where
  "go_quote s = [char_of (34::nat)] @ quote_runes s @ [char_of (34::nat)]"

end
