(* ===== verification/Api_Types.thy ===== *)
theory Api_Types
  imports Go_Strings
begin

text \<open>
  The custom resource of \<open>api/v1alpha1/types.go\<close>: a pointer field is an \<open>option\<close>, a string enum
  stays a string (the API server restricts its values, the controller still handles any), and the
  parts of the Kubernetes object types the program reads or writes are records of their own:
  \<open>ObjectMeta\<close>, \<open>Condition\<close>, \<open>LabelSelector\<close>, \<open>ConfigMap\<close> and \<open>Secret\<close>.
\<close>

subsection \<open>Kubernetes object types\<close>

record ObjectMeta =
  om_name :: string
  om_namespace :: string
  om_generation :: go_int
  om_resourceVersion :: string

record NamespacedName =
  nn_namespace :: string
  nn_name :: string

text \<open>\<open>metav1.Time\<close>, as nanoseconds of the clock.\<close>

type_synonym time = int

record Condition =
  cond_type :: string
  cond_status :: string
  cond_observedGeneration :: go_int
  cond_lastTransitionTime :: "time option"
  cond_reason :: string
  cond_message :: string

definition ConditionTrue :: string where
  [go_simps]: "ConditionTrue = ''True''"

definition ConditionFalse :: string where
  [go_simps]: "ConditionFalse = ''False''"

record LabelSelectorRequirement =
  req_key :: string
  req_operator :: string
  req_values :: "string list"

record LabelSelector =
  sel_matchLabels :: "string gomap"
  sel_matchExpressions :: "LabelSelectorRequirement list"

record ConfigMap =
  cm_meta :: ObjectMeta
  cm_data :: "string gomap"
  cm_binaryData :: "bytes gomap"

record Secret =
  sec_data :: "bytes gomap"

subsection \<open>Sources\<close>

definition SourceTypeGit :: string where
  [go_simps]: "SourceTypeGit = ''Git''"

definition SourceTypeConfigMap :: string where
  [go_simps]: "SourceTypeConfigMap = ''ConfigMap''"

definition SourceTypeHelm :: string where
  [go_simps]: "SourceTypeHelm = ''Helm''"

definition SourceTypeKustomize :: string where
  [go_simps]: "SourceTypeKustomize = ''Kustomize''"

definition GitAuthBasic :: string where
  [go_simps]: "GitAuthBasic = ''Basic''"

definition GitAuthBearer :: string where
  [go_simps]: "GitAuthBearer = ''Bearer''"

definition GitAuthSSH :: string where
  [go_simps]: "GitAuthSSH = ''SSH''"

record LocalSecretRef =
  lsr_name :: string

record GitAuthSpec =
  gas_type :: string
  gas_secretRef :: LocalSecretRef

record GitSourceSpec =
  gss_url :: string
  gss_ref :: string
  gss_path :: string
  gss_auth :: "GitAuthSpec option"

record ConfigMapSource =
  cms_name :: string
  cms_namespace :: string
  cms_key :: string

text \<open>\<open>apiextensionsv1.JSON\<close> is its raw bytes.\<close>

record HelmSourceSpec =
  hss_git :: GitSourceSpec
  hss_releaseName :: string
  hss_namespace :: string
  hss_values :: "bytes option"
  hss_valuesFiles :: "string list"
  hss_dependencyBuild :: bool

record KustomizeSourceSpec =
  kss_git :: GitSourceSpec

record Source =
  src_type :: string
  src_git :: "GitSourceSpec option"
  src_configMap :: "ConfigMapSource option"
  src_helm :: "HelmSourceSpec option"
  src_kustomize :: "KustomizeSourceSpec option"

subsection \<open>Notification and target settings\<close>

definition WebhookSlack :: string where
  [go_simps]: "WebhookSlack = ''Slack''"

definition WebhookGeneric :: string where
  [go_simps]: "WebhookGeneric = ''Generic''"

record SecretKeyRef =
  skr_name :: string
  skr_key :: string

record WebhookSpec =
  wh_type :: string
  wh_url :: string
  wh_urlSecretRef :: "SecretKeyRef option"

record NotifySpec =
  ns_webhooks :: "WebhookSpec list"

record Target =
  tgt_namespaces :: "string list"
  tgt_labelSelector :: "LabelSelector option"

record DriftCheckSpec =
  spec_source :: Source
  spec_target :: Target
  spec_interval :: go_int
  spec_notify :: "NotifySpec option"

subsection \<open>Status\<close>

definition DriftUnchanged :: string where
  [go_simps]: "DriftUnchanged = ''unchanged''"

definition DriftChanged :: string where
  [go_simps]: "DriftChanged = ''changed''"

definition DriftNew :: string where
  [go_simps]: "DriftNew = ''new''"

definition DriftDeleted :: string where
  [go_simps]: "DriftDeleted = ''deleted''"

record DriftedResource =
  dr_apiVersion :: string
  dr_kind :: string
  dr_name :: string
  dr_namespace :: string
  dr_status :: string

record DriftSummary =
  sum_changed :: go_int
  sum_new :: go_int
  sum_deleted :: go_int
  sum_unchanged :: go_int

record DriftCheckStatus =
  st_lastCheckedAt :: "time option"
  st_driftedResources :: "DriftedResource list"
  st_summary :: DriftSummary
  st_observedGeneration :: go_int
  st_lastNotifiedHash :: string
  st_conditions :: "Condition list"

record DriftCheck =
  dc_meta :: ObjectMeta
  dc_spec :: DriftCheckSpec
  dc_status :: DriftCheckStatus

abbreviation dc_name :: "DriftCheck \<Rightarrow> string" where
  "dc_name dc \<equiv> om_name (dc_meta dc)"

abbreviation dc_namespace :: "DriftCheck \<Rightarrow> string" where
  "dc_namespace dc \<equiv> om_namespace (dc_meta dc)"

abbreviation dc_generation :: "DriftCheck \<Rightarrow> go_int" where
  "dc_generation dc \<equiv> om_generation (dc_meta dc)"

end
