(* ===== verification/Source_Types.thy ===== *)
theory Source_Types
  imports Api_Types
begin

text \<open>
  The data of \<open>internal/source\<close> and \<open>internal/notify\<close>, and the values of the libraries that pass
  through them: manifests (kube-diff's \<open>Resource\<close> and \<open>Result\<close>), resolved Git credentials, go-git
  authentication methods, and notification events. An interface value is its methods: a label
  selector is its \<open>Matches\<close>, a host-key callback its verdict on a host and key.
\<close>

subsection \<open>Dynamic values\<close>

text \<open>The values of Go's \<open>any\<close> that YAML and JSON decoding build.\<close>

datatype gvalue =
    VNil
  | VBool bool
  | VNum string
  | VStr string
  | VList "gvalue list"
  | VMap "(string \<times> gvalue) list"

subsection \<open>kube-diff's manifests and results\<close>

text \<open>\<open>res_object\<close> is the parsed manifest (\<open>*unstructured.Unstructured\<close>), possibly nil.\<close>

record Resource =
  res_apiVersion :: string
  res_kind :: string
  res_name :: string
  res_namespace :: string
  res_object :: "gvalue option"

record DiffResult =
  dres_apiVersion :: string
  dres_kind :: string
  dres_name :: string
  dres_namespace :: string
  dres_status :: string

type_synonym labels = "string \<rightharpoonup> string"

type_synonym Selector = "labels \<Rightarrow> bool"

subsection \<open>Git credentials\<close>

record BasicAuth =
  ba_username :: string
  ba_password :: string

record SSHAuth =
  ssh_user :: string
  ssh_privateKey :: bytes
  ssh_passphrase :: bytes
  ssh_knownHosts :: bytes

record GitAuth =
  ga_basic :: "BasicAuth option"
  ga_bearer :: string
  ga_ssh :: "SSHAuth option"

text \<open>The zero value that the composite literals \<open>&GitAuth{...}\<close> start from.\<close>

definition GitAuth_zero :: GitAuth where
  "GitAuth_zero = \<lparr>ga_basic = None, ga_bearer = [], ga_ssh = None\<rparr>"

type_synonym host_key_callback = "string \<Rightarrow> bytes \<Rightarrow> bool"

record PublicKeys =
  pk_user :: string
  pk_signer :: bytes
  pk_hostKeyCallback :: "host_key_callback option"

datatype AuthMethod =
    BasicAuthMethod string string
  | TokenAuthMethod string
  | PublicKeysMethod PublicKeys

subsection \<open>Notifications\<close>

definition Slack :: string where
  [go_simps]: "Slack = ''Slack''"

definition Generic :: string where
  [go_simps]: "Generic = ''Generic''"

record Webhook =
  webhook_type :: string
  webhook_url :: string

record NResource =
  nr_apiVersion :: string
  nr_kind :: string
  nr_name :: string
  nr_namespace :: string
  nr_status :: string

record NSummary =
  nsum_changed :: go_int
  nsum_new :: go_int
  nsum_deleted :: go_int
  nsum_unchanged :: go_int

record Event =
  ev_name :: string
  ev_namespace :: string
  ev_summary :: NSummary
  ev_drifted :: "NResource list"
  ev_resolved :: bool

end
