(* ===== verification/World.thy ===== *)
theory World
  imports Source_Types
begin

text \<open>
  The program's environment. Everything the controller does to the outside world (the API server,
  the metrics registry, the event stream, webhooks, the file system, Git, the renderers) is a
  \<^emph>\<open>call\<close>, and a computation maps the history of the calls made so far to a result and the
  longer history. The answer of an outside call is given by a record of functions, one per
  library, that may depend on the whole history: the environment may answer the same call
  differently later, and nothing is assumed of it but what a theorem names.

  Errors are values: \<open>Errorf\<close> is \<open>fmt.Errorf\<close> without \<open>%w\<close>, \<open>Wrapf p e\<close> is
  \<open>fmt.Errorf ("p: %w", e)\<close>, \<open>StatusErr\<close> is a Kubernetes API status error with its reason and
  message, and \<open>LibErr\<close> any other library error.
\<close>

datatype error =
    Errorf string
  | Wrapf string error
  | StatusErr string string
  | LibErr string

fun err_text :: "error \<Rightarrow> string" where
  "err_text (Errorf s) = s"
| "err_text (Wrapf p e) = p @ '': '' @ err_text e"
| "err_text (StatusErr r m) = m"
| "err_text (LibErr m) = m"

fun root_cause :: "error \<Rightarrow> error" where
  "root_cause (Wrapf p e) = root_cause e"
| "root_cause e = e"

subsection \<open>Calls and histories\<close>

datatype call =
    CallGetDriftCheck NamespacedName
  | CallGetConfigMap NamespacedName
  | CallGetSecret NamespacedName
  | CallStatusUpdate DriftCheck
  | CallGaugeSet "string list" int
  | CallGaugeDelete "(string \<times> string) list"
  | CallEvent NamespacedName string string string
  | CallSend Webhook Event
  | CallHTTPPost go_int string "(string \<times> string) list" bytes
  | CallMkdirTemp string string
  | CallRemoveAll string
  | CallCreateTemp string string
  | CallWrite string bytes
  | CallClose string
  | CallRemove string
  | CallReadFile string
  | CallClone string string string "GitAuth option"
  | CallPlainClone string string "AuthMethod option"
  | CallResolveRevision string string
  | CallWorktree string
  | CallCheckout string string
  | CallSecureJoin string string
  | CallNewPublicKeys string bytes string
  | CallKnownHostsNew string
  | CallFileSourceLoad string
  | CallBytesSourceLoad bytes
  | CallFetchLive NamespacedName
  | CallSelectDone
  | CallBuildDeps string
  | CallLoadChart string
  | CallWriteRepoFile string
  | CallRegistryClient string
  | CallManagerUpdate string string
  | CallRenderChart
  | CallKustomizeRun string

type_synonym history = "call list"

type_synonym 'a io = "history \<Rightarrow> 'a \<times> history"

type_synonym 'a eio = "(error + 'a) io"

text \<open>
  The calls made while manifests are loaded: the file system, Git, the renderers, the parser and
  reads of live objects. No such call touches the status, the metrics, the event stream or a
  webhook.
\<close>

fun source_call :: "call \<Rightarrow> bool" where
  "source_call (CallGetDriftCheck n) = False"
| "source_call (CallGetConfigMap n) = False"
| "source_call (CallGetSecret n) = False"
| "source_call (CallStatusUpdate d) = False"
| "source_call (CallGaugeSet ls v) = False"
| "source_call (CallGaugeDelete ps) = False"
| "source_call (CallEvent n t r m) = False"
| "source_call (CallSend w e) = False"
| "source_call (CallHTTPPost tm u hs b) = False"
| "source_call _ = True"

text \<open>An outside call: answered from the history before it, then recorded.\<close>

definition outside :: "call \<Rightarrow> (history \<Rightarrow> 'a) \<Rightarrow> 'a io" where
  "outside c f h = (f h, h @ [c])"

text \<open>A call of an injected function is recorded as it is entered.\<close>

definition entering :: "call \<Rightarrow> 'a io \<Rightarrow> 'a io" where
  "entering c m h = m (h @ [c])"

definition give :: "'a \<Rightarrow> 'a eio" where
  "give x h = (Inr x, h)"

definition fail :: "error \<Rightarrow> 'a eio" where
  "fail e h = (Inl e, h)"

text \<open>\<open>x, err := m; if err != nil { return nil, err }; k x\<close>\<close>

definition try_bind :: "'a eio \<Rightarrow> ('a \<Rightarrow> 'b eio) \<Rightarrow> 'b eio" where
  "try_bind m k h = (case m h of (Inl e, h1) \<Rightarrow> (Inl e, h1) | (Inr x, h1) \<Rightarrow> k x h1)"

text \<open>\<open>fmt.Errorf ("p: %w", err)\<close> around the error of \<open>m\<close>\<close>

definition wrap_err :: "string \<Rightarrow> 'a eio \<Rightarrow> 'a eio" where
  "wrap_err p m h = (case m h of (Inl e, h1) \<Rightarrow> (Inl (Wrapf p e), h1) | (Inr x, h1) \<Rightarrow> (Inr x, h1))"

text \<open>
  \<open>defer func () { if rerr := c (); rerr != nil && err == nil { err = fmt.Errorf ("p: %w", rerr) } } ()\<close>
  around a body with a named error result: the cleanup always runs, and its error is reported
  when the body had none.
\<close>

definition defer_cleanup :: "unit eio \<Rightarrow> string \<Rightarrow> 'a eio \<Rightarrow> 'a eio" where
  "defer_cleanup c p m h =
     (case m h of (r, h1) \<Rightarrow>
       (case c h1 of (cr, h2) \<Rightarrow>
         (case (r, cr) of
            (Inr x, Inl e) \<Rightarrow> (Inl (Wrapf p e), h2)
          | _ \<Rightarrow> (r, h2))))"

text \<open>\<open>defer func () { _ = c () } ()\<close>: the cleanup always runs, its error is dropped.\<close>

definition defer_ignore :: "unit eio \<Rightarrow> 'a eio \<Rightarrow> 'a eio" where
  "defer_ignore c m h = (case m h of (r, h1) \<Rightarrow> (r, snd (c h1)))"

text \<open>\<open>if err != nil { _ = c (); return err }\<close>\<close>

definition on_error :: "unit eio \<Rightarrow> 'a eio \<Rightarrow> 'a eio" where
  "on_error c m h = (case m h of (Inl e, h1) \<Rightarrow> (Inl e, snd (c h1)) | (Inr x, h1) \<Rightarrow> (Inr x, h1))"

lemmas io_defs = outside_def entering_def on_error_def give_def fail_def try_bind_def wrap_err_def defer_cleanup_def
  defer_ignore_def

text \<open>When a sequence succeeds, and with what error it fails.\<close>

lemma try_bind_Inr_iff:
  "try_bind m k h = (Inr y, h') \<longleftrightarrow> (\<exists>x h1. m h = (Inr x, h1) \<and> k x h1 = (Inr y, h'))"
  by (auto simp: try_bind_def split: prod.splits sum.splits)

lemma try_bind_Inl_iff:
  "try_bind m k h = (Inl e, h') \<longleftrightarrow>
     m h = (Inl e, h') \<or> (\<exists>x h1. m h = (Inr x, h1) \<and> k x h1 = (Inl e, h'))"
  by (auto simp: try_bind_def split: prod.splits sum.splits)

lemma wrap_err_Inr_iff: "wrap_err p m h = (Inr x, h') \<longleftrightarrow> m h = (Inr x, h')"
  by (auto simp: wrap_err_def split: prod.splits sum.splits)

lemma wrap_err_Inl_iff:
  "wrap_err p m h = (Inl e, h') \<longleftrightarrow> (\<exists>e'. e = Wrapf p e' \<and> m h = (Inl e', h'))"
  by (auto simp: wrap_err_def split: prod.splits sum.splits)

lemma on_error_Inr_iff: "on_error c m h = (Inr x, h') \<longleftrightarrow> m h = (Inr x, h')"
  by (auto simp: on_error_def split: prod.splits sum.splits)

lemma defer_ignore_iff:
  "defer_ignore c m h = (x, h') \<longleftrightarrow> (\<exists>h1. m h = (x, h1) \<and> h' = snd (c h1))"
  by (auto simp: defer_ignore_def split: prod.splits)

lemma defer_cleanup_Inr_iff:
  "defer_cleanup c p m h = (Inr x, h') \<longleftrightarrow>
     (\<exists>h1 u. m h = (Inr x, h1) \<and> c h1 = (Inr u, h'))"
  by (auto simp: defer_cleanup_def split: prod.splits sum.splits)

lemma give_iff: "give x h = (r, h') \<longleftrightarrow> r = Inr x \<and> h' = h"
  by (auto simp: give_def)

lemma fail_iff: "fail e h = (r, h') \<longleftrightarrow> r = Inl e \<and> h' = h"
  by (auto simp: fail_def)

lemmas io_iffs = try_bind_Inr_iff try_bind_Inl_iff wrap_err_Inr_iff wrap_err_Inl_iff
  on_error_Inr_iff defer_ignore_iff defer_cleanup_Inr_iff give_iff fail_iff

lemma outside_iff: "outside c f h = (r, h') \<longleftrightarrow> f h = r \<and> h' = h @ [c]"
  by (auto simp: outside_def)

subsection \<open>Which calls a computation adds\<close>

text \<open>\<open>adds_only P m\<close>: \<open>m\<close> extends every history, by calls that satisfy \<open>P\<close>.\<close>

definition adds_only :: "(call \<Rightarrow> bool) \<Rightarrow> 'a io \<Rightarrow> bool" where
  "adds_only P m \<longleftrightarrow> (\<forall>h. \<exists>t. snd (m h) = h @ t \<and> list_all P t)"

lemma adds_onlyI:
  assumes "\<And>h. \<exists>t. snd (m h) = h @ t \<and> list_all P t"
  shows "adds_only P m"
  using assms by (simp add: adds_only_def)

lemma adds_onlyE:
  assumes "adds_only P m"
  obtains t where "snd (m h) = h @ t" "list_all P t"
  using assms unfolding adds_only_def by blast

lemma adds_only_snd:
  assumes "adds_only P m" "m h = (r, h')"
  obtains t where "h' = h @ t" "list_all P t"
  using assms by (metis adds_onlyE snd_conv)

lemma adds_only_mono:
  assumes "adds_only P m" "\<And>c. P c \<Longrightarrow> Q c"
  shows "adds_only Q m"
  using assms unfolding adds_only_def list_all_iff by blast

lemma adds_only_outside [quiet]: "P c \<Longrightarrow> adds_only P (outside c f)"
  by (auto simp: adds_only_def outside_def)

lemma adds_only_entering [quiet]:
  assumes "P c" "adds_only P m"
  shows "adds_only P (entering c m)"
proof (rule adds_onlyI)
  fix h
  obtain t where "snd (m (h @ [c])) = (h @ [c]) @ t" "list_all P t"
    using assms(2) by (rule adds_onlyE)
  then show "\<exists>t. snd (entering c m h) = h @ t \<and> list_all P t"
    using assms(1) by (intro exI [of _ "c # t"]) (simp add: entering_def)
qed

lemma adds_only_give [quiet]: "adds_only P (give x)"
  by (auto simp: adds_only_def give_def)

lemma adds_only_fail [quiet]: "adds_only P (fail e)"
  by (auto simp: adds_only_def fail_def)

lemma adds_only_seq:
  assumes "adds_only P m" "\<And>x. adds_only P (k x)"
  shows "\<exists>t. snd (k x (snd (m h))) = h @ t \<and> list_all P t"
proof -
  obtain t where t: "snd (m h) = h @ t" "list_all P t"
    using assms(1) by (rule adds_onlyE)
  obtain u where u: "snd (k x (h @ t)) = (h @ t) @ u" "list_all P u"
    using assms(2) by (rule adds_onlyE)
  show ?thesis
    using t u by (intro exI [of _ "t @ u"]) simp
qed

lemma adds_only_try_bind [quiet]:
  assumes "adds_only P m" "\<And>x. adds_only P (k x)"
  shows "adds_only P (try_bind m k)"
proof (rule adds_onlyI)
  fix h
  obtain r h1 where m: "m h = (r, h1)"
    by (cases "m h")
  show "\<exists>t. snd (try_bind m k h) = h @ t \<and> list_all P t"
  proof (cases r)
    case (Inl e)
    then show ?thesis
      using assms(1) m by (auto simp: try_bind_def elim: adds_only_snd)
  next
    case (Inr x)
    then show ?thesis
      using adds_only_seq [OF assms, where x = x and h = h] m by (simp add: try_bind_def)
  qed
qed

lemma adds_only_wrap_err [quiet]: "adds_only P m \<Longrightarrow> adds_only P (wrap_err p m)"
  by (rule adds_onlyI)
    (auto simp: wrap_err_def elim: adds_only_snd split: prod.split sum.split)

lemma defer_ignore_history: "snd (defer_ignore c m h) = snd (c (snd (m h)))"
  by (simp add: defer_ignore_def split: prod.split)

lemma adds_only_defer_ignore [quiet]:
  assumes "adds_only P m" "adds_only P c"
  shows "adds_only P (defer_ignore c m)"
proof (rule adds_onlyI)
  fix h
  show "\<exists>t. snd (defer_ignore c m h) = h @ t \<and> list_all P t"
    using adds_only_seq [OF assms(1), where k = "\<lambda>_. c" and h = h] assms(2)
    by (simp add: defer_ignore_history)
qed

lemma adds_only_on_error [quiet]:
  assumes "adds_only P m" "adds_only P c"
  shows "adds_only P (on_error c m)"
proof (rule adds_onlyI)
  fix h
  obtain r h1 where m: "m h = (r, h1)"
    by (cases "m h")
  show "\<exists>t. snd (on_error c m h) = h @ t \<and> list_all P t"
    using adds_only_seq [OF assms(1), where k = "\<lambda>_. c" and h = h] assms m
    by (cases r) (auto simp: on_error_def elim: adds_only_snd)
qed

lemma defer_cleanup_history: "snd (defer_cleanup c p m h) = snd (c (snd (m h)))"
  by (simp add: defer_cleanup_def split: prod.split sum.split)

lemma adds_only_defer_cleanup [quiet]:
  assumes "adds_only P m" "adds_only P c"
  shows "adds_only P (defer_cleanup c p m)"
proof (rule adds_onlyI)
  fix h
  show "\<exists>t. snd (defer_cleanup c p m h) = h @ t \<and> list_all P t"
    using adds_only_seq [OF assms(1), where k = "\<lambda>_. c" and h = h] assms(2)
    by (simp add: defer_cleanup_history)
qed

lemma adds_only_if [quiet]:
  "adds_only P m \<Longrightarrow> adds_only P m' \<Longrightarrow> adds_only P (if b then m else m')"
  by simp

lemma adds_only_case_option [quiet]:
  "adds_only P m \<Longrightarrow> (\<And>x. adds_only P (k x)) \<Longrightarrow>
   adds_only P (case y of None \<Rightarrow> m | Some x \<Rightarrow> k x)"
  by (cases y) simp_all

lemma adds_only_case_sum [quiet]:
  "(\<And>e. adds_only P (m e)) \<Longrightarrow> (\<And>x. adds_only P (k x)) \<Longrightarrow>
   adds_only P (case y of Inl e \<Rightarrow> m e | Inr x \<Rightarrow> k x)"
  by (cases y) simp_all

lemma adds_only_case_list [quiet]:
  "adds_only P m \<Longrightarrow> (\<And>x xs. adds_only P (k x xs)) \<Longrightarrow>
   adds_only P (case y of [] \<Rightarrow> m | x # xs \<Rightarrow> k x xs)"
  by (cases y) simp_all

end
