(* ===== verification/Libraries.thy ===== *)
theory Libraries
  imports World
begin

text \<open>
  The code that is not in the repository, as parameters: one record of functions per library, each
  function answering from the history of calls. The operating system is one of them. The wrappers
  (\<open>os_MkdirTemp\<close> and so on) pair an answer with the call that asks for it.
\<close>

subsection \<open>Operating system\<close>

record os_lib =
  osl_MkdirTemp :: "history \<Rightarrow> string \<Rightarrow> string \<Rightarrow> error + string"
  osl_RemoveAll :: "history \<Rightarrow> string \<Rightarrow> error + unit"
  osl_CreateTemp :: "history \<Rightarrow> string \<Rightarrow> string \<Rightarrow> error + string"
  osl_Write :: "history \<Rightarrow> string \<Rightarrow> bytes \<Rightarrow> error + unit"
  osl_Close :: "history \<Rightarrow> string \<Rightarrow> error + unit"
  osl_Remove :: "history \<Rightarrow> string \<Rightarrow> error + unit"
  osl_ReadFile :: "history \<Rightarrow> string \<Rightarrow> error + bytes"

definition os_MkdirTemp :: "os_lib \<Rightarrow> string \<Rightarrow> string \<Rightarrow> string eio" where
  "os_MkdirTemp os d p = outside (CallMkdirTemp d p) (\<lambda>h. osl_MkdirTemp os h d p)"

definition os_RemoveAll :: "os_lib \<Rightarrow> string \<Rightarrow> unit eio" where
  "os_RemoveAll os d = outside (CallRemoveAll d) (\<lambda>h. osl_RemoveAll os h d)"

definition os_CreateTemp :: "os_lib \<Rightarrow> string \<Rightarrow> string \<Rightarrow> string eio" where
  "os_CreateTemp os d p = outside (CallCreateTemp d p) (\<lambda>h. osl_CreateTemp os h d p)"

definition os_Write :: "os_lib \<Rightarrow> string \<Rightarrow> bytes \<Rightarrow> unit eio" where
  "os_Write os f b = outside (CallWrite f b) (\<lambda>h. osl_Write os h f b)"

definition os_Close :: "os_lib \<Rightarrow> string \<Rightarrow> unit eio" where
  "os_Close os f = outside (CallClose f) (\<lambda>h. osl_Close os h f)"

definition os_Remove :: "os_lib \<Rightarrow> string \<Rightarrow> unit eio" where
  "os_Remove os f = outside (CallRemove f) (\<lambda>h. osl_Remove os h f)"

definition os_ReadFile :: "os_lib \<Rightarrow> string \<Rightarrow> bytes eio" where
  "os_ReadFile os f = outside (CallReadFile f) (\<lambda>h. osl_ReadFile os h f)"

subsection \<open>go-git, SSH and path joining\<close>

text \<open>A repository and a worktree are opaque handles.\<close>

record git_lib =
  gl_SecureJoin :: "history \<Rightarrow> string \<Rightarrow> string \<Rightarrow> error + string"
  gl_PlainClone :: "history \<Rightarrow> string \<Rightarrow> string \<Rightarrow> AuthMethod option \<Rightarrow> error + string"
  gl_ResolveRevision :: "history \<Rightarrow> string \<Rightarrow> string \<Rightarrow> error + string"
  gl_Worktree :: "history \<Rightarrow> string \<Rightarrow> error + string"
  gl_Checkout :: "history \<Rightarrow> string \<Rightarrow> string \<Rightarrow> error + unit"
  gl_NewPublicKeys :: "history \<Rightarrow> string \<Rightarrow> bytes \<Rightarrow> string \<Rightarrow> error + PublicKeys"
  gl_KnownHostsNew :: "history \<Rightarrow> string \<Rightarrow> error + host_key_callback"

definition SecureJoin :: "git_lib \<Rightarrow> string \<Rightarrow> string \<Rightarrow> string eio" where
  "SecureJoin g r s = outside (CallSecureJoin r s) (\<lambda>h. gl_SecureJoin g h r s)"

definition git_PlainClone :: "git_lib \<Rightarrow> string \<Rightarrow> string \<Rightarrow> AuthMethod option \<Rightarrow> string eio" where
  "git_PlainClone g d u am = outside (CallPlainClone d u am) (\<lambda>h. gl_PlainClone g h d u am)"

definition repo_ResolveRevision :: "git_lib \<Rightarrow> string \<Rightarrow> string \<Rightarrow> string eio" where
  "repo_ResolveRevision g r v =
     outside (CallResolveRevision r v) (\<lambda>h. gl_ResolveRevision g h r v)"

definition repo_Worktree :: "git_lib \<Rightarrow> string \<Rightarrow> string eio" where
  "repo_Worktree g r = outside (CallWorktree r) (\<lambda>h. gl_Worktree g h r)"

definition wt_Checkout :: "git_lib \<Rightarrow> string \<Rightarrow> string \<Rightarrow> unit eio" where
  "wt_Checkout g w c = outside (CallCheckout w c) (\<lambda>h. gl_Checkout g h w c)"

definition ssh_NewPublicKeys :: "git_lib \<Rightarrow> string \<Rightarrow> bytes \<Rightarrow> string \<Rightarrow> PublicKeys eio" where
  "ssh_NewPublicKeys g u k p =
     outside (CallNewPublicKeys u k p) (\<lambda>h. gl_NewPublicKeys g h u k p)"

definition knownhosts_New :: "git_lib \<Rightarrow> string \<Rightarrow> host_key_callback eio" where
  "knownhosts_New g f = outside (CallKnownHostsNew f) (\<lambda>h. gl_KnownHostsNew g h f)"

subsection \<open>kube-diff\<close>

text \<open>
  \<open>kd_Run\<close> is \<open>engine.Run\<close>: it is handed the source as its \<open>Load\<close> method and the fetcher as its
  \<open>Get\<close>. The three status strings are kube-diff's \<open>diff.Status...\<close> constants.
\<close>

type_synonym fetcher = "string \<Rightarrow> string \<Rightarrow> string \<Rightarrow> string \<Rightarrow> gvalue eio"

record kd_lib =
  kd_BytesLoad :: "history \<Rightarrow> bytes \<Rightarrow> error + Resource list"
  kd_FileLoad :: "history \<Rightarrow> string \<Rightarrow> error + Resource list"
  kd_GetLabels :: "gvalue \<Rightarrow> labels"
  kd_Run :: "Resource list eio \<Rightarrow> fetcher \<Rightarrow> DiffResult list eio"
  kd_StatusChanged :: string
  kd_StatusNew :: string
  kd_StatusDeleted :: string

definition BytesSource_Load :: "kd_lib \<Rightarrow> bytes \<Rightarrow> Resource list eio" where
  "BytesSource_Load kd b = outside (CallBytesSourceLoad b) (\<lambda>h. kd_BytesLoad kd h b)"

definition FileSource_Load :: "kd_lib \<Rightarrow> string \<Rightarrow> Resource list eio" where
  "FileSource_Load kd p = outside (CallFileSourceLoad p) (\<lambda>h. kd_FileLoad kd h p)"

subsection \<open>Kubernetes clients\<close>

record kube_lib =
  kl_GetDriftCheck :: "history \<Rightarrow> NamespacedName \<Rightarrow> error + DriftCheck"
  kl_GetConfigMap :: "history \<Rightarrow> NamespacedName \<Rightarrow> error + ConfigMap"
  kl_GetSecret :: "history \<Rightarrow> NamespacedName \<Rightarrow> error + Secret"
  kl_StatusUpdate :: "history \<Rightarrow> DriftCheck \<Rightarrow> error + DriftCheck"
  kl_IsNotFound :: "error \<Rightarrow> bool"
  kl_IsForbidden :: "error \<Rightarrow> bool"
  kl_IsUnauthorized :: "error \<Rightarrow> bool"
  kl_SetStatusCondition :: "history \<Rightarrow> Condition list \<Rightarrow> Condition \<Rightarrow> Condition list"
  kl_Now :: "history \<Rightarrow> time"
  kl_LabelSelectorAsSelector :: "LabelSelector \<Rightarrow> error + Selector"

definition client_GetDriftCheck :: "kube_lib \<Rightarrow> NamespacedName \<Rightarrow> DriftCheck eio" where
  "client_GetDriftCheck k n = outside (CallGetDriftCheck n) (\<lambda>h. kl_GetDriftCheck k h n)"

definition client_GetConfigMap :: "kube_lib \<Rightarrow> NamespacedName \<Rightarrow> ConfigMap eio" where
  "client_GetConfigMap k n = outside (CallGetConfigMap n) (\<lambda>h. kl_GetConfigMap k h n)"

definition client_GetSecret :: "kube_lib \<Rightarrow> NamespacedName \<Rightarrow> Secret eio" where
  "client_GetSecret k n = outside (CallGetSecret n) (\<lambda>h. kl_GetSecret k h n)"

text \<open>A successful status update overwrites the caller's object with the server's answer.\<close>

definition client_StatusUpdate :: "kube_lib \<Rightarrow> DriftCheck \<Rightarrow> DriftCheck eio" where
  "client_StatusUpdate k d = outside (CallStatusUpdate d) (\<lambda>h. kl_StatusUpdate k h d)"

subsection \<open>Helm and Kustomize\<close>

record Dependency =
  dep_name :: string
  dep_repository :: string

text \<open>A loaded chart: its declared dependencies, and everything else as an opaque tree.\<close>

record Chart =
  ch_dependencies :: "Dependency list"
  ch_tree :: gvalue

record RepoEntry =
  re_name :: string
  re_url :: string

text \<open>A dependency build returns, or panics with a printed value.\<close>

datatype build_outcome =
    Returned "error + unit"
  | Panicked string

text \<open>
  \<open>hl_SortManifests\<close> yields the contents of the hooks and of the other manifests;
  \<open>hl_CtxDone\<close> is the context's error when its cancellation is what \<open>select\<close> receives.
\<close>

record helm_lib =
  hl_LoadChart :: "history \<Rightarrow> string \<Rightarrow> error + Chart"
  hl_ReadValues :: "bytes \<Rightarrow> error + (string \<times> gvalue) list"
  hl_ProcessDependencies ::
    "Chart \<Rightarrow> (string \<times> gvalue) list \<Rightarrow> error + Chart \<times> (string \<times> gvalue) list"
  hl_ToRenderValues ::
    "Chart \<Rightarrow> (string \<times> gvalue) list \<Rightarrow> string \<Rightarrow> string \<Rightarrow> error + (string \<times> gvalue) list"
  hl_Render :: "history \<Rightarrow> Chart \<Rightarrow> (string \<times> gvalue) list \<Rightarrow> error + string gomap"
  hl_SortManifests :: "string gomap \<Rightarrow> error + string list \<times> string list"
  hl_CRDObjects :: "Chart \<Rightarrow> bytes list"
  hl_WriteRepoFile :: "history \<Rightarrow> string \<Rightarrow> RepoEntry list \<Rightarrow> error + unit"
  hl_RegistryClient :: "history \<Rightarrow> string \<Rightarrow> error + unit"
  hl_ManagerUpdate :: "history \<Rightarrow> string \<Rightarrow> string \<Rightarrow> build_outcome"
  hl_FilepathJoin :: "string \<Rightarrow> string \<Rightarrow> string"
  hl_CtxDone :: "history \<Rightarrow> error option"

definition helm_LoadChart :: "helm_lib \<Rightarrow> string \<Rightarrow> Chart eio" where
  "helm_LoadChart hl d = outside (CallLoadChart d) (\<lambda>h. hl_LoadChart hl h d)"

definition helm_Render :: "helm_lib \<Rightarrow> Chart \<Rightarrow> (string \<times> gvalue) list \<Rightarrow> string gomap eio" where
  "helm_Render hl ch vals = outside CallRenderChart (\<lambda>h. hl_Render hl h ch vals)"

definition helm_WriteRepoFile :: "helm_lib \<Rightarrow> string \<Rightarrow> RepoEntry list \<Rightarrow> unit eio" where
  "helm_WriteRepoFile hl p es = outside (CallWriteRepoFile p) (\<lambda>h. hl_WriteRepoFile hl h p es)"

definition helm_RegistryClient :: "helm_lib \<Rightarrow> string \<Rightarrow> unit eio" where
  "helm_RegistryClient hl p = outside (CallRegistryClient p) (\<lambda>h. hl_RegistryClient hl h p)"

definition helm_ManagerUpdate :: "helm_lib \<Rightarrow> string \<Rightarrow> string \<Rightarrow> build_outcome io" where
  "helm_ManagerUpdate hl d c = outside (CallManagerUpdate d c) (\<lambda>h. hl_ManagerUpdate hl h d c)"

record kust_lib =
  ku_Run :: "history \<Rightarrow> string \<Rightarrow> error + gvalue"
  ku_AsYaml :: "gvalue \<Rightarrow> error + bytes"

definition krusty_Run :: "kust_lib \<Rightarrow> string \<Rightarrow> gvalue eio" where
  "krusty_Run ku d = outside (CallKustomizeRun d) (\<lambda>h. ku_Run ku h d)"

subsection \<open>HTTP\<close>

text \<open>\<open>htl_Do\<close> answers with the status code; its first argument is the client's timeout, 0 for none.\<close>

record http_lib =
  htl_NewRequest :: "string \<Rightarrow> error + unit"
  htl_Do :: "history \<Rightarrow> go_int \<Rightarrow> string \<Rightarrow> (string \<times> string) list \<Rightarrow> bytes \<Rightarrow> error + int"

definition http_Do :: "http_lib \<Rightarrow> go_int \<Rightarrow> string \<Rightarrow> (string \<times> string) list \<Rightarrow> bytes \<Rightarrow> int eio" where
  "http_Do hx tm u hs b = outside (CallHTTPPost tm u hs b) (\<lambda>h. htl_Do hx h tm u hs b)"

text \<open>A library function that only computes.\<close>

definition pure :: "error + 'a \<Rightarrow> 'a eio" where
  "pure r h = (r, h)"

lemma adds_only_pure [quiet]: "adds_only P (pure r)"
  by (auto simp: adds_only_def pure_def)

record env =
  e_os :: os_lib
  e_git :: git_lib
  e_kd :: kd_lib
  e_kube :: kube_lib
  e_helm :: helm_lib
  e_kust :: kust_lib
  e_http :: http_lib

subsection \<open>Which calls they add\<close>

lemma adds_only_libraries [quiet]:
  "adds_only source_call (os_MkdirTemp os d p)"
  "adds_only source_call (os_RemoveAll os d)"
  "adds_only source_call (os_CreateTemp os d p)"
  "adds_only source_call (os_Write os f b)"
  "adds_only source_call (os_Close os f)"
  "adds_only source_call (os_Remove os f)"
  "adds_only source_call (os_ReadFile os f)"
  "adds_only source_call (SecureJoin g r s)"
  "adds_only source_call (git_PlainClone g d u am)"
  "adds_only source_call (repo_ResolveRevision g rp v)"
  "adds_only source_call (repo_Worktree g rp)"
  "adds_only source_call (wt_Checkout g w c)"
  "adds_only source_call (ssh_NewPublicKeys g u ky pp)"
  "adds_only source_call (knownhosts_New g f)"
  "adds_only source_call (BytesSource_Load kd b)"
  "adds_only source_call (FileSource_Load kd pth)"
  "adds_only source_call (helm_LoadChart hl cd)"
  "adds_only source_call (helm_Render hl ch vs)"
  "adds_only source_call (helm_WriteRepoFile hl rp es)"
  "adds_only source_call (helm_RegistryClient hl rp)"
  "adds_only source_call (helm_ManagerUpdate hl cd rp)"
  "adds_only source_call (krusty_Run ku cd)"
  by (simp_all add: os_MkdirTemp_def os_RemoveAll_def os_CreateTemp_def os_Write_def os_Close_def
      os_Remove_def os_ReadFile_def SecureJoin_def git_PlainClone_def repo_ResolveRevision_def
      repo_Worktree_def wt_Checkout_def ssh_NewPublicKeys_def knownhosts_New_def
      BytesSource_Load_def FileSource_Load_def helm_LoadChart_def helm_Render_def
      helm_WriteRepoFile_def helm_RegistryClient_def helm_ManagerUpdate_def krusty_Run_def
      adds_only_outside)

end
