(* ===== verification/Helm_Values.thy ===== *)
theory Helm_Values
  imports Libraries "HOL-Library.AList"
begin

text \<open>
  The pure parts of \<open>internal/source/helm.go\<close>: \<open>mergeValues\<close>, the deep merge of values maps, and
  \<open>dependencyRepoFile\<close>, the repository file of a chart's HTTP(S) dependencies. A map is its list of
  entries in the order in which this run of \<open>range\<close> visits them; an assignment is
  \<open>AList.update\<close>. A nil map and an empty map are both the empty list.
\<close>

subsection \<open>Merging values\<close>

type_synonym vmap = "(string \<times> gvalue) list"

function mergeValues :: "vmap \<Rightarrow> vmap \<Rightarrow> vmap" where
  "mergeValues dst [] = dst"
| "mergeValues dst ((k, v) # src) =
     (case v of
        VMap srcMap \<Rightarrow>
          (case map_of dst k of
             Some (VMap dstMap) \<Rightarrow>
               mergeValues (AList.update k (VMap (mergeValues dstMap srcMap)) dst) src
           | _ \<Rightarrow> mergeValues (AList.update k v dst) src)
      | _ \<Rightarrow> mergeValues (AList.update k v dst) src)"
  by pat_completeness auto
termination
  by (relation "measure (\<lambda>(dst, src). size_list (size_prod (\<lambda>_. 0) size) src)") auto

text \<open>What a merge leaves at one key, from what the two sides hold there.\<close>

fun merged_value :: "gvalue option \<Rightarrow> gvalue option \<Rightarrow> gvalue option" where
  "merged_value d None = d"
| "merged_value (Some (VMap a)) (Some (VMap b)) = Some (VMap (mergeValues a b))"
| "merged_value d (Some v) = Some v"

lemma mergeValues_Cons:
  "mergeValues dst ((k, v) # src) =
     mergeValues (AList.update k (the (merged_value (map_of dst k) (Some v))) dst) src"
  by (cases v; cases "map_of dst k") (auto split: option.split gvalue.split)

declare mergeValues.simps(2) [simp del]

lemma merged_value_Some [simp]: "\<exists>w. merged_value d (Some v) = Some w"
  by (cases "(d, Some v)" rule: merged_value.cases) auto

lemma map_of_mergeValues:
  "gomap_wf src \<Longrightarrow> map_of (mergeValues dst src) k = merged_value (map_of dst k) (map_of src k)"
proof (induction src arbitrary: dst)
  case Nil
  then show ?case by simp
next
  case (Cons kv src)
  obtain k' v where kv: "kv = (k', v)"
    by (cases kv)
  obtain w where w: "merged_value (map_of dst k') (Some v) = Some w"
    using merged_value_Some by blast
  have wf: "k' \<notin> fst ` set src" "gomap_wf src"
    using Cons.prems kv by simp_all
  have "map_of src k' = None"
    using wf(1) by (simp add: map_of_eq_None_iff)
  then show ?case
    using w Cons.IH [OF wf(2), of "AList.update k' w dst"]
    by (auto simp: kv mergeValues_Cons update_conv')
qed

text \<open>Values at a path of keys.\<close>

fun value_at :: "gvalue \<Rightarrow> string list \<Rightarrow> gvalue option" where
  "value_at v [] = Some v"
| "value_at (VMap m) (k # p) = (case map_of m k of None \<Rightarrow> None | Some v \<Rightarrow> value_at v p)"
| "value_at v (k # p) = None"

fun is_map :: "gvalue \<Rightarrow> bool" where
  "is_map (VMap m) = True"
| "is_map v = False"

text \<open>No map inside has a key twice.\<close>

fun deep_wf :: "gvalue \<Rightarrow> bool" where
  "deep_wf (VMap m) \<longleftrightarrow> gomap_wf m \<and> (\<forall>(k, v) \<in> set m. deep_wf v)"
| "deep_wf v \<longleftrightarrow> True"

lemma deep_wf_map_of: "deep_wf (VMap m) \<Longrightarrow> map_of m k = Some v \<Longrightarrow> deep_wf v"
  by (auto dest: map_of_SomeD)

text \<open>\<open>untouched src p\<close>: \<open>src\<close> has no entry at \<open>p\<close> nor at a proper prefix that is not a map.\<close>

fun untouched :: "vmap \<Rightarrow> string list \<Rightarrow> bool" where
  "untouched src [] = False"
| "untouched src (k # p) =
     (case map_of src k of None \<Rightarrow> True | Some (VMap m) \<Rightarrow> untouched m p | Some v \<Rightarrow> False)"

lemma untouched_value_at: "untouched src p \<Longrightarrow> value_at (VMap src) p = None"
  by (induction src p rule: untouched.induct) (auto split: option.splits gvalue.splits)

lemma mergeValues_src_wins:
  assumes "deep_wf (VMap src)" "value_at (VMap src) p = Some v" "\<not> is_map v"
  shows "value_at (VMap (mergeValues dst src)) p = Some v"
  using assms
proof (induction p arbitrary: src dst)
  case Nil
  then show ?case by auto
next
  case (Cons k p)
  obtain w where w: "map_of src k = Some w" "value_at w p = Some v"
    using Cons.prems(2) by (auto split: option.splits)
  have wf: "gomap_wf src" "deep_wf w"
    using Cons.prems(1) w(1) by (auto dest: deep_wf_map_of map_of_SomeD)
  note at_k = map_of_mergeValues [OF wf(1), of dst k]
  show ?case
  proof (cases "(map_of dst k, map_of src k)" rule: merged_value.cases)
    case (2 a b)
    then have "value_at (VMap (mergeValues a b)) p = Some v"
      using Cons.IH wf(2) w Cons.prems(3) by auto
    then show ?thesis
      using 2 at_k by simp
  qed (use w at_k in auto)
qed

lemma mergeValues_dst_kept:
  assumes "deep_wf (VMap src)" "untouched src p"
  shows "value_at (VMap (mergeValues dst src)) p = value_at (VMap dst) p"
  using assms
proof (induction p arbitrary: src dst)
  case Nil
  then show ?case by simp
next
  case (Cons k p)
  have wf: "gomap_wf src"
    using Cons.prems(1) by simp
  note at_k = map_of_mergeValues [OF wf, of dst k]
  show ?case
  proof (cases "map_of src k")
    case None
    then show ?thesis
      using at_k by simp
  next
    case (Some w)
    then obtain m where m: "w = VMap m" "untouched m p"
      using Cons.prems(2) by (auto split: gvalue.splits)
    have wf_m: "deep_wf (VMap m)"
      using Cons.prems(1) Some m(1) deep_wf_map_of by blast
    show ?thesis
    proof (cases "map_of dst k")
      case None
      then show ?thesis
        using at_k Some m untouched_value_at by simp
    next
      case (Some d)
      show ?thesis
      proof (cases d)
        case (VMap a)
        then show ?thesis
          using at_k Some \<open>map_of src k = Some w\<close> m Cons.IH [OF wf_m m(2), of a] by simp
      qed (use at_k Some \<open>map_of src k = Some w\<close> m untouched_value_at [OF m(2)] in
            \<open>cases p; simp\<close>)+
    qed
  qed
qed

text \<open>A leaf of the result that is not the destination's is the source's.\<close>

lemma mergeValues_leaf_from_src:
  assumes "deep_wf (VMap src)" "\<not> untouched src p" "value_at (VMap (mergeValues dst src)) p = Some v" "\<not> is_map v"
  shows "value_at (VMap src) p = Some v"
  using assms
proof (induction p arbitrary: src dst)
  case Nil
  then show ?case by auto
next
  case (Cons k p)
  obtain w where w: "map_of src k = Some w"
    using Cons.prems(2) by (cases "map_of src k") auto
  have wf: "gomap_wf src" "deep_wf w"
    using Cons.prems(1) w by (auto dest: deep_wf_map_of map_of_SomeD)
  note at_k = map_of_mergeValues [OF wf(1), of dst k]
  show ?case
  proof (cases "(map_of dst k, map_of src k)" rule: merged_value.cases)
    case (2 a b)
    then have "value_at (VMap b) p = Some v"
      using Cons.IH [of b a] Cons.prems wf(2) w at_k by auto
    then show ?thesis
      using 2 by simp
  qed (use w at_k Cons.prems(3) in auto)
qed

lemma mergeValues_layer_kept:
  "\<forall>l \<in> set later. deep_wf (VMap l) \<and> untouched l p \<Longrightarrow>
   value_at (VMap (foldl mergeValues d later)) p = value_at (VMap d) p"
  by (induction later arbitrary: d) (simp_all add: mergeValues_dst_kept del: deep_wf.simps)

text \<open>
  C32: The leaves of merged values are those of the last layer that speaks at their path. Of layers merged
  in turn, a value that is not a map stands at a path of the result exactly when some layer has it
  there and no later layer has an entry at that path or a non-map above it. Maps are not replaced
  but merged: both sides' leaves survive where they do not meet.
\<close>

theorem mergeValues_last_layer_wins:
  assumes "\<forall>l \<in> set layers. deep_wf (VMap l)" "\<not> is_map v"
  shows "value_at (VMap (foldl mergeValues [] layers)) p = Some v \<longleftrightarrow>
    (\<exists>earlier m later. layers = earlier @ m # later \<and> value_at (VMap m) p = Some v
       \<and> (\<forall>l \<in> set later. untouched l p))"
proof
  assume "\<exists>earlier m later. layers = earlier @ m # later \<and> value_at (VMap m) p = Some v
       \<and> (\<forall>l \<in> set later. untouched l p)"
  then obtain earlier m later where l: "layers = earlier @ m # later" "value_at (VMap m) p = Some v"
      "\<forall>l \<in> set later. untouched l p"
    by blast
  then have "value_at (VMap (mergeValues dst m)) p = Some v" for dst
    using assms by (intro mergeValues_src_wins) (simp_all del: deep_wf.simps)
  moreover have "value_at (VMap (foldl mergeValues d later)) p = value_at (VMap d) p" for d
    using assms(1) l(1,3) by (intro mergeValues_layer_kept) (simp del: deep_wf.simps)
  ultimately show "value_at (VMap (foldl mergeValues [] layers)) p = Some v"
    using l(1) by simp
next
  assume "value_at (VMap (foldl mergeValues [] layers)) p = Some v"
  then show "\<exists>earlier m later. layers = earlier @ m # later \<and> value_at (VMap m) p = Some v
       \<and> (\<forall>l \<in> set later. untouched l p)"
    using assms(1)
  proof (induction layers rule: rev_induct)
    case Nil
    then show ?case
      using assms(2) by (cases p) auto
  next
    case (snoc l layers)
    show ?case
    proof (cases "untouched l p")
      case True
      then obtain earlier m later where "layers = earlier @ m # later" "value_at (VMap m) p = Some v"
          "\<forall>l \<in> set later. untouched l p"
        using snoc mergeValues_dst_kept [of l p] by auto
      then show ?thesis
        using True by (intro exI [of _ earlier] exI [of _ m] exI [of _ "later @ [l]"]) simp
    next
      case False
      then have "value_at (VMap l) p = Some v"
        using snoc.prems mergeValues_leaf_from_src [of l p] assms(2) by simp
      then show ?thesis
        by (intro exI [of _ layers] exI [of _ l] exI [of _ "[]"]) simp
    qed
  qed
qed

theorem mergeValues_last_layer_wins_witness:
  "value_at (VMap (foldl mergeValues [] [[(''image'', VMap [(''tag'', VStr ''1''), (''repo'', VStr ''r'')])],
      [(''image'', VMap [(''tag'', VStr ''2'')])], [(''image'', VMap [(''repo'', VStr ''s'')])]]))
     [''image'', ''tag''] = Some (VStr ''2'')"
proof (rule mergeValues_last_layer_wins [THEN iffD2])
  let ?a = "[(''image'', VMap [(''tag'', VStr ''1''), (''repo'', VStr ''r'')])]"
    and ?b = "[(''image'', VMap [(''tag'', VStr ''2'')])]" and ?c = "[(''image'', VMap [(''repo'', VStr ''s'')])]"
  show "\<exists>earlier m later. [?a, ?b, ?c] = earlier @ m # later \<and> value_at (VMap m) [''image'', ''tag''] = Some (VStr ''2'')
      \<and> (\<forall>l \<in> set later. untouched l [''image'', ''tag''])"
    by (intro exI [of _ "[?a]"] exI [of _ ?b] exI [of _ "[?c]"]) simp
qed simp_all

lemma gomap_wf_mset: "gomap_wf src \<Longrightarrow> mset src = mset src' \<Longrightarrow> gomap_wf src'"
  unfolding gomap_wf_def by (metis mset_eq_imp_distinct_iff mset_map)

text \<open>
  The result of a merge does not depend on the order in which \<open>range\<close> visits the source map: two
  enumerations of it leave the same value at every key.
\<close>

theorem mergeValues_range_order:
  assumes "gomap_wf src" "mset src = mset src'"
  shows "map_of (mergeValues dst src) = map_of (mergeValues dst src')"
  using assms gomap_wf_mset [OF assms] map_of_mset_eq [OF assms(2,1)]
  by (auto simp: fun_eq_iff map_of_mergeValues)

theorem mergeValues_range_order_witness:
  "map_of (mergeValues [(''a'', VNum ''1'')] [(''a'', VNum ''2''), (''b'', VNil)])
     = map_of (mergeValues [(''a'', VNum ''1'')] [(''b'', VNil), (''a'', VNum ''2'')])"
  by (rule mergeValues_range_order) simp_all

subsection \<open>Dependency repositories\<close>

definition http_repository :: "string \<Rightarrow> bool" where
  "http_repository u \<longleftrightarrow> HasPrefix u ''http://'' \<or> HasPrefix u ''https://''"

text \<open>The loop: the \<open>seen\<close> map as the set of its true keys, the file as its entries so far.\<close>

fun dependency_loop :: "Dependency list \<Rightarrow> string list \<Rightarrow> RepoEntry list \<Rightarrow> RepoEntry list" where
  "dependency_loop [] seen rf = rf"
| "dependency_loop (dep # deps) seen rf =
     (let u = dep_repository dep in
      if \<not> HasPrefix u ''http://'' \<and> \<not> HasPrefix u ''https://'' \<or> u \<in> set seen
      then dependency_loop deps seen rf
      else dependency_loop deps (u # seen)
             (rf @ [\<lparr>re_name = ''dep-'' @ nat_decimal (length rf), re_url = u\<rparr>]))"

definition dependencyRepoFile :: "Dependency list \<Rightarrow> RepoEntry list" where
  "dependencyRepoFile deps = dependency_loop deps [] []"

lemma dependency_loop_inv:
  fixes deps :: "Dependency list"
  assumes "distinct (map re_url rf)" "set seen = re_url ` set rf"
    and "map re_name rf = map (\<lambda>i. ''dep-'' @ nat_decimal i) [0 ..< length rf]"
  defines "out \<equiv> dependency_loop deps seen rf"
  shows "distinct (map re_url out)
    \<and> set (map re_url out) =
        re_url ` set rf \<union> {u \<in> dep_repository ` set deps. http_repository u}
    \<and> map re_name out = map (\<lambda>i. ''dep-'' @ nat_decimal i) [0 ..< length out]"
  using assms(1-3) unfolding out_def
proof (induction deps seen rf rule: dependency_loop.induct)
  case (1 seen rf)
  then show ?case by auto
next
  case (2 dep deps seen rf)
  let ?u = "dep_repository dep"
  show ?case
  proof (cases "\<not> http_repository ?u \<or> ?u \<in> set seen")
    case True
    then have step: "dependency_loop (dep # deps) seen rf = dependency_loop deps seen rf"
      by (auto simp: http_repository_def Let_def)
    have skip: "\<not> HasPrefix ?u ''http://'' \<and> \<not> HasPrefix ?u ''https://'' \<or> ?u \<in> set seen"
      using True by (auto simp: http_repository_def)
    from "2.IH"(1) [OF refl skip "2.prems"] show ?thesis
      unfolding step using True "2.prems"(2) by auto
  next
    case False
    let ?e = "\<lparr>re_name = ''dep-'' @ nat_decimal (length rf), re_url = ?u\<rparr>"
    have add: "\<not> (\<not> HasPrefix ?u ''http://'' \<and> \<not> HasPrefix ?u ''https://'' \<or> ?u \<in> set seen)"
      using False by (auto simp: http_repository_def)
    have step: "dependency_loop (dep # deps) seen rf
        = dependency_loop deps (?u # seen) (rf @ [?e])"
      using add by (simp only: dependency_loop.simps Let_def if_False)
    have fresh: "?u \<notin> re_url ` set rf"
      using False "2.prems"(2) by simp
    from "2.IH"(2) [OF refl add] show ?thesis
      unfolding step using "2.prems" fresh False by auto
  qed
qed

text \<open>
  The repository file of a chart lists each HTTP(S) repository of its dependencies exactly once, no
  other repository, under the names \<open>dep-0\<close>, \<open>dep-1\<close>, ... which are pairwise distinct.
\<close>

theorem dependencyRepoFile_entries:
  "let rf = dependencyRepoFile deps in
     distinct (map re_url rf)
     \<and> set (map re_url rf) = {u. u \<in> dep_repository ` set deps \<and> http_repository u}
     \<and> map re_name rf = map (\<lambda>i. ''dep-'' @ nat_decimal i) [0 ..< length rf]
     \<and> distinct (map re_name rf)"
proof -
  define rf where "rf = dependencyRepoFile deps"
  have names: "map re_name rf = map (\<lambda>i. ''dep-'' @ nat_decimal i) [0 ..< length rf]"
    using dependency_loop_inv [of "[]" "[]" deps] by (simp add: rf_def dependencyRepoFile_def)
  moreover have "distinct (map (\<lambda>i. ''dep-'' @ nat_decimal i) [0 ..< length rf])"
    by (simp add: distinct_map inj_on_def)
  ultimately have "distinct (map re_name rf)"
    by metis
  then show ?thesis
    using dependency_loop_inv [of "[]" "[]" deps] names
    unfolding Let_def rf_def dependencyRepoFile_def by simp
qed

end
