(* ===== verification/Example_Env.thy ===== *)
theory Example_Env
  imports Libraries
begin

text \<open>
  One concrete environment, in which the hypotheses of the theorems are shown to hold together: every
  library answers, a Git repository has the single branch \<open>main\<close>, the cluster holds a DriftCheck, a
  ConfigMap with one manifest and a Secret, and the engine reports every loaded manifest as changed.
\<close>

definition ex_os :: os_lib where
  "ex_os =
     \<lparr>osl_MkdirTemp = \<lambda>h d p. Inr (''/tmp/'' @ p @ ''1''), osl_RemoveAll = \<lambda>h d. Inr (),
      osl_CreateTemp = \<lambda>h d p. Inr (''/tmp/'' @ p @ ''1''), osl_Write = \<lambda>h f b. Inr (),
      osl_Close = \<lambda>h f. Inr (), osl_Remove = \<lambda>h f. Inr (), osl_ReadFile = \<lambda>h f. Inr ''a: 1''\<rparr>"

definition ex_git :: git_lib where
  "ex_git =
     \<lparr>gl_SecureJoin = \<lambda>h r s. Inr (r @ ''/'' @ s), gl_PlainClone = \<lambda>h d u a. Inr ''repo'',
      gl_ResolveRevision =
        \<lambda>h r v. if v = ''origin/main'' then Inr ''c0ffee'' else Inl (LibErr ''reference not found''),
      gl_Worktree = \<lambda>h r. Inr ''wt'', gl_Checkout = \<lambda>h w c. Inr (),
      gl_NewPublicKeys = \<lambda>h u k p. Inr \<lparr>pk_user = u, pk_signer = k, pk_hostKeyCallback = None\<rparr>,
      gl_KnownHostsNew = \<lambda>h f. Inr (\<lambda>host key. host = ''github.com'')\<rparr>"

definition ex_manifest :: Resource where
  "ex_manifest =
     \<lparr>res_apiVersion = ''v1'', res_kind = ''ConfigMap'', res_name = ''app'',
      res_namespace = ''prod'', res_object = None\<rparr>"

definition ex_result :: "Resource \<Rightarrow> DiffResult" where
  "ex_result r =
     \<lparr>dres_apiVersion = res_apiVersion r, dres_kind = res_kind r, dres_name = res_name r,
      dres_namespace = res_namespace r, dres_status = ''changed''\<rparr>"

definition ex_kd :: kd_lib where
  "ex_kd =
     \<lparr>kd_BytesLoad = \<lambda>h b. Inr [ex_manifest], kd_FileLoad = \<lambda>h p. Inr [ex_manifest],
      kd_GetLabels = \<lambda>v. Map.empty,
      kd_Run = \<lambda>load f. try_bind load (\<lambda>rs. give (map ex_result rs)),
      kd_StatusChanged = ''changed'', kd_StatusNew = ''new'', kd_StatusDeleted = ''deleted''\<rparr>"

definition ex_webhook :: WebhookSpec where
  "ex_webhook = \<lparr>wh_type = ''Slack'', wh_url = ''http://hook'', wh_urlSecretRef = None\<rparr>"

definition ex_source :: Source where
  "ex_source =
     \<lparr>src_type = ''ConfigMap'', src_git = None,
      src_configMap = Some \<lparr>cms_name = ''desired'', cms_namespace = [], cms_key = []\<rparr>,
      src_helm = None, src_kustomize = None\<rparr>"

definition ex_status :: DriftCheckStatus where
  "ex_status =
     \<lparr>st_lastCheckedAt = None, st_driftedResources = [],
      st_summary = \<lparr>sum_changed = 0, sum_new = 0, sum_deleted = 0, sum_unchanged = 0\<rparr>,
      st_observedGeneration = 0, st_lastNotifiedHash = [], st_conditions = []\<rparr>"

definition ex_dc :: DriftCheck where
  "ex_dc =
     \<lparr>dc_meta = \<lparr>om_name = ''web'', om_namespace = ''prod'', om_generation = 3,
                 om_resourceVersion = ''7''\<rparr>,
      dc_spec = \<lparr>spec_source = ex_source,
                 spec_target = \<lparr>tgt_namespaces = [], tgt_labelSelector = None\<rparr>,
                 spec_interval = 60000000000, spec_notify = Some \<lparr>ns_webhooks = [ex_webhook]\<rparr>\<rparr>,
      dc_status = ex_status\<rparr>"

definition ex_req :: NamespacedName where
  "ex_req = \<lparr>nn_namespace = ''prod'', nn_name = ''web''\<rparr>"

definition ex_secret :: Secret where
  "ex_secret =
     \<lparr>sec_data = [(''username'', ''bot''), (''password'', ''pw''), (''bearerToken'', ''tok''),
                  (''identity'', ''key''), (''known_hosts'', ''hosts''), (''url'', ''http://hook'')]\<rparr>"

definition ex_configmap :: ConfigMap where
  "ex_configmap =
     \<lparr>cm_meta = \<lparr>om_name = ''desired'', om_namespace = ''prod'', om_generation = 0,
                 om_resourceVersion = ''1''\<rparr>,
      cm_data = [(''b.yaml'', ''kind: B''), (''a.yaml'', ''kind: A'')], cm_binaryData = []\<rparr>"

definition ex_kube :: kube_lib where
  "ex_kube =
     \<lparr>kl_GetDriftCheck =
        \<lambda>h n. if n = ex_req then Inr ex_dc else Inl (StatusErr ''NotFound'' ''not found''),
      kl_GetConfigMap = \<lambda>h n. Inr ex_configmap, kl_GetSecret = \<lambda>h n. Inr ex_secret,
      kl_StatusUpdate = \<lambda>h d. Inr d,
      kl_IsNotFound = \<lambda>e. \<exists>m. root_cause e = StatusErr ''NotFound'' m,
      kl_IsForbidden = \<lambda>e. \<exists>m. root_cause e = StatusErr ''Forbidden'' m,
      kl_IsUnauthorized = \<lambda>e. \<exists>m. root_cause e = StatusErr ''Unauthorized'' m,
      kl_SetStatusCondition = \<lambda>h cs c. filter (\<lambda>d. cond_type d \<noteq> cond_type c) cs @ [c],
      kl_Now = \<lambda>h. 0,
      kl_LabelSelectorAsSelector =
        \<lambda>ls. Inr (\<lambda>l. list_all (\<lambda>(k, v). l k = Some v) (sel_matchLabels ls))\<rparr>"

definition ex_helm :: helm_lib where
  "ex_helm =
     \<lparr>hl_LoadChart = \<lambda>h d. Inr \<lparr>ch_dependencies = [], ch_tree = VNil\<rparr>,
      hl_ReadValues = \<lambda>b. Inr [(''a'', VNum ''1'')],
      hl_ProcessDependencies = \<lambda>ch vs. Inr (ch, vs),
      hl_ToRenderValues = \<lambda>ch vs rn ns. Inr vs,
      hl_Render = \<lambda>h ch vs. Inr [(''t/NOTES.txt'', ''hi''), (''t/cm.yaml'', ''kind: ConfigMap'')],
      hl_SortManifests = \<lambda>fs. Inr ([], map snd fs),
      hl_CRDObjects = \<lambda>ch. [], hl_WriteRepoFile = \<lambda>h p es. Inr (),
      hl_RegistryClient = \<lambda>h p. Inr (), hl_ManagerUpdate = \<lambda>h d c. Returned (Inr ()),
      hl_FilepathJoin = \<lambda>a b. a @ ''/'' @ b, hl_CtxDone = \<lambda>h. None\<rparr>"

definition ex_kust :: kust_lib where
  "ex_kust = \<lparr>ku_Run = \<lambda>h d. Inr VNil, ku_AsYaml = \<lambda>v. Inr ''kind: ConfigMap''\<rparr>"

definition ex_http :: http_lib where
  "ex_http = \<lparr>htl_NewRequest = \<lambda>u. Inr (), htl_Do = \<lambda>h tm u hs b. Inr 200\<rparr>"

definition ex_env :: env where
  "ex_env =
     \<lparr>e_os = ex_os, e_git = ex_git, e_kd = ex_kd, e_kube = ex_kube, e_helm = ex_helm,
      e_kust = ex_kust, e_http = ex_http\<rparr>"

end
