(* ===== verification/Git_Source.thy ===== *)
theory Git_Source
  imports Libraries Example_Env
begin

text \<open>
  \<open>internal/source/git.go\<close>: the resolved credentials become a go-git authentication method
  (\<open>authMethod\<close>, with fail-closed host-key verification), a repository is cloned and a ref checked
  out (\<open>gitClone\<close>, \<open>resolveRevision\<close>), and \<open>withCheckout\<close> runs a loader on a sub-path of a temporary
  checkout that is removed on every path. A request context has no value here: its cancellation is
  one of the answers of the calls it is passed to.
\<close>

subsection \<open>Authentication\<close>

definition knownHostsCallback :: "os_lib \<Rightarrow> git_lib \<Rightarrow> bytes \<Rightarrow> host_key_callback eio" where
  "knownHostsCallback os g kh =
     (if length kh = 0 then
        fail (Errorf ''ssh auth requires known_hosts (host-key verification is fail-closed)'')
      else
        try_bind (wrap_err ''create known_hosts temp file''
                    (os_CreateTemp os [] ''kube-drift-known-hosts-''))
          (\<lambda>f. defer_ignore (os_Remove os f)
            (try_bind (on_error (os_Close os f)
                         (wrap_err ''write known_hosts temp file'' (os_Write os f kh)))
              (\<lambda>_. try_bind (wrap_err ''close known_hosts temp file'' (os_Close os f))
                (\<lambda>_. wrap_err ''parse known_hosts'' (knownhosts_New g f))))))"

definition authMethod :: "os_lib \<Rightarrow> git_lib \<Rightarrow> GitAuth option \<Rightarrow> AuthMethod option eio" where
  "authMethod os g auth =
     (case auth of
        None \<Rightarrow> give None
      | Some a \<Rightarrow>
          (case ga_basic a of
             Some b \<Rightarrow> give (Some (BasicAuthMethod (ba_username b) (ba_password b)))
           | None \<Rightarrow>
               if ga_bearer a \<noteq> [] then give (Some (TokenAuthMethod (ga_bearer a)))
               else
                 (case ga_ssh a of
                    Some s \<Rightarrow>
                      (let user = (if ssh_user s = [] then ''git'' else ssh_user s) in
                       try_bind (wrap_err ''parse ssh private key''
                                   (ssh_NewPublicKeys g user (ssh_privateKey s) (ssh_passphrase s)))
                         (\<lambda>pk. try_bind (knownHostsCallback os g (ssh_knownHosts s))
                           (\<lambda>cb. give (Some (PublicKeysMethod (pk\<lparr>pk_hostKeyCallback := Some cb\<rparr>))))))
                  | None \<Rightarrow> give None)))"

subsection \<open>Cloning\<close>

text \<open>
  The loop over the two revisions. \<open>lastErr\<close> is what the loop ends with; its start value is never
  returned, since the list is not empty.
\<close>

fun resolve_loop :: "git_lib \<Rightarrow> string \<Rightarrow> string list \<Rightarrow> error \<Rightarrow> string eio" where
  "resolve_loop g repo [] lastErr h = (Inl lastErr, h)"
| "resolve_loop g repo (rv # rvs) lastErr h =
     (case repo_ResolveRevision g repo rv h of
        (Inr hash, h1) \<Rightarrow> (Inr hash, h1)
      | (Inl err, h1) \<Rightarrow> resolve_loop g repo rvs err h1)"

definition resolveRevision :: "git_lib \<Rightarrow> string \<Rightarrow> string \<Rightarrow> string eio" where
  "resolveRevision g repo ref = resolve_loop g repo [ref, ''origin/'' @ ref] (LibErr [])"

definition gitClone :: "os_lib \<Rightarrow> git_lib \<Rightarrow> string \<Rightarrow> string \<Rightarrow> string \<Rightarrow> GitAuth option \<Rightarrow> unit eio" where
  "gitClone os g dir url ref auth =
     try_bind (wrap_err ''git auth'' (authMethod os g auth))
       (\<lambda>am. try_bind (git_PlainClone g dir url am)
         (\<lambda>repo.
            if ref = [] then give ()
            else
              try_bind (wrap_err (''resolve ref '' @ go_quote ref) (resolveRevision g repo ref))
                (\<lambda>hash. try_bind (wrap_err ''open worktree'' (repo_Worktree g repo))
                  (\<lambda>wt. wrap_err (''checkout '' @ go_quote ref) (wt_Checkout g wt hash)))))"

subsection \<open>The checkout harness\<close>

text \<open>\<open>CloneFunc\<close>, without its context: directory, url, ref and credentials.\<close>

type_synonym CloneFunc = "string \<Rightarrow> string \<Rightarrow> string \<Rightarrow> GitAuth option \<Rightarrow> unit eio"

definition resolveSubPath :: "git_lib \<Rightarrow> string \<Rightarrow> string \<Rightarrow> string eio" where
  "resolveSubPath g root sub =
     (if sub = [] then give root
      else wrap_err (''resolve sub-path '' @ go_quote sub) (SecureJoin g root sub))"

text \<open>A nil \<open>CloneFunc\<close> is the real clone.\<close>

definition clone_or_default :: "os_lib \<Rightarrow> git_lib \<Rightarrow> CloneFunc option \<Rightarrow> CloneFunc" where
  "clone_or_default os g clone = (case clone of None \<Rightarrow> gitClone os g | Some f \<Rightarrow> f)"

definition withCheckout ::
    "os_lib \<Rightarrow> git_lib \<Rightarrow> string \<Rightarrow> string \<Rightarrow> string \<Rightarrow> GitAuth option \<Rightarrow> CloneFunc option
     \<Rightarrow> (string \<Rightarrow> 'a eio) \<Rightarrow> 'a eio" where
  "withCheckout os g url ref path auth clone fn =
     (let clone' = clone_or_default os g clone in
      try_bind (wrap_err ''create temp dir'' (os_MkdirTemp os [] ''kube-drift-git-''))
        (\<lambda>dir. defer_cleanup (os_RemoveAll os dir) (''cleanup checkout '' @ dir)
          (try_bind (wrap_err (''clone '' @ url)
                       (entering (CallClone dir url ref auth) (clone' dir url ref auth)))
            (\<lambda>_. try_bind (resolveSubPath g dir path) fn))))"

record GitSource =
  gs_url :: string
  gs_ref :: string
  gs_path :: string
  gs_auth :: "GitAuth option"
  gs_clone :: "CloneFunc option"

text \<open>\<open>NewGitSource\<close> replaces a nil clone function by the real one.\<close>

definition NewGitSource ::
    "os_lib \<Rightarrow> git_lib \<Rightarrow> string \<Rightarrow> string \<Rightarrow> string \<Rightarrow> GitAuth option \<Rightarrow> CloneFunc option
     \<Rightarrow> GitSource" where
  "NewGitSource os g url ref path auth clone =
     \<lparr>gs_url = url, gs_ref = ref, gs_path = path, gs_auth = auth,
      gs_clone = Some (clone_or_default os g clone)\<rparr>"

definition GitSource_Load :: "os_lib \<Rightarrow> git_lib \<Rightarrow> kd_lib \<Rightarrow> GitSource \<Rightarrow> Resource list eio" where
  "GitSource_Load os g kd s =
     withCheckout os g (gs_url s) (gs_ref s) (gs_path s) (gs_auth s) (gs_clone s)
       (\<lambda>loadPath. FileSource_Load kd loadPath)"

subsection \<open>Which calls are made\<close>

lemma adds_only_knownHostsCallback [quiet]: "adds_only source_call (knownHostsCallback os g kh)"
  unfolding knownHostsCallback_def by (intro quiet)

lemma adds_only_authMethod [quiet]: "adds_only source_call (authMethod os g auth)"
  unfolding authMethod_def Let_def by (intro quiet)

lemma adds_only_resolve_loop [quiet]: "adds_only source_call (resolve_loop g repo rvs e)"
proof (induction rvs arbitrary: e)
  case Nil
  show ?case
    by (rule adds_onlyI) simp
next
  case (Cons rv rvs)
  show ?case
  proof (rule adds_onlyI)
    fix h
    obtain r h1 where r: "repo_ResolveRevision g repo rv h = (r, h1)"
      by fastforce
    then obtain t where t: "h1 = h @ t" "list_all source_call t"
      by (rule adds_only_snd [OF adds_only_libraries(10)])
    show "\<exists>t. snd (resolve_loop g repo (rv # rvs) e h) = h @ t \<and> list_all source_call t"
    proof (cases r)
      case (Inl err)
      obtain u where "snd (resolve_loop g repo rvs err h1) = h1 @ u" "list_all source_call u"
        using Cons.IH by (rule adds_onlyE)
      then show ?thesis
        using r t Inl by (intro exI [of _ "t @ u"]) simp
    qed (use r t in simp)
  qed
qed

lemma adds_only_resolveRevision [quiet]: "adds_only source_call (resolveRevision g repo ref)"
  by (simp add: resolveRevision_def adds_only_resolve_loop)

lemma adds_only_gitClone [quiet]: "adds_only source_call (gitClone os g dir url ref auth)"
  unfolding gitClone_def by (intro quiet)

lemma adds_only_resolveSubPath [quiet]: "adds_only source_call (resolveSubPath g root sub)"
  unfolding resolveSubPath_def by (intro quiet)

text \<open>
  The contract of a \<open>CloneFunc\<close>, the seam through which tests replace the clone: it makes no call
  outside those that load manifests.
\<close>

locale clone_func =
  fixes clone :: CloneFunc
  assumes clone_calls: "adds_only source_call (clone dir url ref auth)"
begin

lemma withCheckout_calls:
  assumes "\<And>p. adds_only source_call (fn p)"
  shows "adds_only source_call (withCheckout os g url ref path auth (Some clone) fn)"
  unfolding withCheckout_def clone_or_default_def Let_def option.case
  by (intro quiet assms clone_calls) simp

end

interpretation real_clone: clone_func "gitClone os g" for os g
  by unfold_locales (rule adds_only_gitClone)

text \<open>
  The contract of kube-diff's \<open>source.Source\<close> as the controller relies on it: loading manifests
  touches neither the status nor the metrics, events or webhooks.
\<close>

locale manifest_source =
  fixes load :: "Resource list eio"
  assumes load_calls: "adds_only source_call load"

sublocale clone_func \<subseteq> git_source: manifest_source
    "GitSource_Load os g kd \<lparr>gs_url = url, gs_ref = ref, gs_path = path, gs_auth = auth,
       gs_clone = Some clone\<rparr>" for os g kd url ref path auth
  by unfold_locales (simp add: GitSource_Load_def withCheckout_calls adds_only_libraries)

lemma withCheckout_nil:
  "withCheckout os g url ref path auth None fn =
   withCheckout os g url ref path auth (Some (gitClone os g)) fn"
  by (simp add: withCheckout_def clone_or_default_def)

subsection \<open>Temporary directories and files\<close>

lemma try_bind_Inl: "m h = (Inl e, h1) \<Longrightarrow> try_bind m k h = (Inl e, h1)"
  by (simp add: try_bind_def)

lemma try_bind_Inr: "m h = (Inr x, h1) \<Longrightarrow> try_bind m k h = k x h1"
  by (simp add: try_bind_def)

text \<open>
  One contract for the program's temporary resources: an operation that fails to acquire its
  resource makes no further call, and one that acquired it ends with the release.
\<close>

locale temp_resource =
  fixes acquire :: "string eio" and release :: "string \<Rightarrow> unit eio" and operation :: "'a eio"
  assumes not_acquired:
      "acquire h = (Inl e, h1) \<Longrightarrow> \<exists>e'. operation h = (Inl e', h1) \<and> root_cause e' = root_cause e"
    and released_last:
      "acquire h = (Inr d, h1) \<Longrightarrow> \<exists>h2. snd (operation h) = snd (release d h2)"
begin

text \<open>When the release is one call, that call is the last of the operation.\<close>

lemma last_call_releases:
  assumes "acquire h = (Inr d, h1)" "\<And>h. snd (release d h) = h @ [c]"
  shows "last (snd (operation h)) = c"
proof -
  obtain h2 where "snd (operation h) = snd (release d h2)"
    using released_last [OF assms(1)] by blast
  then show ?thesis
    by (simp add: assms(2))
qed

end

interpretation checkout_dir: temp_resource "os_MkdirTemp os [] ''kube-drift-git-''"
    "os_RemoveAll os" "withCheckout os g url ref path auth clone fn"
  for os g url ref path auth clone and fn :: "string \<Rightarrow> 'a eio"
proof unfold_locales
  fix h e h1
  assume "os_MkdirTemp os [] ''kube-drift-git-'' h = (Inl e, h1)"
  then show "\<exists>e'. withCheckout os g url ref path auth clone fn h = (Inl e', h1)
      \<and> root_cause e' = root_cause e"
    by (simp add: withCheckout_def try_bind_def wrap_err_def)
next
  fix h d h1
  assume "os_MkdirTemp os [] ''kube-drift-git-'' h = (Inr d, h1)"
  then show "\<exists>h2. snd (withCheckout os g url ref path auth clone fn h)
      = snd (os_RemoveAll os d h2)"
    by (auto simp: withCheckout_def try_bind_def wrap_err_def Let_def defer_cleanup_history)
qed

interpretation known_hosts_file: temp_resource "os_CreateTemp os [] ''kube-drift-known-hosts-''"
    "os_Remove os" "knownHostsCallback os g (b # kh)"
  for os g b kh
proof unfold_locales
  fix h e h1
  assume "os_CreateTemp os [] ''kube-drift-known-hosts-'' h = (Inl e, h1)"
  then show "\<exists>e'. knownHostsCallback os g (b # kh) h = (Inl e', h1)
      \<and> root_cause e' = root_cause e"
    by (simp add: knownHostsCallback_def try_bind_def wrap_err_def)
next
  fix h d h1
  assume "os_CreateTemp os [] ''kube-drift-known-hosts-'' h = (Inr d, h1)"
  then show "\<exists>h2. snd (knownHostsCallback os g (b # kh) h) = snd (os_Remove os d h2)"
    by (auto simp: knownHostsCallback_def try_bind_def [of "wrap_err ''create known_hosts temp file'' _"]
        wrap_err_def [of "''create known_hosts temp file''"] defer_ignore_history)
qed

subsection \<open>Properties\<close>

text \<open>
  C31: The checkout is temporary on every path: once \<open>withCheckout\<close> has created its directory, whatever
  the clone, the sub-path or the loader answer, its last call removes that directory.
\<close>

theorem withCheckout_removes_checkout:
  assumes "os_MkdirTemp os [] ''kube-drift-git-'' h = (Inr d, h1)"
  shows "last (snd (withCheckout os g url ref path auth clone fn h)) = CallRemoveAll d"
  by (rule checkout_dir.last_call_releases [OF assms]) (simp add: os_RemoveAll_def outside_def)

theorem withCheckout_removes_checkout_witness:
  "last (snd (withCheckout ex_os ex_git ''u'' ''main'' [] None None (\<lambda>p. fail (LibErr p)) []))
     = CallRemoveAll ''/tmp/kube-drift-git-1''"
  by (rule withCheckout_removes_checkout)
    (simp add: os_MkdirTemp_def outside_def ex_os_def)

text \<open>
  \<open>withCheckout\<close> returns the loader's value exactly when every stage succeeded in its order: the
  directory, the clone into it, the sub-path, the loader on that path, and the removal.
\<close>

theorem withCheckout_success:
  "withCheckout os g url ref path auth clone fn h = (Inr x, h') \<longleftrightarrow>
     (\<exists>d h1 h2 p h3 h4.
        os_MkdirTemp os [] ''kube-drift-git-'' h = (Inr d, h1)
        \<and> clone_or_default os g clone d url ref auth (h1 @ [CallClone d url ref auth]) = (Inr (), h2)
        \<and> resolveSubPath g d path h2 = (Inr p, h3)
        \<and> fn p h3 = (Inr x, h4)
        \<and> os_RemoveAll os d h4 = (Inr (), h'))"
  by (auto simp: withCheckout_def io_defs Let_def split: prod.splits sum.splits)

text \<open>
  The failure that is reported is the first one: a clone error is returned as \<open>clone <url>\<close> around
  it, whatever the removal of the directory answers afterwards.
\<close>

lemma withCheckout_clone_error:
  assumes "os_MkdirTemp os [] ''kube-drift-git-'' h = (Inr d, h1)"
    and "clone_or_default os g clone d url ref auth (h1 @ [CallClone d url ref auth]) = (Inl e, h2)"
  shows "withCheckout os g url ref path auth clone fn h
     = (Inl (Wrapf (''clone '' @ url) e), h2 @ [CallRemoveAll d])"
  using assms by (simp add: withCheckout_def io_defs Let_def os_RemoveAll_def)

text \<open>
  The loader sees only paths inside the checkout. If \<open>SecureJoin\<close> answers only paths inside its
  root, two loaders that agree on the paths inside the checkout cannot be told apart, so nothing
  outside it is ever handed to a loader.
\<close>

theorem withCheckout_confined:
  assumes "\<And>h root sub p. gl_SecureJoin g h root sub = Inr p \<Longrightarrow> inside root p"
    and "\<And>root. inside root root"
    and "\<And>d p. osl_MkdirTemp os h [] ''kube-drift-git-'' = Inr d \<Longrightarrow> inside d p \<Longrightarrow> fn p = fn' p"
  shows "withCheckout os g url ref path auth clone fn h
     = withCheckout os g url ref path auth clone fn' h"
proof (cases "osl_MkdirTemp os h [] ''kube-drift-git-''")
  case (Inl e)
  then show ?thesis
    by (simp add: withCheckout_def os_MkdirTemp_def io_defs Let_def)
next
  case (Inr d)
  have "try_bind (resolveSubPath g d path) fn = try_bind (resolveSubPath g d path) fn'"
  proof (rule ext)
    fix k
    show "try_bind (resolveSubPath g d path) fn k = try_bind (resolveSubPath g d path) fn' k"
      using assms(1) assms(2) assms(3) [OF Inr]
      by (auto simp: resolveSubPath_def SecureJoin_def io_defs split: sum.splits)
  qed
  then show ?thesis
    using Inr by (simp add: withCheckout_def os_MkdirTemp_def outside_def wrap_err_def
        try_bind_def [of "wrap_err ''create temp dir'' _"] Let_def)
qed

theorem withCheckout_confined_witness:
  "withCheckout ex_os ex_git ''u'' [] ''sub'' None None (\<lambda>p. give p) []
     = withCheckout ex_os ex_git ''u'' [] ''sub'' None None
         (\<lambda>p. if HasPrefix p ''/tmp/kube-drift-git-1'' then give p else fail (LibErr ''outside'')) []"
  by (rule withCheckout_confined [where inside = "\<lambda>root p. HasPrefix p root"])
    (auto simp: ex_git_def ex_os_def HasPrefix_iff)

text \<open>
  A ref names a revision of the repository or else a remote branch: the answer for the ref itself
  is taken when there is one, \<open>origin/<ref>\<close> is asked only after that failed, and the error of the
  second lookup is the one reported.
\<close>

lemma resolveRevision_fallback:
  "resolveRevision g repo ref h =
     (let h1 = h @ [CallResolveRevision repo ref] in
      case gl_ResolveRevision g h repo ref of
        Inr hash \<Rightarrow> (Inr hash, h1)
      | Inl _ \<Rightarrow> (gl_ResolveRevision g h1 repo (''origin/'' @ ref),
                  h1 @ [CallResolveRevision repo (''origin/'' @ ref)]))"
  by (simp add: resolveRevision_def repo_ResolveRevision_def outside_def Let_def
      split: sum.split)

text \<open>
  A successful clone of a ref ends with the checkout of the commit that the ref resolves to, in a
  repository cloned with the method the credentials give.
\<close>

theorem gitClone_checks_out:
  assumes "gitClone os g dir url ref auth h = (Inr (), h')" "ref \<noteq> []"
  shows "\<exists>am h1 repo h2 hash h3 wt h4.
           authMethod os g auth h = (Inr am, h1)
           \<and> git_PlainClone g dir url am h1 = (Inr repo, h2)
           \<and> resolveRevision g repo ref h2 = (Inr hash, h3)
           \<and> h4 = h3 @ [CallWorktree repo] \<and> gl_Worktree g h3 repo = Inr wt
           \<and> gl_Checkout g h4 wt hash = Inr () \<and> h' = h4 @ [CallCheckout wt hash]"
  using assms
  by (auto simp: gitClone_def io_defs repo_Worktree_def wt_Checkout_def
      split: prod.splits sum.splits)

theorem gitClone_checks_out_witness:
  "\<exists>wt hash h4. snd (gitClone ex_os ex_git ''d'' ''u'' ''main'' None []) = h4 @ [CallCheckout wt hash]"
proof -
  have ok: "gitClone ex_os ex_git ''d'' ''u'' ''main'' None []
      = (Inr (), snd (gitClone ex_os ex_git ''d'' ''u'' ''main'' None []))"
    by (simp add: gitClone_def authMethod_def io_defs git_PlainClone_def resolveRevision_def
        repo_ResolveRevision_def repo_Worktree_def wt_Checkout_def ex_git_def)
  show ?thesis
    using gitClone_checks_out [OF ok] by blast
qed

lemma knownHostsCallback_parses:
  assumes "knownHostsCallback os g kh h = (Inr cb, h')"
  shows "kh \<noteq> [] \<and> (\<exists>f h0. gl_KnownHostsNew g h0 f = Inr cb \<and> CallWrite f kh \<in> set h0)"
proof (cases "kh = []")
  case True
  then show ?thesis
    using assms by (simp add: knownHostsCallback_def fail_def)
next
  case False
  then obtain f h1 h2 h3 u where "os_Write os f kh h1 = (Inr (), h2)" "os_Close os f h2 = (Inr u, h3)"
    "gl_KnownHostsNew g h3 f = Inr cb"
    using assms
    by (auto simp: knownHostsCallback_def io_iffs knownhosts_New_def outside_iff)
  moreover from this have "CallWrite f kh \<in> set h3"
    by (auto simp: os_Write_def os_Close_def outside_iff)
  ultimately show ?thesis
    using False by blast
qed

text \<open>
  C29: SSH host keys are always verified. A public-key method exists only for SSH credentials with a
  \<open>known_hosts\<close>; it carries a host-key callback, parsed from a file the very bytes were written to.
\<close>

theorem authMethod_ssh_verifies:
  assumes "authMethod os g auth h = (Inr (Some (PublicKeysMethod pk)), h')"
  shows "\<exists>a s cb f h0.
           auth = Some a \<and> ga_ssh a = Some s \<and> ssh_knownHosts s \<noteq> []
           \<and> pk_hostKeyCallback pk = Some cb \<and> gl_KnownHostsNew g h0 f = Inr cb
           \<and> CallWrite f (ssh_knownHosts s) \<in> set h0"
proof -
  obtain a s pk0 cb h1 where a: "auth = Some a" "ga_ssh a = Some s"
    and cb: "knownHostsCallback os g (ssh_knownHosts s) h1 = (Inr cb, h')"
    and pk: "pk = pk0\<lparr>pk_hostKeyCallback := Some cb\<rparr>"
    using assms
    by (auto simp: authMethod_def io_iffs Let_def split: option.splits if_splits)
  show ?thesis
    using knownHostsCallback_parses [OF cb] a pk by auto
qed

theorem authMethod_ssh_verifies_witness:
  "\<exists>cb f h0. gl_KnownHostsNew ex_git h0 f = Inr cb \<and> CallWrite f ''hosts'' \<in> set h0"
proof -
  let ?s = "\<lparr>ssh_user = [], ssh_privateKey = ''key'', ssh_passphrase = [], ssh_knownHosts = ''hosts''\<rparr>"
  let ?run = "authMethod ex_os ex_git (Some (GitAuth_zero\<lparr>ga_ssh := Some ?s\<rparr>)) []"
  have "fst ?run = Inr (Some (PublicKeysMethod
      \<lparr>pk_user = ''git'', pk_signer = ''key'',
       pk_hostKeyCallback = Some (\<lambda>host key. host = ''github.com'')\<rparr>))"
    by (simp add: authMethod_def knownHostsCallback_def io_defs ssh_NewPublicKeys_def
        os_CreateTemp_def os_Write_def os_Close_def os_Remove_def knownhosts_New_def Let_def
        GitAuth_zero_def ex_git_def ex_os_def)
  then have "?run = (Inr (Some (PublicKeysMethod
      \<lparr>pk_user = ''git'', pk_signer = ''key'',
       pk_hostKeyCallback = Some (\<lambda>host key. host = ''github.com'')\<rparr>)), snd ?run)"
    by (metis prod.collapse)
  from authMethod_ssh_verifies [OF this] show ?thesis
    by (auto simp: GitAuth_zero_def)
qed

text \<open>
  The temporary \<open>known_hosts\<close> file is removed on every path: once it is created, its removal is the
  last call, whether writing, closing or parsing it succeeded.
\<close>

lemma knownHosts_file_removed:
  assumes "os_CreateTemp os [] ''kube-drift-known-hosts-'' h = (Inr f, h1)" "kh \<noteq> []"
  shows "last (snd (knownHostsCallback os g kh h)) = CallRemove f"
proof -
  obtain b bs where "kh = b # bs"
    using assms(2) by (cases kh) auto
  then show ?thesis
    using known_hosts_file.last_call_releases [OF assms(1)]
    by (simp add: os_Remove_def outside_def)
qed

end
