(* ===== verification/Helm_Source.thy ===== *)
theory Helm_Source
  imports Helm_Values Git_Source
begin

text \<open>
  \<open>internal/source/helm.go\<close> and \<open>kustomize.go\<close>: rendering a chart or an overlay in a checkout. The
  Helm and Kustomize SDKs are parameters; what the repository adds around them (the order in which
  values are merged, which rendered files and manifests are kept, the dependency build that
  cancellation or a panic can end) is modelled step by step.
\<close>

subsection \<open>Rendering a chart\<close>

text \<open>The loop over \<open>valuesFiles\<close>: each file is read inside the chart directory and merged.\<close>

fun merge_values_files ::
    "os_lib \<Rightarrow> git_lib \<Rightarrow> helm_lib \<Rightarrow> string \<Rightarrow> string list \<Rightarrow> vmap \<Rightarrow> vmap eio" where
  "merge_values_files os g hl chartDir [] vals = give vals"
| "merge_values_files os g hl chartDir (vf # vfs) vals =
     try_bind (wrap_err (''resolve values file '' @ go_quote vf) (SecureJoin g chartDir vf))
       (\<lambda>p. try_bind (wrap_err (''read values file '' @ go_quote vf) (os_ReadFile os p))
         (\<lambda>b. try_bind (wrap_err (''parse values file '' @ go_quote vf) (pure (hl_ReadValues hl b)))
           (\<lambda>m. merge_values_files os g hl chartDir vfs (mergeValues vals m))))"

definition merge_inline_values :: "helm_lib \<Rightarrow> bytes \<Rightarrow> vmap \<Rightarrow> vmap eio" where
  "merge_inline_values hl inline vals =
     (if length inline > 0 then
        try_bind (wrap_err ''parse inline values'' (pure (hl_ReadValues hl inline)))
          (\<lambda>m. give (mergeValues vals m))
      else give vals)"

definition manifest_separator :: bytes where
  "manifest_separator = char_of (10::nat) # ''---'' @ [char_of (10::nat)]"

text \<open>The documents kept of the rendered output: the chart's CRDs, then its manifests.\<close>

definition render_docs :: "bytes list \<Rightarrow> string list \<Rightarrow> bytes list" where
  "render_docs crds manifests =
     filter (\<lambda>d. length (TrimSpace d) > 0) crds @ filter (\<lambda>m. TrimSpace m \<noteq> []) manifests"

definition renderHelmChart ::
    "os_lib \<Rightarrow> git_lib \<Rightarrow> helm_lib \<Rightarrow> string \<Rightarrow> string \<Rightarrow> string \<Rightarrow> bytes \<Rightarrow> string list
     \<Rightarrow> bytes eio" where
  "renderHelmChart os g hl chartDir releaseName namespace inline valuesFiles =
     try_bind (wrap_err (''load chart '' @ chartDir) (helm_LoadChart hl chartDir))
       (\<lambda>ch. try_bind (merge_values_files os g hl chartDir valuesFiles [])
       (\<lambda>fvals. try_bind (merge_inline_values hl inline fvals)
       (\<lambda>vals. try_bind (wrap_err ''process chart dependencies''
                         (pure (hl_ProcessDependencies hl ch vals)))
       (\<lambda>(ch', vals'). try_bind (wrap_err ''build render values''
                         (pure (hl_ToRenderValues hl ch' vals' releaseName namespace)))
       (\<lambda>renderVals. try_bind (wrap_err ''render chart'' (helm_Render hl ch' renderVals))
       (\<lambda>files.
          (let rendered = filter (\<lambda>(k, v). \<not> HasSuffix k ''NOTES.txt'') files in
           try_bind (wrap_err ''sort rendered manifests'' (pure (hl_SortManifests hl rendered)))
             (\<lambda>(hooks, manifests).
                give (bytes_Join (render_docs (hl_CRDObjects hl ch') manifests)
                        manifest_separator)))))))))"

subsection \<open>Building dependencies\<close>

text \<open>The calls between creating and removing the temporary repository directory.\<close>

definition build_in_dir :: "helm_lib \<Rightarrow> Chart \<Rightarrow> string \<Rightarrow> string \<Rightarrow> build_outcome io" where
  "build_in_dir hl ch chartDir repoDir h =
     (let repoConfig = hl_FilepathJoin hl repoDir ''repositories.yaml'' in
      case try_bind (wrap_err ''write helm repo config''
                       (helm_WriteRepoFile hl repoConfig (dependencyRepoFile (ch_dependencies ch))))
             (\<lambda>_. wrap_err ''create helm registry client''
                   (helm_RegistryClient hl (hl_FilepathJoin hl repoDir ''registry.json''))) h of
        (Inl e, h1) \<Rightarrow> (Returned (Inl e), h1)
      | (Inr _, h1) \<Rightarrow>
          (case helm_ManagerUpdate hl chartDir repoConfig h1 of
             (Returned (Inl e), h2) \<Rightarrow> (Returned (Inl (Wrapf ''build chart dependencies'' e)), h2)
           | (out, h2) \<Rightarrow> (out, h2)))"

definition buildDependencies :: "os_lib \<Rightarrow> helm_lib \<Rightarrow> string \<Rightarrow> build_outcome io" where
  "buildDependencies os hl chartDir h =
     (case wrap_err (''load chart '' @ chartDir) (helm_LoadChart hl chartDir) h of
        (Inl e, h1) \<Rightarrow> (Returned (Inl e), h1)
      | (Inr ch, h1) \<Rightarrow>
          (case wrap_err ''create helm repo temp dir''
                  (os_MkdirTemp os [] ''kube-drift-helm-repo-'') h1 of
             (Inl e, h2) \<Rightarrow> (Returned (Inl e), h2)
           | (Inr repoDir, h2) \<Rightarrow>
               (case build_in_dir hl ch chartDir repoDir h2 of
                  (out, h3) \<Rightarrow>
                    (case os_RemoveAll os repoDir h3 of
                       (cr, h4) \<Rightarrow>
                         (case (out, cr) of
                            (Returned (Inr _), Inl e) \<Rightarrow>
                              (Returned (Inl (Wrapf (''cleanup helm repo temp dir '' @ repoDir) e)), h4)
                          | _ \<Rightarrow> (out, h4))))))"

text \<open>
  What the goroutine of \<open>runBuildDeps\<close> sends on its channel: the build's error, or the recovered
  panic as an error.
\<close>

fun goroutine_result :: "build_outcome \<Rightarrow> error + unit" where
  "goroutine_result (Returned r) = r"
| "goroutine_result (Panicked p) = Inl (Errorf (''helm dependency build panicked: '' @ p))"

text \<open>
  \<open>select\<close> receives the context's cancellation or the result of the build. A cancelled build goes
  on in the background; its later calls are not part of this computation.
\<close>

definition runBuildDeps :: "helm_lib \<Rightarrow> (string \<Rightarrow> build_outcome io) \<Rightarrow> string \<Rightarrow> unit eio" where
  "runBuildDeps hl build chartDir h =
     (case outside CallSelectDone (hl_CtxDone hl) h of
        (Some ctxErr, h1) \<Rightarrow> (Inl (Wrapf ''helm dependency build canceled'' ctxErr), h1)
      | (None, h1) \<Rightarrow>
          (case build chartDir h1 of (out, h2) \<Rightarrow> (goroutine_result out, h2)))"

record HelmSource =
  hs_url :: string
  hs_ref :: string
  hs_path :: string
  hs_releaseName :: string
  hs_namespace :: string
  hs_values :: bytes
  hs_valuesFiles :: "string list"
  hs_dependencyBuild :: bool
  hs_auth :: "GitAuth option"
  hs_buildDeps :: "(string \<Rightarrow> build_outcome io) option"
  hs_clone :: "CloneFunc option"

definition NewHelmSource ::
    "string \<Rightarrow> string \<Rightarrow> string \<Rightarrow> string \<Rightarrow> string \<Rightarrow> bytes \<Rightarrow> string list \<Rightarrow> bool
     \<Rightarrow> GitAuth option \<Rightarrow> CloneFunc option \<Rightarrow> HelmSource" where
  "NewHelmSource url ref path releaseName namespace values' valuesFiles dependencyBuild auth clone =
     \<lparr>hs_url = url, hs_ref = ref, hs_path = path, hs_releaseName = releaseName,
      hs_namespace = namespace, hs_values = values', hs_valuesFiles = valuesFiles,
      hs_dependencyBuild = dependencyBuild, hs_auth = auth, hs_buildDeps = None,
      hs_clone = clone\<rparr>"

definition HelmSource_Load ::
    "os_lib \<Rightarrow> git_lib \<Rightarrow> kd_lib \<Rightarrow> helm_lib \<Rightarrow> HelmSource \<Rightarrow> Resource list eio" where
  "HelmSource_Load os g kd hl s =
     (let build = (case hs_buildDeps s of None \<Rightarrow> buildDependencies os hl | Some b \<Rightarrow> b) in
      withCheckout os g (hs_url s) (hs_ref s) (hs_path s) (hs_auth s) (hs_clone s)
        (\<lambda>chartDir.
           try_bind (if hs_dependencyBuild s then runBuildDeps hl build chartDir else give ())
             (\<lambda>_. try_bind (renderHelmChart os g hl chartDir (hs_releaseName s) (hs_namespace s)
                              (hs_values s) (hs_valuesFiles s))
               (\<lambda>manifests. BytesSource_Load kd manifests))))"

subsection \<open>Kustomize\<close>

definition renderKustomize :: "kust_lib \<Rightarrow> string \<Rightarrow> bytes eio" where
  "renderKustomize ku dir =
     try_bind (wrap_err (''kustomize build '' @ dir) (krusty_Run ku dir))
       (\<lambda>resMap. wrap_err ''render kustomize output'' (pure (ku_AsYaml ku resMap)))"

record KustomizeSource =
  ks_url :: string
  ks_ref :: string
  ks_path :: string
  ks_auth :: "GitAuth option"
  ks_clone :: "CloneFunc option"

definition NewKustomizeSource ::
    "string \<Rightarrow> string \<Rightarrow> string \<Rightarrow> GitAuth option \<Rightarrow> CloneFunc option \<Rightarrow> KustomizeSource" where
  "NewKustomizeSource url ref path auth clone =
     \<lparr>ks_url = url, ks_ref = ref, ks_path = path, ks_auth = auth, ks_clone = clone\<rparr>"

definition KustomizeSource_Load ::
    "os_lib \<Rightarrow> git_lib \<Rightarrow> kd_lib \<Rightarrow> kust_lib \<Rightarrow> KustomizeSource \<Rightarrow> Resource list eio" where
  "KustomizeSource_Load os g kd ku s =
     withCheckout os g (ks_url s) (ks_ref s) (ks_path s) (ks_auth s) (ks_clone s)
       (\<lambda>dir. try_bind (renderKustomize ku dir) (\<lambda>manifests. BytesSource_Load kd manifests))"

subsection \<open>Which calls are made\<close>

lemma adds_only_merge_values_files [quiet]:
  "adds_only source_call (merge_values_files os g hl d vfs vals)"
  by (induction vfs arbitrary: vals) (auto intro!: quiet)

lemma adds_only_merge_inline_values [quiet]:
  "adds_only source_call (merge_inline_values hl inline vals)"
  unfolding merge_inline_values_def by (intro quiet)

lemma adds_only_case_prod [quiet]:
  "(\<And>x y. adds_only P (k x y)) \<Longrightarrow> adds_only P (case z of (x, y) \<Rightarrow> k x y)"
  by (cases z) simp

lemma adds_only_renderHelmChart [quiet]:
  "adds_only source_call (renderHelmChart os g hl d rn ns inline vfs)"
  unfolding renderHelmChart_def Let_def by (intro quiet)

lemma adds_only_build_in_dir [quiet]: "adds_only source_call (build_in_dir hl ch d rd)"
proof (rule adds_onlyI)
  fix h
  let ?c = "hl_FilepathJoin hl rd ''repositories.yaml''"
  let ?w = "try_bind (wrap_err ''write helm repo config''
               (helm_WriteRepoFile hl ?c (dependencyRepoFile (ch_dependencies ch))))
             (\<lambda>_. wrap_err ''create helm registry client''
                   (helm_RegistryClient hl (hl_FilepathJoin hl rd ''registry.json'')))"
  have w: "adds_only source_call ?w"
    by (intro quiet)
  obtain r h1 where r: "?w h = (r, h1)"
    by (cases "?w h")
  obtain out h2 where m: "helm_ManagerUpdate hl d ?c h1 = (out, h2)"
    by (cases "helm_ManagerUpdate hl d ?c h1")
  show "\<exists>t. snd (build_in_dir hl ch d rd h) = h @ t \<and> list_all source_call t"
  proof (cases r)
    case (Inl e)
    then show ?thesis
      using r w by (auto simp: build_in_dir_def Let_def elim: adds_only_snd)
  next
    case (Inr u)
    have "snd (build_in_dir hl ch d rd h) = h2"
      using Inr r m by (simp add: build_in_dir_def Let_def split: build_outcome.split sum.split)
    then show ?thesis
      using adds_only_seq [OF w, where k = "\<lambda>_. helm_ManagerUpdate hl d ?c" and h = h] r m
      by (simp add: adds_only_libraries)
  qed
qed

lemma adds_only_buildDependencies [quiet]:
  "adds_only source_call (buildDependencies os hl chartDir)"
proof (rule adds_onlyI)
  fix h
  let ?l = "wrap_err (''load chart '' @ chartDir) (helm_LoadChart hl chartDir)"
  let ?m = "wrap_err ''create helm repo temp dir'' (os_MkdirTemp os [] ''kube-drift-helm-repo-'')"
  have q: "adds_only source_call ?l" "adds_only source_call ?m"
    by (intro quiet)+
  obtain r h1 where r: "?l h = (r, h1)"
    by (cases "?l h")
  obtain t1 where t1: "h1 = h @ t1" "list_all source_call t1"
    using q(1) r by (rule adds_only_snd)
  show "\<exists>t. snd (buildDependencies os hl chartDir h) = h @ t \<and> list_all source_call t"
  proof (cases r)
    case (Inl e)
    then show ?thesis
      using r t1 by (simp add: buildDependencies_def)
  next
    case (Inr ch)
    obtain d h2 where d: "?m h1 = (d, h2)"
      by (cases "?m h1")
    obtain t2 where t2: "h2 = h1 @ t2" "list_all source_call t2"
      using q(2) d by (rule adds_only_snd)
    show ?thesis
    proof (cases d)
      case (Inl e)
      then show ?thesis
        using r Inr d t1 t2 by (simp add: buildDependencies_def)
    next
      case (Inr repoDir)
      have "snd (buildDependencies os hl chartDir h)
          = snd (os_RemoveAll os repoDir (snd (build_in_dir hl ch chartDir repoDir h2)))"
        using r \<open>r = Inr ch\<close> d Inr
        by (simp add: buildDependencies_def split: prod.split build_outcome.split sum.split)
      moreover have "\<exists>t. snd (os_RemoveAll os repoDir (snd (build_in_dir hl ch chartDir repoDir h2)))
          = h2 @ t \<and> list_all source_call t"
        by (rule adds_only_seq [where k = "\<lambda>_. os_RemoveAll os repoDir"]) (intro quiet)+
      ultimately show ?thesis
        using t1 t2 by auto
    qed
  qed
qed

lemma adds_only_runBuildDeps:
  assumes "\<And>d. adds_only source_call (build d)"
  shows "adds_only source_call (runBuildDeps hl build chartDir)"
proof (rule adds_onlyI)
  fix h
  obtain t where "snd (build chartDir (h @ [CallSelectDone])) = (h @ [CallSelectDone]) @ t"
      "list_all source_call t"
    using assms by (rule adds_onlyE)
  then show "\<exists>t. snd (runBuildDeps hl build chartDir h) = h @ t \<and> list_all source_call t"
    by (auto simp: runBuildDeps_def outside_def split: option.split prod.split)
qed

lemma adds_only_renderKustomize [quiet]: "adds_only source_call (renderKustomize ku dir)"
  unfolding renderKustomize_def by (intro quiet)

lemma HelmSource_Load_body:
  "HelmSource_Load os g kd hl s =
     withCheckout os g (hs_url s) (hs_ref s) (hs_path s) (hs_auth s) (hs_clone s)
        (\<lambda>chartDir.
           try_bind (if hs_dependencyBuild s
                     then runBuildDeps hl
                       (case hs_buildDeps s of None \<Rightarrow> buildDependencies os hl | Some b \<Rightarrow> b) chartDir
                     else give ())
             (\<lambda>_. try_bind (renderHelmChart os g hl chartDir (hs_releaseName s) (hs_namespace s)
                              (hs_values s) (hs_valuesFiles s))
               (\<lambda>manifests. BytesSource_Load kd manifests)))"
  by (simp add: HelmSource_Load_def Let_def)

interpretation helm_repo_dir: temp_resource
    "try_bind (helm_LoadChart hl chartDir) (\<lambda>_. os_MkdirTemp os [] ''kube-drift-helm-repo-'')"
    "os_RemoveAll os"
    "\<lambda>h. case buildDependencies os hl chartDir h of (out, h') \<Rightarrow> (goroutine_result out, h')"
  for os hl chartDir
proof unfold_locales
  fix h e h1
  assume "try_bind (helm_LoadChart hl chartDir)
      (\<lambda>_. os_MkdirTemp os [] ''kube-drift-helm-repo-'') h = (Inl e, h1)"
  then show "\<exists>e'. (case buildDependencies os hl chartDir h of
        (out, h') \<Rightarrow> (goroutine_result out, h')) = (Inl e', h1) \<and> root_cause e' = root_cause e"
    by (auto simp: buildDependencies_def try_bind_def wrap_err_def split: prod.splits sum.splits)
next
  fix h d h1
  assume "try_bind (helm_LoadChart hl chartDir)
      (\<lambda>_. os_MkdirTemp os [] ''kube-drift-helm-repo-'') h = (Inr d, h1)"
  then show "\<exists>h2. snd (case buildDependencies os hl chartDir h of
        (out, h') \<Rightarrow> (goroutine_result out, h')) = snd (os_RemoveAll os d h2)"
    by (auto simp: buildDependencies_def try_bind_def wrap_err_def
        split: prod.splits sum.splits build_outcome.splits) (metis snd_conv)+
qed

subsection \<open>Properties\<close>

lemma merge_values_files_layers:
  "merge_values_files os g hl d vfs vals0 h = (Inr vals, h') \<Longrightarrow>
   \<exists>ms. length ms = length vfs \<and> (\<forall>m \<in> set ms. \<exists>b. hl_ReadValues hl b = Inr m)
     \<and> vals = foldl mergeValues vals0 ms"
proof (induction vfs arbitrary: vals0 h)
  case Nil
  then show ?case by (simp add: give_iff)
next
  case (Cons vf vfs)
  then obtain b m h1 where m: "hl_ReadValues hl b = Inr m"
    and rest: "merge_values_files os g hl d vfs (mergeValues vals0 m) h1 = (Inr vals, h')"
    by (auto simp: io_iffs pure_def)
  from Cons.IH [OF rest] obtain ms where "length ms = length vfs"
      "\<forall>m \<in> set ms. \<exists>b. hl_ReadValues hl b = Inr m"
      "vals = foldl mergeValues (mergeValues vals0 m) ms"
    by blast
  then show ?case
    using m by (intro exI [of _ "m # ms"]) auto
qed

text \<open>
  A chart is rendered with its values files merged in the order they are listed and the inline
  values merged on top as the last layer: no file can override them.
\<close>

theorem helm_values_layers:
  assumes "try_bind (merge_values_files os g hl chartDir vfs []) (merge_inline_values hl inline) h
      = (Inr vals, h')"
  shows "\<exists>ms. length ms = length vfs \<and> (\<forall>m \<in> set ms. \<exists>b. hl_ReadValues hl b = Inr m)
    \<and> (if inline = [] then vals = foldl mergeValues [] ms
       else \<exists>top. hl_ReadValues hl inline = Inr top \<and> vals = foldl mergeValues [] (ms @ [top]))"
proof -
  obtain fvals h1 where files: "merge_values_files os g hl chartDir vfs [] h = (Inr fvals, h1)"
    and inline: "merge_inline_values hl inline fvals h1 = (Inr vals, h')"
    using assms by (auto simp: try_bind_Inr_iff)
  obtain ms where "length ms = length vfs" "\<forall>m \<in> set ms. \<exists>b. hl_ReadValues hl b = Inr m"
      "fvals = foldl mergeValues [] ms"
    using merge_values_files_layers [OF files] by blast
  then show ?thesis
    using inline by (intro exI [of _ ms]) (auto simp: merge_inline_values_def io_iffs pure_def)
qed

theorem helm_values_layers_witness:
  "\<exists>ms. length ms = 1 \<and> (\<forall>m \<in> set ms. m = [(''a'', VNum ''1'')])
     \<and> [(''a'', VNum ''1'')] = foldl mergeValues [] (ms @ [[(''a'', VNum ''1'')]])"
proof -
  have "try_bind (merge_values_files ex_os ex_git ex_helm ''c'' [''v.yaml''] [])
      (merge_inline_values ex_helm ''a: 1'') []
    = (Inr [(''a'', VNum ''1'')], [CallSecureJoin ''c'' ''v.yaml'', CallReadFile ''c/v.yaml''])"
    by (simp add: io_defs SecureJoin_def os_ReadFile_def pure_def merge_inline_values_def
        mergeValues_Cons ex_os_def ex_git_def ex_helm_def)
  from helm_values_layers [OF this] show ?thesis
    by (simp add: ex_helm_def eq_commute [of "[(''a'', VNum ''1'')]"] cong: conj_cong)
qed

text \<open>
  A rendered chart is the join of its CRDs and of the manifests sorted out of the rendered files,
  in that order, without the notes, without the hooks and without any blank document.
\<close>

theorem renderHelmChart_documents:
  assumes "renderHelmChart os g hl chartDir releaseName namespace inline vfs h = (Inr out, h')"
  shows "\<exists>h0 ch vals files hooks manifests docs.
           hl_Render hl h0 ch vals = Inr files
           \<and> hl_SortManifests hl (filter (\<lambda>(k, v). \<not> HasSuffix k ''NOTES.txt'') files)
             = Inr (hooks, manifests)
           \<and> docs = filter (\<lambda>d. TrimSpace d \<noteq> []) (hl_CRDObjects hl ch @ manifests)
           \<and> out = bytes_Join docs manifest_separator"
proof -
  obtain ch vals h0 h1 files sorted where "helm_Render hl ch vals h0 = (Inr files, h1)"
    and "hl_SortManifests hl (filter (\<lambda>(k, v). \<not> HasSuffix k ''NOTES.txt'') files) = Inr sorted"
    and "out = bytes_Join (render_docs (hl_CRDObjects hl ch) (snd sorted)) manifest_separator"
    using assms
    by (auto simp: renderHelmChart_def io_iffs pure_def Let_def case_prod_beta)
  moreover from this have "hl_Render hl h0 ch vals = Inr files"
    by (simp add: helm_Render_def outside_iff)
  ultimately show ?thesis
    by (intro exI [of _ h0] exI [of _ ch] exI [of _ vals] exI [of _ files])
      (cases sorted, simp add: render_docs_def)
qed

theorem renderHelmChart_documents_witness:
  "fst (renderHelmChart ex_os ex_git ex_helm ''c'' ''r'' ''n'' [] [] []) = Inr ''kind: ConfigMap''
   \<and> (\<exists>docs. list_all (\<lambda>d. TrimSpace d \<noteq> []) docs
       \<and> ''kind: ConfigMap'' = bytes_Join docs manifest_separator)"
proof -
  have "TrimSpace ''kind: ConfigMap'' \<noteq> []"
    by (rule TrimSpace_visible [where c = "CHR ''k''"]) simp_all
  moreover have "HasSuffix ''t/NOTES.txt'' ''NOTES.txt''" "\<not> HasSuffix ''t/cm.yaml'' ''NOTES.txt''"
    by code_simp+
  ultimately have run: "renderHelmChart ex_os ex_git ex_helm ''c'' ''r'' ''n'' [] [] []
      = (Inr ''kind: ConfigMap'', [CallLoadChart ''c'', CallRenderChart])"
    by (simp add: renderHelmChart_def io_defs helm_LoadChart_def helm_Render_def pure_def
        merge_inline_values_def render_docs_def ex_helm_def)
  from renderHelmChart_documents [OF run] obtain xs where
      "''kind: ConfigMap'' = bytes_Join (filter (\<lambda>d. TrimSpace d \<noteq> []) xs) manifest_separator"
    by blast
  moreover have "list_all (\<lambda>d. TrimSpace d \<noteq> []) (filter (\<lambda>d. TrimSpace d \<noteq> []) xs)"
    by (simp add: list_all_iff)
  ultimately show ?thesis
    unfolding run by (metis fst_conv)
qed

text \<open>
  The dependency build's temporary repository directory is removed on every path, a panic of the
  Helm SDK included: once the directory exists its removal is the last call.
\<close>

theorem buildDependencies_removes_dir:
  assumes "helm_LoadChart hl chartDir h = (Inr ch, h1)"
    and "os_MkdirTemp os [] ''kube-drift-helm-repo-'' h1 = (Inr d, h2)"
  shows "last (snd (buildDependencies os hl chartDir h)) = CallRemoveAll d"
proof -
  have "try_bind (helm_LoadChart hl chartDir) (\<lambda>_. os_MkdirTemp os [] ''kube-drift-helm-repo-'') h
      = (Inr d, h2)"
    using assms by (simp add: try_bind_def)
  from helm_repo_dir.last_call_releases [OF this] show ?thesis
    by (simp add: os_RemoveAll_def outside_def split: prod.splits)
qed

theorem buildDependencies_removes_dir_witness:
  "last (snd (buildDependencies ex_os (ex_helm\<lparr>hl_ManagerUpdate := \<lambda>h d c. Panicked ''index''\<rparr>) ''c'' []))
     = CallRemoveAll ''/tmp/kube-drift-helm-repo-1''"
  by (rule buildDependencies_removes_dir [where ch = "\<lparr>ch_dependencies = [], ch_tree = VNil\<rparr>"])
    (simp_all add: helm_LoadChart_def os_MkdirTemp_def outside_def ex_os_def ex_helm_def)

end
