(* ===== verification/Sources.thy ===== *)
theory Sources
  imports Helm_Source
begin

text \<open>
  The values behind kube-diff's \<open>source.Source\<close> interface: the parser over bytes, the three sources
  of \<open>internal/source\<close>, and the target filter of \<open>internal/source/target.go\<close> that wraps any of them.
  \<open>source_Load\<close> is the dynamic dispatch to their \<open>Load\<close> methods.
\<close>

subsection \<open>The target filter\<close>

text \<open>
  The filter keeps, in order, the manifests of a listed namespace whose labels match. A nil
  namespace map or selector is \<open>None\<close>; a manifest without an object has the nil label map.
\<close>

type_synonym namespace_set = "string \<rightharpoonup> bool"

definition in_namespaces :: "namespace_set \<Rightarrow> string \<Rightarrow> bool" where
  "in_namespaces m ns = (case m ns of None \<Rightarrow> False | Some b \<Rightarrow> b)"

definition namespace_set_of :: "string list \<Rightarrow> namespace_set" where
  "namespace_set_of nss = fold (\<lambda>ns m. m(ns \<mapsto> True)) nss Map.empty"

definition resource_labels :: "kd_lib \<Rightarrow> Resource \<Rightarrow> labels" where
  "resource_labels kd r =
     (case res_object r of None \<Rightarrow> Map.empty | Some obj \<Rightarrow> kd_GetLabels kd obj)"

fun targetFilter_loop ::
    "kd_lib \<Rightarrow> namespace_set option \<Rightarrow> Selector option \<Rightarrow> Resource list \<Rightarrow> Resource list
     \<Rightarrow> Resource list" where
  "targetFilter_loop kd nss sel kept [] = kept"
| "targetFilter_loop kd nss sel kept (r # rs) =
     (if (case nss of None \<Rightarrow> False | Some m \<Rightarrow> \<not> in_namespaces m (res_namespace r))
      then targetFilter_loop kd nss sel kept rs
      else
        (case sel of
           Some matches \<Rightarrow>
             if \<not> matches (resource_labels kd r) then targetFilter_loop kd nss sel kept rs
             else targetFilter_loop kd nss sel (kept @ [r]) rs
         | None \<Rightarrow> targetFilter_loop kd nss sel (kept @ [r]) rs))"

definition targetFilter_Load ::
    "kd_lib \<Rightarrow> Resource list eio \<Rightarrow> namespace_set option \<Rightarrow> Selector option
     \<Rightarrow> Resource list eio" where
  "targetFilter_Load kd load nss sel =
     try_bind load (\<lambda>all. give (targetFilter_loop kd nss sel [] all))"

subsection \<open>The interface\<close>

datatype source =
    BytesSrc bytes
  | GitSrc GitSource
  | HelmSrc HelmSource
  | KustomizeSrc KustomizeSource
  | TargetFilter source "namespace_set option" "Selector option"

primrec source_Load :: "env \<Rightarrow> source \<Rightarrow> Resource list eio" where
  "source_Load E (BytesSrc b) = BytesSource_Load (e_kd E) b"
| "source_Load E (GitSrc s) = GitSource_Load (e_os E) (e_git E) (e_kd E) s"
| "source_Load E (HelmSrc s) = HelmSource_Load (e_os E) (e_git E) (e_kd E) (e_helm E) s"
| "source_Load E (KustomizeSrc s) =
     KustomizeSource_Load (e_os E) (e_git E) (e_kd E) (e_kust E) s"
| "source_Load E (TargetFilter src nss sel) =
     targetFilter_Load (e_kd E) (source_Load E src) nss sel"

definition NewTargetFilter :: "source \<Rightarrow> string list \<Rightarrow> Selector option \<Rightarrow> source" where
  "NewTargetFilter src namespaces selector =
     (if length namespaces = 0 \<and> selector = None then src
      else TargetFilter src
             (if length namespaces > 0 then Some (namespace_set_of namespaces) else None)
             selector)"

subsection \<open>What the filter keeps\<close>

lemma fold_true_keys:
  "in_namespaces (fold (\<lambda>ns m. m(ns \<mapsto> True)) nss m0) ns \<longleftrightarrow> ns \<in> set nss \<or> in_namespaces m0 ns"
  by (induction nss arbitrary: m0) (auto simp: in_namespaces_def)

lemma in_namespace_set_of [simp]: "in_namespaces (namespace_set_of nss) ns \<longleftrightarrow> ns \<in> set nss"
  by (simp add: namespace_set_of_def fold_true_keys) (simp add: in_namespaces_def)

text \<open>The target a manifest has to match.\<close>

definition in_target :: "kd_lib \<Rightarrow> string list \<Rightarrow> Selector option \<Rightarrow> Resource \<Rightarrow> bool" where
  "in_target kd namespaces selector r \<longleftrightarrow>
     (namespaces \<noteq> [] \<longrightarrow> res_namespace r \<in> set namespaces) \<and>
     (\<forall>matches. selector = Some matches \<longrightarrow> matches (resource_labels kd r))"

lemma targetFilter_loop_filter:
  "targetFilter_loop kd nss sel kept rs =
     kept @ filter (\<lambda>r. (\<forall>m. nss = Some m \<longrightarrow> in_namespaces m (res_namespace r)) \<and>
                        (\<forall>f. sel = Some f \<longrightarrow> f (resource_labels kd r))) rs"
  by (induction kd nss sel kept rs rule: targetFilter_loop.induct)
    (auto split: option.splits)

subsection \<open>The contract of a source\<close>

context manifest_source
begin

text \<open>Filtering a source gives a source, which loads a subset and passes on the error.\<close>

lemma filter_calls: "adds_only source_call (targetFilter_Load kd load nss sel)"
  unfolding targetFilter_Load_def by (intro quiet load_calls)

lemma filter_history: "snd (targetFilter_Load kd load nss sel h) = snd (load h)"
  by (simp add: targetFilter_Load_def try_bind_def give_def split: prod.split sum.split)

end

locale filtered_source = manifest_source +
  fixes kd :: kd_lib and nss :: "namespace_set option" and sel :: "Selector option"

sublocale filtered_source \<subseteq> filtered: manifest_source "targetFilter_Load kd load nss sel"
  by unfold_locales (rule filter_calls)

text \<open>
  A source value all of whose injected functions keep their contracts; a nil clone function is
  the real one, and keeps it.
\<close>

definition clone_ok :: "CloneFunc option \<Rightarrow> bool" where
  "clone_ok c \<longleftrightarrow> (\<forall>f. c = Some f \<longrightarrow> clone_func f)"

primrec source_ok :: "source \<Rightarrow> bool" where
  "source_ok (BytesSrc b) \<longleftrightarrow> True"
| "source_ok (GitSrc s) \<longleftrightarrow> clone_ok (gs_clone s)"
| "source_ok (HelmSrc s) \<longleftrightarrow> clone_ok (hs_clone s) \<and> hs_buildDeps s = None"
| "source_ok (KustomizeSrc s) \<longleftrightarrow> clone_ok (ks_clone s)"
| "source_ok (TargetFilter s nss sel) \<longleftrightarrow> source_ok s"

lemma clone_ok_or_default: "clone_ok c \<Longrightarrow> clone_func (clone_or_default os g c)"
  by (cases c) (simp_all add: clone_ok_def clone_or_default_def real_clone.clone_func_axioms)

lemma withCheckout_default:
  "withCheckout os g url ref path auth c fn =
   withCheckout os g url ref path auth (Some (clone_or_default os g c)) fn"
  by (simp add: withCheckout_def clone_or_default_def)

lemma withCheckout_ok_calls:
  assumes "clone_ok c" "\<And>p. adds_only source_call (fn p)"
  shows "adds_only source_call (withCheckout os g url ref path auth c fn)"
  by (subst withCheckout_default)
    (rule clone_func.withCheckout_calls [OF clone_ok_or_default [OF assms(1)] assms(2)])

lemma source_Load_calls: "source_ok s \<Longrightarrow> adds_only source_call (source_Load E s)"
proof (induction s)
  case (BytesSrc b)
  show ?case by (simp add: adds_only_libraries)
next
  case (GitSrc s)
  then show ?case
    by (simp add: GitSource_Load_def withCheckout_ok_calls adds_only_libraries)
next
  case (HelmSrc s)
  then have ok: "clone_ok (hs_clone s)" and b: "hs_buildDeps s = None"
    by simp_all
  show ?case
    unfolding source_Load.simps HelmSource_Load_body b option.case
    by (intro withCheckout_ok_calls ok quiet adds_only_runBuildDeps)
next
  case (KustomizeSrc s)
  then have ok: "clone_ok (ks_clone s)"
    by simp
  show ?case
    unfolding source_Load.simps KustomizeSource_Load_def
    by (intro withCheckout_ok_calls ok quiet)
next
  case (TargetFilter s nss sel)
  then have "manifest_source (source_Load E s)"
    by (simp add: manifest_source_def)
  then show ?case
    by (simp add: manifest_source.filter_calls)
qed

interpretation bytes_source: filtered_source "BytesSource_Load kd b" kd nss sel
  for kd b nss sel
  by unfold_locales (rule adds_only_libraries)

lemma clone_ok_None [simp]: "clone_ok None"
  by (simp add: clone_ok_def)

interpretation git_source: manifest_source
    "source_Load E (GitSrc (NewGitSource (e_os E) (e_git E) url ref path auth None))"
  for E url ref path auth
  by unfold_locales
    (rule source_Load_calls, simp add: NewGitSource_def clone_ok_def clone_or_default_def
      real_clone.clone_func_axioms)

interpretation helm_source: manifest_source
    "source_Load E (HelmSrc (NewHelmSource url ref path rn ns vals vfs db auth None))"
  for E url ref path rn ns vals vfs db auth
  by unfold_locales (rule source_Load_calls, simp add: NewHelmSource_def)

interpretation kustomize_source: manifest_source
    "source_Load E (KustomizeSrc (NewKustomizeSource url ref path auth None))"
  for E url ref path auth
  by unfold_locales (rule source_Load_calls, simp add: NewKustomizeSource_def)

subsection \<open>Properties\<close>

text \<open>
  C36: The target narrows a source to exactly the manifests it selects, in order and with the source's
  own calls and errors: without namespaces and without a selector nothing is filtered.
\<close>

theorem NewTargetFilter_selects:
  "source_Load E (NewTargetFilter src namespaces selector) h =
     (case source_Load E src h of
        (Inl e, h') \<Rightarrow> (Inl e, h')
      | (Inr all, h') \<Rightarrow> (Inr (filter (in_target (e_kd E) namespaces selector) all), h'))"
proof (cases "namespaces = [] \<and> selector = None")
  case True
  then have "filter (in_target (e_kd E) namespaces selector) all = all" for all
    by (simp add: in_target_def)
  then show ?thesis
    using True by (simp add: NewTargetFilter_def split: prod.split sum.split)
next
  case False
  have "(\<lambda>r. (\<forall>m. (if namespaces \<noteq> [] then Some (namespace_set_of namespaces) else None) = Some m
             \<longrightarrow> in_namespaces m (res_namespace r))
          \<and> (\<forall>f. selector = Some f \<longrightarrow> f (resource_labels (e_kd E) r)))
      = in_target (e_kd E) namespaces selector"
    by (rule ext) (auto simp: in_target_def)
  then show ?thesis
    using False
    by (auto simp: NewTargetFilter_def targetFilter_Load_def targetFilter_loop_filter try_bind_def
        give_def split: prod.split sum.split)
qed

text \<open>
  An empty string in the namespace list selects the manifests that have no namespace, which the
  comments on \<open>NewTargetFilter\<close> and on \<open>Target.Namespaces\<close> say are always skipped.
\<close>

lemma empty_namespace_selects_unnamespaced:
  "res_namespace r = [] \<Longrightarrow> in_target kd [[]] None r"
  by (simp add: in_target_def)

end
