(* ===== verification/Notify_Sender.thy ===== *)
theory Notify_Sender
  imports Libraries Example_Env
begin

text \<open>
  \<open>internal/notify/notify.go\<close>: the payload of an event, as a Slack message or as a JSON body, and
  its delivery by one HTTP POST. \<open>encoding/json\<close> is modelled as the program uses it: struct fields
  in order, \<open>omitempty\<close> fields left out, and strings escaped as \<open>json.Marshal\<close> escapes them,
  with the HTML characters and the line separators U+2028 and U+2029, invalid UTF-8 replaced.
\<close>

subsection \<open>JSON text\<close>

definition json_escape_ascii :: "char \<Rightarrow> bytes" where
  "json_escape_ascii c =
     (let n = of_char c :: nat; bs = char_of (92::nat) in
      if n = 92 \<or> n = 34 then [bs, c]
      else if n = 8 then [bs, CHR ''b''] else if n = 12 then [bs, CHR ''f'']
      else if n = 10 then [bs, CHR ''n''] else if n = 13 then [bs, CHR ''r'']
      else if n = 9 then [bs, CHR ''t'']
      else if n < 32 \<or> n = 60 \<or> n = 62 \<or> n = 38
      then [bs, CHR ''u'', CHR ''0'', CHR ''0'', hex_nibble (n div 16), hex_nibble (n mod 16)]
      else [c])"

definition line_separators :: "bytes list" where
  "line_separators = [map char_of [0xE2, 0x80, 0xA8 :: nat], map char_of [0xE2, 0x80, 0xA9 :: nat]]"

function json_escape :: "bytes \<Rightarrow> bytes" where
  "json_escape [] = []"
| "json_escape (c # cs) =
     (if of_char c < (0x80::nat) then json_escape_ascii c @ json_escape cs
      else
        (let n = utf8_len (map of_char (c # cs)); bs = char_of (92::nat) in
         if n = 0 then bs # ''ufffd'' @ json_escape cs
         else if take n (c # cs) \<in> set line_separators
         then bs # ''u202'' @ [hex_nibble (of_char (last (take n (c # cs))) - 0xA0)]
              @ json_escape (drop n (c # cs))
         else take n (c # cs) @ json_escape (drop n (c # cs))))"
  by pat_completeness auto
termination
  by (relation "measure length") simp_all

definition json_string :: "bytes \<Rightarrow> bytes" where
  "json_string s = [char_of (34::nat)] @ json_escape s @ [char_of (34::nat)]"

datatype json =
    JString bytes
  | JInt go_int
  | JBool bool
  | JArray "json list"
  | JObject "(string \<times> json) list"

fun marshal :: "json \<Rightarrow> bytes" where
  "marshal (JString s) = json_string s"
| "marshal (JInt i) = go_decimal i"
| "marshal (JBool b) = (if b then ''true'' else ''false'')"
| "marshal (JArray js) = ''['' @ bytes_Join (map marshal js) '','' @ '']''"
| "marshal (JObject fs) =
     ''{'' @ bytes_Join (map (\<lambda>(k, j). json_string k @ '':'' @ marshal j) fs) '','' @ ''}''"

text \<open>A field tagged \<open>omitempty\<close>.\<close>

definition omitempty_string :: "string \<Rightarrow> string \<Rightarrow> (string \<times> json) list" where
  "omitempty_string k s = (if s = [] then [] else [(k, JString s)])"

definition json_of_resource :: "NResource \<Rightarrow> json" where
  "json_of_resource r =
     JObject ([(''apiVersion'', JString (nr_apiVersion r)), (''kind'', JString (nr_kind r)),
               (''name'', JString (nr_name r))]
              @ omitempty_string ''namespace'' (nr_namespace r)
              @ [(''status'', JString (nr_status r))])"

definition json_of_summary :: "NSummary \<Rightarrow> json" where
  "json_of_summary s =
     JObject [(''changed'', JInt (nsum_changed s)), (''new'', JInt (nsum_new s)),
              (''deleted'', JInt (nsum_deleted s)), (''unchanged'', JInt (nsum_unchanged s))]"

subsection \<open>Payloads\<close>

record genericBody =
  gb_driftCheck :: string
  gb_namespace :: string
  gb_resolved :: bool
  gb_summary :: NSummary
  gb_drifted :: "NResource list"

definition json_of_genericBody :: "genericBody \<Rightarrow> json" where
  "json_of_genericBody b =
     JObject ([(''driftCheck'', JString (gb_driftCheck b))]
              @ omitempty_string ''namespace'' (gb_namespace b)
              @ [(''resolved'', JBool (gb_resolved b)),
                 (''summary'', json_of_summary (gb_summary b))]
              @ (if gb_drifted b = [] then []
                 else [(''drifted'', JArray (map json_of_resource (gb_drifted b)))]))"

definition genericPayload :: "Event \<Rightarrow> genericBody" where
  "genericPayload ev =
     \<lparr>gb_driftCheck = ev_name ev, gb_namespace = ev_namespace ev, gb_resolved = ev_resolved ev,
      gb_summary = ev_summary ev, gb_drifted = ev_drifted ev\<rparr>"

text \<open>The dash and the bullet of the messages, in UTF-8.\<close>

definition em_dash :: bytes where
  "em_dash = map char_of [0xE2, 0x80, 0x94 :: nat]"

definition bullet :: bytes where
  "bullet = map char_of [0xE2, 0x80, 0xA2 :: nat]"

definition qualified_name :: "string \<Rightarrow> string \<Rightarrow> string" where
  "qualified_name namespace name = (if namespace \<noteq> [] then namespace @ ''/'' @ name else name)"

definition slack_line :: "NResource \<Rightarrow> string" where
  "slack_line r =
     char_of (10::nat) # bullet @ '' ['' @ nr_status r @ ''] '' @ nr_kind r @ '' ''
       @ qualified_name (nr_namespace r) (nr_name r)"

definition slackText :: "Event \<Rightarrow> string" where
  "slackText ev =
     (let i = qualified_name (ev_namespace ev) (ev_name ev) in
      if ev_resolved ev then
        '':white_check_mark: DriftCheck *'' @ i @ ''*: drift resolved '' @ em_dash
        @ '' all resources match desired state.''
      else
        '':rotating_light: DriftCheck *'' @ i @ ''*: drift detected '' @ em_dash @ '' ''
        @ go_decimal (nsum_changed (ev_summary ev)) @ '' changed, ''
        @ go_decimal (nsum_new (ev_summary ev)) @ '' new, ''
        @ go_decimal (nsum_deleted (ev_summary ev)) @ '' deleted.''
        @ concat (map slack_line (ev_drifted ev)))"

definition payload :: "string \<Rightarrow> Event \<Rightarrow> error + bytes" where
  "payload t ev =
     (if t = Slack then Inr (marshal (JObject [(''text'', JString (slackText ev))]))
      else if t = Generic \<or> t = [] then Inr (marshal (json_of_genericBody (genericPayload ev)))
      else Inl (Errorf (''unknown webhook type '' @ go_quote t)))"

subsection \<open>Delivery\<close>

text \<open>A \<open>Sender\<close> holds its HTTP client, here the client's timeout; nil is \<open>http.DefaultClient\<close>.\<close>

record Sender =
  sender_client :: "go_int option"

text \<open>Ten seconds, in nanoseconds.\<close>

definition NewSender :: Sender where
  "NewSender = \<lparr>sender_client = Some 10000000000\<rparr>"

definition Sender_Send :: "http_lib \<Rightarrow> Sender \<Rightarrow> Webhook \<Rightarrow> Event \<Rightarrow> unit eio" where
  "Sender_Send hx s wh ev =
     try_bind (pure (payload (webhook_type wh) ev))
       (\<lambda>body. try_bind (wrap_err ''build webhook request'' (pure (htl_NewRequest hx (webhook_url wh))))
         (\<lambda>_.
            (let client = (case sender_client s of None \<Rightarrow> 0 | Some t \<Rightarrow> t) in
             try_bind (wrap_err ''post webhook''
                         (http_Do hx client (webhook_url wh)
                            [(''Content-Type'', ''application/json'')] body))
               (\<lambda>status.
                  if status < 200 \<or> status \<ge> 300
                  then fail (Errorf (''webhook returned status '' @ int_decimal status))
                  else give ()))))"

subsection \<open>Which calls are made\<close>

fun post_call :: "call \<Rightarrow> bool" where
  "post_call (CallHTTPPost tm u hs b) = True"
| "post_call _ = False"

lemma adds_only_http_Do [quiet]: "adds_only post_call (http_Do hx tm u hs b)"
  by (simp add: http_Do_def adds_only_outside)

text \<open>
  The contract of \<open>notify.Notifier\<close> as the controller relies on it: sending a notification touches
  neither the status nor the metrics nor the event stream.
\<close>

fun delivery_call :: "call \<Rightarrow> bool" where
  "delivery_call (CallGetDriftCheck n) = False"
| "delivery_call (CallGetConfigMap n) = False"
| "delivery_call (CallGetSecret n) = False"
| "delivery_call (CallStatusUpdate d) = False"
| "delivery_call (CallGaugeSet ls v) = False"
| "delivery_call (CallGaugeDelete ps) = False"
| "delivery_call (CallEvent n t r m) = False"
| "delivery_call (CallSend w e) = False"
| "delivery_call _ = True"

type_synonym Notifier = "Webhook \<Rightarrow> Event \<Rightarrow> unit eio"

locale notifier =
  fixes send :: Notifier
  assumes send_calls: "adds_only delivery_call (send wh ev)"

lemma adds_only_Sender_Send [quiet]: "adds_only post_call (Sender_Send hx s wh ev)"
  unfolding Sender_Send_def Let_def by (intro quiet)

interpretation http_sender: notifier "Sender_Send hx s" for hx s
proof unfold_locales
  fix wh ev
  show "adds_only delivery_call (Sender_Send hx s wh ev)"
  proof (rule adds_only_mono)
    show "adds_only post_call (Sender_Send hx s wh ev)"
      by (intro quiet)
  qed (erule post_call.elims; simp)
qed

subsection \<open>Properties\<close>

text \<open>
  A delivery succeeds exactly when the webhook's type is known, the request can be built and the
  server answers the one POST with a status in the 200s.
\<close>

theorem Sender_Send_success:
  "fst (Sender_Send hx s wh ev h) = Inr () \<longleftrightarrow>
     (\<exists>body status.
        payload (webhook_type wh) ev = Inr body \<and> htl_NewRequest hx (webhook_url wh) = Inr ()
        \<and> htl_Do hx h (case sender_client s of None \<Rightarrow> 0 | Some t \<Rightarrow> t) (webhook_url wh)
             [(''Content-Type'', ''application/json'')] body = Inr status
        \<and> 200 \<le> status \<and> status < 300)"
  by (auto simp: Sender_Send_def io_defs pure_def http_Do_def Let_def split: sum.splits if_splits)

text \<open>
  A webhook of an unknown type is refused before anything is sent; a known type makes at most one
  POST, to the webhook's URL and with the payload of its type.
\<close>

lemma Sender_Send_posts_once:
  "snd (Sender_Send hx s wh ev h) =
     (case payload (webhook_type wh) ev of
        Inl _ \<Rightarrow> h
      | Inr body \<Rightarrow>
          (case htl_NewRequest hx (webhook_url wh) of
             Inl _ \<Rightarrow> h
           | Inr _ \<Rightarrow> h @ [CallHTTPPost (case sender_client s of None \<Rightarrow> 0 | Some t \<Rightarrow> t)
                             (webhook_url wh) [(''Content-Type'', ''application/json'')] body]))
   \<and> ((\<exists>body. payload (webhook_type wh) ev = Inr body)
        \<longleftrightarrow> webhook_type wh \<in> {Slack, Generic, []})"
  by (auto simp: Sender_Send_def payload_def io_defs pure_def http_Do_def Let_def split: sum.splits)

end
