(* ===== verification/Metrics.thy ===== *)
theory Metrics
  imports World
begin

text \<open>
  \<open>internal/metrics/metrics.go\<close>: the recorder writes one gauge series per drift status and
  deletes every series of a DriftCheck. A gauge value is the integer its \<open>float64\<close> denotes. A nil \<open>*Recorder\<close> is \<open>None\<close>, and both methods are
  no-ops on it. The registry itself is prometheus code: a computation records the calls to it,
  and \<open>gauge_vec\<close> states what its documentation promises of them.
\<close>

definition gauge_label_names :: "string list" where
  "gauge_label_names = [''driftcheck'', ''namespace'', ''status'']"

text \<open>A recorder has no fields; \<open>NewRecorder\<close> returns one.\<close>

definition NewRecorder :: "unit option" where
  "NewRecorder = Some ()"

abbreviation gauge_float :: "go_int \<Rightarrow> int" where
  "gauge_float v \<equiv> float64_of_int (sint v)"

text \<open>\<open>driftedResources.WithLabelValues (name, namespace, status).Set (float64 (v))\<close>\<close>

definition gauge_set :: "string \<Rightarrow> string \<Rightarrow> string \<Rightarrow> go_int \<Rightarrow> unit io" where
  "gauge_set name namespace status v =
     outside (CallGaugeSet [name, namespace, status] (float64_of_int (sint v))) (\<lambda>_. ())"

definition RecordDrift ::
    "unit option \<Rightarrow> string \<Rightarrow> string \<Rightarrow> go_int \<Rightarrow> go_int \<Rightarrow> go_int \<Rightarrow> go_int \<Rightarrow> unit io" where
  "RecordDrift r name namespace changed added deleted unchanged h =
     (case r of
        None \<Rightarrow> ((), h)
      | Some _ \<Rightarrow>
          (let h1 = snd (gauge_set name namespace ''changed'' changed h);
               h2 = snd (gauge_set name namespace ''new'' added h1);
               h3 = snd (gauge_set name namespace ''deleted'' deleted h2)
           in gauge_set name namespace ''unchanged'' unchanged h3))"

definition Recorder_Delete :: "unit option \<Rightarrow> string \<Rightarrow> string \<Rightarrow> unit io" where
  "Recorder_Delete r name namespace h =
     (case r of
        None \<Rightarrow> ((), h)
      | Some _ \<Rightarrow>
          outside (CallGaugeDelete [(''driftcheck'', name), (''namespace'', namespace)])
            (\<lambda>_. ()) h)"

subsection \<open>The calls of the recorder\<close>

fun gauge_call :: "call \<Rightarrow> bool" where
  "gauge_call (CallGaugeSet ls v) = True"
| "gauge_call (CallGaugeDelete ps) = True"
| "gauge_call _ = False"

lemma RecordDrift_Some:
  "RecordDrift (Some u) name ns c n d k h =
     ((), h @ [CallGaugeSet [name, ns, ''changed''] (gauge_float c),
               CallGaugeSet [name, ns, ''new''] (gauge_float n),
               CallGaugeSet [name, ns, ''deleted''] (gauge_float d),
               CallGaugeSet [name, ns, ''unchanged''] (gauge_float k)])"
  by (simp add: RecordDrift_def gauge_set_def outside_def)

lemma RecordDrift_None [simp]: "RecordDrift None name ns c n d k h = ((), h)"
  by (simp add: RecordDrift_def)

lemma Recorder_Delete_Some:
  "Recorder_Delete (Some u) name ns h =
     ((), h @ [CallGaugeDelete [(''driftcheck'', name), (''namespace'', ns)]])"
  by (simp add: Recorder_Delete_def outside_def)

lemma Recorder_Delete_None [simp]: "Recorder_Delete None name ns h = ((), h)"
  by (simp add: Recorder_Delete_def)

lemma adds_only_RecordDrift [quiet]: "adds_only gauge_call (RecordDrift r name ns c n d k)"
  by (cases r) (auto simp: adds_only_def RecordDrift_Some)

lemma adds_only_Recorder_Delete [quiet]: "adds_only gauge_call (Recorder_Delete r name ns)"
  by (cases r) (auto simp: adds_only_def Recorder_Delete_Some)

text \<open>The gauge calls for one DriftCheck.\<close>

fun own_gauge :: "string \<Rightarrow> string \<Rightarrow> call \<Rightarrow> bool" where
  "own_gauge name ns (CallGaugeSet ls v) \<longleftrightarrow> (\<exists>status. ls = [name, ns, status])"
| "own_gauge name ns (CallGaugeDelete ps) \<longleftrightarrow> ps = [(''driftcheck'', name), (''namespace'', ns)]"
| "own_gauge name ns _ \<longleftrightarrow> False"

lemma own_gauge_call: "own_gauge name ns c \<Longrightarrow> gauge_call c"
  by (cases c) simp_all

lemma adds_only_RecordDrift_own: "adds_only (own_gauge name ns) (RecordDrift r name ns c n d k)"
  by (cases r) (auto simp: adds_only_def RecordDrift_Some)

lemma adds_only_Recorder_Delete_own: "adds_only (own_gauge name ns) (Recorder_Delete r name ns)"
  by (cases r) (auto simp: adds_only_def Recorder_Delete_Some)

subsection \<open>Reading the registry\<close>

text \<open>
  \<open>matches_labels ps ls\<close>: the series with the label values \<open>ls\<close> has every label value that
  \<open>ps\<close> names.
\<close>

definition matches_labels :: "(string \<times> string) list \<Rightarrow> string list \<Rightarrow> bool" where
  "matches_labels ps ls \<longleftrightarrow> (\<forall>(n, v) \<in> set ps. (n, v) \<in> set (zip gauge_label_names ls))"

text \<open>
  What the prometheus documentation says of a gauge vector: \<open>Set\<close> overwrites one series,
  \<open>DeletePartialMatch\<close> removes the series whose labels match, and nothing else changes a series.
  \<open>view h\<close> is the registry after the calls of \<open>h\<close>.
\<close>

locale gauge_vec =
  fixes view :: "history \<Rightarrow> string list \<Rightarrow> int option"
  assumes view_Nil: "view [] ls = None"
    and view_Set: "view (h @ [CallGaugeSet ls v]) = (view h)(ls \<mapsto> v)"
    and view_Delete:
      "view (h @ [CallGaugeDelete ps]) ls = (if matches_labels ps ls then None else view h ls)"
    and view_other: "\<not> gauge_call c \<Longrightarrow> view (h @ [c]) = view h"
begin

lemma view_quiet: "list_all (\<lambda>c. \<not> gauge_call c) t \<Longrightarrow> view (h @ t) = view h"
proof (induction t rule: rev_induct)
  case (snoc c t)
  then show ?case
    using view_other [of c "h @ t"] by simp
qed simp

lemma view_RecordDrift:
  "view (snd (RecordDrift (Some u) name ns c n d k h)) =
     (view h)([name, ns, ''changed''] \<mapsto> gauge_float c, [name, ns, ''new''] \<mapsto> gauge_float n,
              [name, ns, ''deleted''] \<mapsto> gauge_float d, [name, ns, ''unchanged''] \<mapsto> gauge_float k)"
  using view_Set [of "h @ [CallGaugeSet [name, ns, ''changed''] (gauge_float c),
      CallGaugeSet [name, ns, ''new''] (gauge_float n),
      CallGaugeSet [name, ns, ''deleted''] (gauge_float d)]"
      "[name, ns, ''unchanged'']" "gauge_float k"]
    view_Set [of "h @ [CallGaugeSet [name, ns, ''changed''] (gauge_float c),
      CallGaugeSet [name, ns, ''new''] (gauge_float n)]" "[name, ns, ''deleted'']" "gauge_float d"]
    view_Set [of "h @ [CallGaugeSet [name, ns, ''changed''] (gauge_float c)]"
      "[name, ns, ''new'']" "gauge_float n"]
    view_Set [of h "[name, ns, ''changed'']" "gauge_float c"]
  by (simp add: RecordDrift_Some)

lemma view_Recorder_Delete:
  "view (snd (Recorder_Delete (Some u) name ns h)) [name', ns', s] =
     (if name' = name \<and> ns' = ns then None else view h [name', ns', s])"
  by (auto simp: Recorder_Delete_Some view_Delete matches_labels_def gauge_label_names_def)

end

text \<open>The registry as a fold over the calls: a reading of the history that obeys the contract.\<close>

fun apply_gauge_call :: "call \<Rightarrow> (string list \<Rightarrow> int option) \<Rightarrow> string list \<Rightarrow> int option" where
  "apply_gauge_call (CallGaugeSet ls v) m = m(ls \<mapsto> v)"
| "apply_gauge_call (CallGaugeDelete ps) m = (\<lambda>ls. if matches_labels ps ls then None else m ls)"
| "apply_gauge_call _ m = m"

definition gauge_values :: "history \<Rightarrow> string list \<Rightarrow> int option" where
  "gauge_values h = fold apply_gauge_call h (\<lambda>_. None)"

interpretation registry: gauge_vec gauge_values
proof unfold_locales
  fix c :: call and h :: history
  assume "\<not> gauge_call c"
  then show "gauge_values (h @ [c]) = gauge_values h"
    by (cases c) (simp_all add: gauge_values_def)
qed (simp_all add: gauge_values_def)

end
