(* ===== verification/Source_Config.thy ===== *)
theory Source_Config
  imports Sources Notify_Sender Metrics
begin

text \<open>
  The part of \<open>internal/controller/driftcheck_controller.go\<close> that turns a DriftCheck's spec into a
  source: the manifests of a ConfigMap, the Git credentials of a Secret, the source itself and the
  target filter around it.
\<close>

subsection \<open>The reconciler\<close>

text \<open>
  \<open>DriftCheckReconciler\<close>: its client is \<open>e_kube\<close> of the environment; a nil field is \<open>None\<close>.
\<close>

record Reconciler =
  r_Fetcher :: "fetcher option"
  r_Metrics :: "unit option"
  r_GitCloner :: "CloneFunc option"
  r_Notifier :: "Notifier option"
  r_Recorder :: "unit option"

definition secretKeyUsername :: string where
  "secretKeyUsername = ''username''"

definition secretKeyPassword :: string where
  "secretKeyPassword = ''password''"

definition secretKeyBearerToken :: string where
  "secretKeyBearerToken = ''bearerToken''"

definition secretKeyIdentity :: string where
  "secretKeyIdentity = ''identity''"

definition secretKeyKnownHosts :: string where
  "secretKeyKnownHosts = ''known_hosts''"

lemmas secret_keys = secretKeyUsername_def secretKeyPassword_def secretKeyBearerToken_def
  secretKeyIdentity_def secretKeyKnownHosts_def

subsection \<open>Manifests of a ConfigMap\<close>

abbreviation ns_name :: "string \<Rightarrow> string \<Rightarrow> string" where
  "ns_name ns n \<equiv> ns @ ''/'' @ n"

definition cm_get :: "ConfigMap \<Rightarrow> string \<Rightarrow> bytes option" where
  "cm_get cm k =
     (case map_of (cm_data cm) k of
        Some v \<Rightarrow> Some v
      | None \<Rightarrow> map_of (cm_binaryData cm) k)"

definition cm_keys :: "ConfigMap \<Rightarrow> string list" where
  "cm_keys cm = sort_Strings (map fst (cm_data cm) @ map fst (cm_binaryData cm))"

fun cm_docs :: "ConfigMap \<Rightarrow> string list \<Rightarrow> bytes list" where
  "cm_docs cm [] = []"
| "cm_docs cm (k # ks) =
     (case cm_get cm k of Some v \<Rightarrow> v # cm_docs cm ks | None \<Rightarrow> cm_docs cm ks)"

definition configMapManifests :: "ConfigMap \<Rightarrow> string \<Rightarrow> error + bytes" where
  "configMapManifests cm key =
     (let nn = ns_name (om_namespace (cm_meta cm)) (om_name (cm_meta cm)) in
      if key \<noteq> [] then
        (case cm_get cm key of
           None \<Rightarrow> Inl (Errorf (''key '' @ go_quote key @ '' not found in ConfigMap '' @ nn))
         | Some v \<Rightarrow>
             if length (TrimSpace v) = 0
             then Inl (Errorf (''key '' @ go_quote key @ '' in ConfigMap '' @ nn @ '' is empty''))
             else Inr v)
      else
        (let joined = bytes_Join (cm_docs cm (cm_keys cm)) manifest_separator in
         if length (TrimSpace joined) = 0
         then Inl (Errorf (''no manifests found in ConfigMap '' @ nn))
         else Inr joined))"

subsection \<open>Git credentials\<close>

text \<open>Indexing a Go map with a missing key yields the zero value.\<close>

definition secret_value :: "Secret \<Rightarrow> string \<Rightarrow> bytes" where
  "secret_value sec key = (case map_of (sec_data sec) key of None \<Rightarrow> [] | Some v \<Rightarrow> v)"

definition missing_key :: "string \<Rightarrow> string \<Rightarrow> error" where
  "missing_key secretName key =
     Errorf (''git auth Secret '' @ secretName @ '' is missing key '' @ go_quote key)"

definition requireStr :: "string \<Rightarrow> Secret \<Rightarrow> string \<Rightarrow> error + string" where
  "requireStr secretName sec key =
     (let v = TrimSpace (secret_value sec key) in
      if v = [] then Inl (missing_key secretName key) else Inr v)"

definition requireSecret :: "string \<Rightarrow> Secret \<Rightarrow> string \<Rightarrow> error + string" where
  "requireSecret secretName sec key =
     (let v = TrimRight_CRLF (secret_value sec key) in
      if v = [] then Inl (missing_key secretName key) else Inr v)"

text \<open>The \<open>switch\<close> over the scheme, on the Secret that was read.\<close>

definition git_auth_of_secret :: "string \<Rightarrow> Secret \<Rightarrow> string \<Rightarrow> error + GitAuth" where
  "git_auth_of_secret secretName sec ty =
     (if ty = GitAuthBasic then
        (case requireStr secretName sec secretKeyUsername of
           Inl e \<Rightarrow> Inl e
         | Inr username \<Rightarrow>
             (case requireSecret secretName sec secretKeyPassword of
                Inl e \<Rightarrow> Inl e
              | Inr password \<Rightarrow>
                  Inr (GitAuth_zero\<lparr>ga_basic :=
                         Some \<lparr>ba_username = username, ba_password = password\<rparr>\<rparr>)))
      else if ty = GitAuthBearer then
        (case requireSecret secretName sec secretKeyBearerToken of
           Inl e \<Rightarrow> Inl e
         | Inr token \<Rightarrow> Inr (GitAuth_zero\<lparr>ga_bearer := token\<rparr>))
      else if ty = GitAuthSSH then
        (let identity = secret_value sec secretKeyIdentity;
             knownHosts = secret_value sec secretKeyKnownHosts in
         if length (TrimSpace identity) = 0 then Inl (missing_key secretName secretKeyIdentity)
         else if length (TrimSpace knownHosts) = 0 then
           Inl (Errorf (''git auth Secret '' @ secretName @ '' is missing key ''
                  @ go_quote secretKeyKnownHosts
                  @ '' (SSH host-key verification is fail-closed)''))
         else
           Inr (GitAuth_zero\<lparr>ga_ssh := Some
                  \<lparr>ssh_user = [], ssh_privateKey = identity,
                   ssh_passphrase = TrimRight_CRLF (secret_value sec secretKeyPassword),
                   ssh_knownHosts = knownHosts\<rparr>\<rparr>))
      else Inl (Errorf (''unknown git auth type '' @ go_quote ty)))"

definition resolveGitAuth :: "env \<Rightarrow> string \<Rightarrow> GitAuthSpec option \<Rightarrow> GitAuth option eio" where
  "resolveGitAuth E ns spec =
     (case spec of
        None \<Rightarrow> give None
      | Some s \<Rightarrow>
          (let n = lsr_name (gas_secretRef s) in
           try_bind (wrap_err (''get git auth Secret '' @ ns_name ns n)
                       (client_GetSecret (e_kube E) \<lparr>nn_namespace = ns, nn_name = n\<rparr>))
             (\<lambda>sec. try_bind (pure (git_auth_of_secret (ns_name ns n) sec (gas_type s)))
               (\<lambda>a. give (Some a)))))"

subsection \<open>Sources\<close>

definition or_else :: "string \<Rightarrow> string \<Rightarrow> string" where
  "or_else s d = (if s = [] then d else s)"

definition buildSource :: "env \<Rightarrow> Reconciler \<Rightarrow> DriftCheck \<Rightarrow> source eio" where
  "buildSource E r dc =
     (let s = spec_source (dc_spec dc) in
      if src_type s = SourceTypeConfigMap then
        (case src_configMap s of
           None \<Rightarrow> fail (Errorf ''source.configMap is required when type is ConfigMap'')
         | Some cm \<Rightarrow>
             (let ns = or_else (cms_namespace cm) (dc_namespace dc) in
              try_bind (wrap_err (''get ConfigMap '' @ ns_name ns (cms_name cm))
                          (client_GetConfigMap (e_kube E)
                             \<lparr>nn_namespace = ns, nn_name = cms_name cm\<rparr>))
                (\<lambda>obj. try_bind (pure (configMapManifests obj (cms_key cm)))
                  (\<lambda>data. give (BytesSrc data)))))
      else if src_type s = SourceTypeGit then
        (case src_git s of
           None \<Rightarrow> fail (Errorf ''source.git is required when type is Git'')
         | Some g \<Rightarrow>
             if gss_url g = [] then
               fail (Errorf ''source.git.url is required when type is Git'')
             else
               try_bind (resolveGitAuth E (dc_namespace dc) (gss_auth g))
                 (\<lambda>auth. give (GitSrc (NewGitSource (e_os E) (e_git E) (gss_url g) (gss_ref g)
                                         (gss_path g) auth (r_GitCloner r)))))
      else if src_type s = SourceTypeHelm then
        (case src_helm s of
           None \<Rightarrow> fail (Errorf ''source.helm is required when type is Helm'')
         | Some hl \<Rightarrow>
             (let g = hss_git hl in
              if gss_url g = [] then
                fail (Errorf ''source.helm.git.url is required when type is Helm'')
              else
                (let releaseName = or_else (hss_releaseName hl) (dc_name dc);
                     namespace = or_else (hss_namespace hl) (dc_namespace dc);
                     vals = (case hss_values hl of None \<Rightarrow> [] | Some raw \<Rightarrow> raw) in
                 try_bind (resolveGitAuth E (dc_namespace dc) (gss_auth g))
                   (\<lambda>auth. give (HelmSrc (NewHelmSource (gss_url g) (gss_ref g) (gss_path g)
                                            releaseName namespace vals (hss_valuesFiles hl)
                                            (hss_dependencyBuild hl) auth (r_GitCloner r)))))))
      else if src_type s = SourceTypeKustomize then
        (case src_kustomize s of
           None \<Rightarrow> fail (Errorf ''source.kustomize is required when type is Kustomize'')
         | Some k \<Rightarrow>
             (let g = kss_git k in
              if gss_url g = [] then
                fail (Errorf ''source.kustomize.git.url is required when type is Kustomize'')
              else
                try_bind (resolveGitAuth E (dc_namespace dc) (gss_auth g))
                  (\<lambda>auth. give (KustomizeSrc (NewKustomizeSource (gss_url g) (gss_ref g)
                                                (gss_path g) auth (r_GitCloner r))))))
      else fail (Errorf (''unknown source type '' @ go_quote (src_type s))))"

definition applyTarget :: "kube_lib \<Rightarrow> source \<Rightarrow> Target \<Rightarrow> error + source" where
  "applyTarget k src t =
     (case tgt_labelSelector t of
        None \<Rightarrow> Inr (NewTargetFilter src (tgt_namespaces t) None)
      | Some ls \<Rightarrow>
          (case kl_LabelSelectorAsSelector k ls of
             Inl err \<Rightarrow> Inl (Wrapf ''invalid target.labelSelector'' err)
           | Inr sel \<Rightarrow> Inr (NewTargetFilter src (tgt_namespaces t) (Some sel))))"

subsection \<open>Which calls are made\<close>

fun config_call :: "call \<Rightarrow> bool" where
  "config_call (CallGetConfigMap n) = True"
| "config_call (CallGetSecret n) = True"
| "config_call _ = False"

lemma adds_only_client [quiet]:
  "adds_only config_call (client_GetConfigMap k n)"
  "adds_only config_call (client_GetSecret k n)"
  by (simp_all add: client_GetConfigMap_def client_GetSecret_def adds_only_outside)

lemma adds_only_resolveGitAuth [quiet]: "adds_only config_call (resolveGitAuth E ns spec)"
  unfolding resolveGitAuth_def Let_def by (intro quiet)

lemma adds_only_buildSource [quiet]: "adds_only config_call (buildSource E r dc)"
  unfolding buildSource_def Let_def by (intro quiet)

text \<open>A source built from a spec has no injected function but the reconciler's clone.\<close>

lemma buildSource_ok:
  assumes "buildSource E r dc h = (Inr src, h')" "clone_ok (r_GitCloner r)"
  shows "source_ok src"
proof -
  have git: "clone_ok (Some (clone_or_default (e_os E) (e_git E) (r_GitCloner r)))"
    using clone_ok_or_default [OF assms(2)] by (simp add: clone_ok_def)
  show ?thesis
    using assms git
    by (auto simp: buildSource_def Let_def io_defs pure_def NewGitSource_def NewHelmSource_def
        NewKustomizeSource_def split: if_splits option.splits sum.splits prod.splits)
qed

lemma applyTarget_ok: "applyTarget k src t = Inr src' \<Longrightarrow> source_ok src \<Longrightarrow> source_ok src'"
  by (auto simp: applyTarget_def NewTargetFilter_def split: option.splits sum.splits if_splits)

subsection \<open>Properties\<close>

text \<open>
  The manifests read from a ConfigMap do not depend on the order in which Go iterates over its two
  maps, whether one key is named or all entries are joined.
\<close>

theorem configMapManifests_range_order:
  assumes "mset (cm_data cm) = mset (cm_data cm')" "mset (cm_binaryData cm) = mset (cm_binaryData cm')"
    and "cm_meta cm = cm_meta cm'" "gomap_wf (cm_data cm)" "gomap_wf (cm_binaryData cm)"
  shows "configMapManifests cm key = configMapManifests cm' key"
proof -
  have get: "cm_get cm = cm_get cm'"
    by (rule ext)
      (simp add: cm_get_def map_of_mset_eq [OF assms(1,4)] map_of_mset_eq [OF assms(2,5)]
        split: option.split)
  have keys: "cm_keys cm = cm_keys cm'"
    unfolding cm_keys_def sort_Strings_def
    by (rule sort_mset_eq) (simp add: assms(1,2))
  have "cm_docs cm ks = cm_docs cm' ks" for ks
    by (induction ks) (simp_all add: get split: option.split)
  then show ?thesis
    unfolding configMapManifests_def get keys assms(3) by presburger
qed

theorem configMapManifests_range_order_witness:
  "configMapManifests ex_configmap [] =
   configMapManifests (ex_configmap\<lparr>cm_data := [(''a.yaml'', ''kind: A''), (''b.yaml'', ''kind: B'')]\<rparr>) []"
  by (rule configMapManifests_range_order) (simp_all add: ex_configmap_def add_mset_commute)

text \<open>
  What is compared is never blank: a ConfigMap yields manifests only when something other than
  white space is there, namely the named entry, or every entry in ascending order of its key.
\<close>

theorem configMapManifests_success:
  "configMapManifests cm key = Inr out \<longleftrightarrow>
     TrimSpace out \<noteq> []
     \<and> (if key = [] then
          out = bytes_Join (List.map_filter (cm_get cm) (sort (map fst (cm_data cm)
                  @ map fst (cm_binaryData cm)))) manifest_separator
        else cm_get cm key = Some out)"
proof -
  have docs: "cm_docs cm ks = List.map_filter (cm_get cm) ks" for ks
    by (induction ks) (simp_all add: List.map_filter_simps split: option.split)
  show ?thesis
    by (auto simp: configMapManifests_def docs cm_keys_def sort_Strings_def Let_def
        split: option.split)
qed

text \<open>
  C23: Configured credentials never end in an anonymous clone: if the spec names Git auth and resolving
  it succeeds, then there are credentials, and go-git is handed an authentication method built from
  them or the clone fails.
\<close>

theorem resolveGitAuth_never_anonymous:
  assumes "resolveGitAuth E ns (Some spec) h = (Inr auth, h')"
    and "authMethod os g auth k = (Inr am, k')"
  shows "am \<noteq> None"
proof -
  obtain sec a where "git_auth_of_secret (ns_name ns (lsr_name (gas_secretRef spec))) sec
      (gas_type spec) = Inr a" "auth = Some a"
    using assms(1) by (auto simp: resolveGitAuth_def io_iffs pure_def Let_def)
  then have "ga_basic a \<noteq> None \<or> ga_bearer a \<noteq> [] \<or> ga_ssh a \<noteq> None" "auth = Some a"
    by (auto simp: git_auth_of_secret_def requireStr_def requireSecret_def GitAuth_zero_def Let_def
        split: if_splits sum.splits)
  then show ?thesis
    using assms(2)
    by (auto simp: authMethod_def io_iffs Let_def split: option.splits if_splits)
qed

theorem resolveGitAuth_never_anonymous_witness:
  "\<exists>auth am. fst (resolveGitAuth ex_env ''prod''
       (Some \<lparr>gas_type = ''Bearer'', gas_secretRef = \<lparr>lsr_name = ''git''\<rparr>\<rparr>) []) = Inr auth
     \<and> fst (authMethod ex_os ex_git auth []) = Inr am \<and> am \<noteq> None"
proof -
  let ?auth = "Some (GitAuth_zero\<lparr>ga_bearer := ''tok''\<rparr>)"
  have tok: "TrimRight_CRLF ''tok'' = ''tok''"
    by code_simp
  have run: "resolveGitAuth ex_env ''prod''
       (Some \<lparr>gas_type = ''Bearer'', gas_secretRef = \<lparr>lsr_name = ''git''\<rparr>\<rparr>) []
     = (Inr ?auth, [CallGetSecret \<lparr>nn_namespace = ''prod'', nn_name = ''git''\<rparr>])"
    by (simp add: resolveGitAuth_def git_auth_of_secret_def requireSecret_def secret_value_def io_defs
        pure_def client_GetSecret_def ex_env_def ex_kube_def ex_secret_def secret_keys go_simps tok Let_def)
  have am: "authMethod ex_os ex_git ?auth [] = (Inr (Some (TokenAuthMethod ''tok'')), [])"
    by (simp add: authMethod_def give_def GitAuth_zero_def)
  show ?thesis
    using resolveGitAuth_never_anonymous [OF run am] run am by auto
qed

text \<open>The messages a resolution can end with once the Secret was read: none has a value of it.\<close>

definition git_auth_errors :: "string \<Rightarrow> string \<Rightarrow> error list" where
  "git_auth_errors secretName ty =
     map (missing_key secretName)
       [secretKeyUsername, secretKeyPassword, secretKeyBearerToken, secretKeyIdentity]
     @ [Errorf (''git auth Secret '' @ secretName @ '' is missing key ''
          @ go_quote secretKeyKnownHosts @ '' (SSH host-key verification is fail-closed)''),
        Errorf (''unknown git auth type '' @ go_quote ty)]"

text \<open>
  C30: No error echoes credentials: when resolving Git auth fails, the error is the API server's answer
  under a prefix or one of six messages made of the Secret's name, a key name and the auth type, fixed
  before the Secret's contents are known.
\<close>

theorem resolveGitAuth_errors_no_secret:
  assumes "resolveGitAuth E ns (Some spec) h = (Inl e, h')"
  shows "(\<exists>e0. e = Wrapf (''get git auth Secret '' @ ns_name ns (lsr_name (gas_secretRef spec))) e0
            \<and> kl_GetSecret (e_kube E) h
                \<lparr>nn_namespace = ns, nn_name = lsr_name (gas_secretRef spec)\<rparr> = Inl e0)
         \<or> e \<in> set (git_auth_errors (ns_name ns (lsr_name (gas_secretRef spec))) (gas_type spec))"
proof -
  have "e \<in> set (git_auth_errors n ty)" if "git_auth_of_secret n sec ty = Inl e" for n sec ty
    using that
    by (auto simp: git_auth_of_secret_def git_auth_errors_def requireStr_def requireSecret_def Let_def
        split: if_splits sum.splits)
  then show ?thesis
    using assms
    by (auto simp: resolveGitAuth_def io_iffs pure_def client_GetSecret_def outside_iff Let_def)
qed

theorem resolveGitAuth_errors_no_secret_witness:
  "\<exists>e. fst (resolveGitAuth ex_env ''prod''
       (Some \<lparr>gas_type = ''Token'', gas_secretRef = \<lparr>lsr_name = ''git''\<rparr>\<rparr>) []) = Inl e
     \<and> e \<in> set (git_auth_errors ''prod/git'' ''Token'')"
proof -
  have run: "resolveGitAuth ex_env ''prod''
       (Some \<lparr>gas_type = ''Token'', gas_secretRef = \<lparr>lsr_name = ''git''\<rparr>\<rparr>) []
     = (Inl (Errorf (''unknown git auth type '' @ go_quote ''Token'')),
        [CallGetSecret \<lparr>nn_namespace = ''prod'', nn_name = ''git''\<rparr>])"
    by (simp add: resolveGitAuth_def git_auth_of_secret_def io_defs pure_def client_GetSecret_def
        ex_env_def ex_kube_def go_simps Let_def)
  show ?thesis
    using resolveGitAuth_errors_no_secret [OF run] run
    by (simp add: ex_env_def ex_kube_def)
qed

text \<open>
  Credentials lose trailing line ends and nothing else. A password or token is its Secret value up
  to a suffix of carriage returns and line feeds, is not empty and does not end in one; SSH keys and
  known hosts are handed on byte for byte, and neither is blank.
\<close>

theorem git_auth_of_secret_values:
  assumes "git_auth_of_secret secretName sec ty = Inr a"
  shows "(\<forall>b. ga_basic a = Some b \<longrightarrow>
            (\<exists>e. set e \<subseteq> {char_of (13::nat), char_of (10::nat)}
               \<and> map_of (sec_data sec) ''password'' = Some (ba_password b @ e))
            \<and> ba_password b \<noteq> []
            \<and> last (ba_password b) \<notin> {char_of (13::nat), char_of (10::nat)})
       \<and> (ga_bearer a \<noteq> [] \<longrightarrow>
            (\<exists>e. set e \<subseteq> {char_of (13::nat), char_of (10::nat)}
               \<and> map_of (sec_data sec) ''bearerToken'' = Some (ga_bearer a @ e))
            \<and> last (ga_bearer a) \<notin> {char_of (13::nat), char_of (10::nat)})
       \<and> (\<forall>s. ga_ssh a = Some s \<longrightarrow>
            map_of (sec_data sec) ''identity'' = Some (ssh_privateKey s)
            \<and> map_of (sec_data sec) ''known_hosts'' = Some (ssh_knownHosts s)
            \<and> TrimSpace (ssh_privateKey s) \<noteq> [] \<and> TrimSpace (ssh_knownHosts s) \<noteq> [])"
proof -
  have stripped: "(\<exists>e. set e \<subseteq> {char_of (13::nat), char_of (10::nat)}
        \<and> map_of (sec_data sec) key = Some (v @ e))
      \<and> v \<noteq> [] \<and> last v \<notin> {char_of (13::nat), char_of (10::nat)}"
    if "requireSecret secretName sec key = Inr v" for key v
  proof -
    have v: "v = TrimRight_CRLF (secret_value sec key)" "v \<noteq> []"
      using that by (simp_all add: requireSecret_def Let_def split: if_splits)
    then obtain w where w: "map_of (sec_data sec) key = Some w" "v = TrimRight_CRLF w" "v \<noteq> []"
      by (cases "map_of (sec_data sec) key") (simp_all add: secret_value_def)
    then show ?thesis
      using TrimRight_CRLF_decomp [of w] TrimRight_CRLF_last [of w] by auto
  qed
  have raw: "map_of (sec_data sec) key = Some (secret_value sec key)"
    if "TrimSpace (secret_value sec key) \<noteq> []" for key
    using that by (cases "map_of (sec_data sec) key") (simp_all add: secret_value_def)
  consider (basic) u p where "requireSecret secretName sec ''password'' = Inr p"
      "a = GitAuth_zero\<lparr>ga_basic := Some \<lparr>ba_username = u, ba_password = p\<rparr>\<rparr>"
    | (bearer) t where "requireSecret secretName sec ''bearerToken'' = Inr t"
      "a = GitAuth_zero\<lparr>ga_bearer := t\<rparr>"
    | (ssh) s where "a = GitAuth_zero\<lparr>ga_ssh := Some s\<rparr>"
      "ssh_privateKey s = secret_value sec ''identity''"
      "ssh_knownHosts s = secret_value sec ''known_hosts''"
      "TrimSpace (secret_value sec ''identity'') \<noteq> []"
      "TrimSpace (secret_value sec ''known_hosts'') \<noteq> []"
    using assms
    by (auto simp: git_auth_of_secret_def secret_keys Let_def split: if_splits sum.splits)
  then show ?thesis
  proof cases
    case basic
    then show ?thesis
      using stripped [OF basic(1)] by (simp add: GitAuth_zero_def)
  next
    case bearer
    then show ?thesis
      using stripped [OF bearer(1)] by (simp add: GitAuth_zero_def)
  next
    case ssh
    then show ?thesis
      by (simp add: GitAuth_zero_def raw)
  qed
qed

theorem git_auth_of_secret_values_witness:
  "\<exists>a. git_auth_of_secret ''prod/git'' ex_secret ''Bearer'' = Inr a
     \<and> (\<exists>e. map_of (sec_data ex_secret) ''bearerToken'' = Some (ga_bearer a @ e))"
proof -
  have "TrimRight_CRLF ''tok'' = ''tok''"
    by code_simp
  then have run: "git_auth_of_secret ''prod/git'' ex_secret ''Bearer''
      = Inr (GitAuth_zero\<lparr>ga_bearer := ''tok''\<rparr>)"
    by (simp add: git_auth_of_secret_def requireSecret_def secret_value_def ex_secret_def secret_keys
        go_simps)
  show ?thesis
    using git_auth_of_secret_values [OF run] run by (auto simp: GitAuth_zero_def)
qed

end
