(* ===== verification/Go_SHA256.thy ===== *)
theory Go_SHA256
  imports Go_Strings
begin

unbundle bit_operations_syntax

text \<open>
  Go's \<open>crypto/sha256\<close> and \<open>encoding/hex\<close> as the drift fingerprint uses them: the SHA-256 of a
  byte string (FIPS 180-4), and the lower-case hexadecimal text of a digest. A 32-bit word is an
  integer in \<open>[0, 2^32)\<close> with the wrap-around written out, so that the kernel evaluates a digest:
  \<open>sha256_abc\<close> does so for the standard's first test vector.
\<close>

type_synonym u32 = int

abbreviation add32 :: "u32 \<Rightarrow> u32 \<Rightarrow> u32" where
  "add32 x y \<equiv> (x + y) mod 4294967296"

text \<open>The round constants and the initial state, in decimal.\<close>

definition sha_K :: "u32 list" where
  "sha_K =
    [1116352408, 1899447441, 3049323471, 3921009573, 961987163, 1508970993, 2453635748, 2870763221,
     3624381080, 310598401, 607225278, 1426881987, 1925078388, 2162078206, 2614888103, 3248222580,
     3835390401, 4022224774, 264347078, 604807628, 770255983, 1249150122, 1555081692, 1996064986,
     2554220882, 2821834349, 2952996808, 3210313671, 3336571891, 3584528711, 113926993, 338241895,
     666307205, 773529912, 1294757372, 1396182291, 1695183700, 1986661051, 2177026350, 2456956037,
     2730485921, 2820302411, 3259730800, 3345764771, 3516065817, 3600352804, 4094571909, 275423344,
     430227734, 506948616, 659060556, 883997877, 958139571, 1322822218, 1537002063, 1747873779,
     1955562222, 2024104815, 2227730452, 2361852424, 2428436474, 2756734187, 3204031479, 3329325298]"

definition sha_H0 :: "u32 list" where
  "sha_H0 =
    [1779033703, 3144134277, 1013904242, 2773480762, 1359893119, 2600822924, 528734635, 1541459225]"

definition rotr32 :: "nat \<Rightarrow> u32 \<Rightarrow> u32" where
  "rotr32 n x = x div 2 ^ n + x mod 2 ^ n * 2 ^ (32 - n)"

definition big_sigma0 :: "u32 \<Rightarrow> u32" where
  "big_sigma0 x = rotr32 2 x XOR rotr32 13 x XOR rotr32 22 x"

definition big_sigma1 :: "u32 \<Rightarrow> u32" where
  "big_sigma1 x = rotr32 6 x XOR rotr32 11 x XOR rotr32 25 x"

definition small_sigma0 :: "u32 \<Rightarrow> u32" where
  "small_sigma0 x = rotr32 7 x XOR rotr32 18 x XOR x div 2 ^ 3"

definition small_sigma1 :: "u32 \<Rightarrow> u32" where
  "small_sigma1 x = rotr32 17 x XOR rotr32 19 x XOR x div 2 ^ 10"

definition sha_Ch :: "u32 \<Rightarrow> u32 \<Rightarrow> u32 \<Rightarrow> u32" where
  "sha_Ch x y z = (x AND y) XOR ((4294967295 - x) AND z)"

definition sha_Maj :: "u32 \<Rightarrow> u32 \<Rightarrow> u32 \<Rightarrow> u32" where
  "sha_Maj x y z = (x AND y) XOR (x AND z) XOR (y AND z)"

subsection \<open>Padding and parsing\<close>

definition be_bytes8 :: "int \<Rightarrow> int list" where
  "be_bytes8 n = map (\<lambda>i. n div 256 ^ (7 - i) mod 256) [0 ..< 8]"

definition sha_pad :: "bytes \<Rightarrow> int list" where
  "sha_pad m =
     map of_char m @ 128 # replicate (nat ((119 - int (length m)) mod 64)) 0
     @ be_bytes8 (8 * int (length m))"

fun words_of_bytes :: "int list \<Rightarrow> u32 list" where
  "words_of_bytes (a # b # c # d # rest) =
     (a * 16777216 + b * 65536 + c * 256 + d) # words_of_bytes rest"
| "words_of_bytes _ = []"

text \<open>The 16-word blocks of the padded message; a shorter rest cannot occur after padding.\<close>

fun blocks16 :: "u32 list \<Rightarrow> u32 list list" where
  "blocks16 (a # b # c # d # e # f # g # h # i # j # k # l # m # n # p # q # rest) =
     [a, b, c, d, e, f, g, h, i, j, k, l, m, n, p, q] # blocks16 rest"
| "blocks16 _ = []"

subsection \<open>The compression function\<close>

text \<open>The message schedule, built newest word first.\<close>

fun sched_ext :: "nat \<Rightarrow> u32 list \<Rightarrow> u32 list" where
  "sched_ext 0 rw = rw"
| "sched_ext (Suc n) rw =
     sched_ext n
       (add32 (small_sigma1 (rw ! 1) + rw ! 6) (small_sigma0 (rw ! 14) + rw ! 15) # rw)"

definition sha_schedule :: "u32 list \<Rightarrow> u32 list" where
  "sha_schedule block = rev (sched_ext 48 (rev block))"

fun sha_round_upd :: "u32 \<Rightarrow> u32 \<Rightarrow> u32 list \<Rightarrow> u32 list" where
  "sha_round_upd t1 t2 [a, b, c, d, e, f, g, h] = [add32 t1 t2, a, b, c, add32 d t1, e, f, g]"
| "sha_round_upd t1 t2 st = st"

fun sha_round :: "u32 \<times> u32 \<Rightarrow> u32 list \<Rightarrow> u32 list" where
  "sha_round (k, w) [a, b, c, d, e, f, g, h] =
     sha_round_upd (add32 (h + big_sigma1 e + sha_Ch e f g) (k + w)) (add32 (big_sigma0 a) (sha_Maj a b c))
       [a, b, c, d, e, f, g, h]"
| "sha_round (k, w) st = st"

fun sha_add :: "u32 list \<Rightarrow> u32 list \<Rightarrow> u32 list" where
  "sha_add (x # xs) (y # ys) = add32 x y # sha_add xs ys"
| "sha_add _ _ = []"

definition sha_compress :: "u32 list \<Rightarrow> u32 list \<Rightarrow> u32 list" where
  "sha_compress block H = sha_add H (fold sha_round (zip sha_K (sha_schedule block)) H)"

definition sha256_words :: "bytes \<Rightarrow> u32 list" where
  "sha256_words m = fold sha_compress (blocks16 (words_of_bytes (sha_pad m))) sha_H0"

subsection \<open>Digest and hexadecimal text\<close>

definition hex_digit :: "int \<Rightarrow> char" where
  "hex_digit d = char_of (if d < 10 then 48 + d else 87 + d)"

definition hex_word :: "u32 \<Rightarrow> string" where
  "hex_word w = map (\<lambda>i. hex_digit (w div 16 ^ (7 - i) mod 16)) [0 ..< 8]"

text \<open>\<open>hex.EncodeToString (sha256.Sum (nil))\<close>\<close>

definition sha256_hex :: "bytes \<Rightarrow> string" where
  "sha256_hex m = concat (map hex_word (sha256_words m))"

lemma length_sha_add [simp]: "length (sha_add xs ys) = min (length xs) (length ys)"
  by (induction xs ys rule: sha_add.induct) simp_all

lemma length_sha_round_upd [simp]: "length (sha_round_upd t1 t2 st) = length st"
  by (induction t1 t2 st rule: sha_round_upd.induct) simp_all

lemma length_sha_round [simp]: "length (sha_round kw st) = length st"
  by (induction kw st rule: sha_round.induct) simp_all

lemma length_fold_sha_round [simp]: "length (fold sha_round kws st) = length st"
  by (induction kws arbitrary: st) simp_all

lemma length_sha_compress [simp]: "length (sha_compress b H) = length H"
  by (simp add: sha_compress_def)

lemma length_fold_sha_compress [simp]: "length (fold sha_compress bs H) = length H"
  by (induction bs arbitrary: H) simp_all

lemma length_sha256_words [simp]: "length (sha256_words m) = 8"
  by (simp add: sha256_words_def) (simp add: sha_H0_def)

lemma length_hex_word [simp]: "length (hex_word w) = 8"
  by (simp add: hex_word_def)

text \<open>A digest is 64 hexadecimal characters, so never the empty string.\<close>

lemma length_sha256_hex: "length (sha256_hex m) = 64"
proof -
  have "length (concat (map hex_word ws)) = 8 * length ws" for ws
    by (induction ws) simp_all
  then show ?thesis
    by (simp add: sha256_hex_def)
qed

lemma sha256_hex_nonempty [simp]: "sha256_hex m \<noteq> []"
  using length_sha256_hex [of m] by auto

lemma sha256_abc:
  "sha256_hex ''abc'' = ''ba7816bf8f01cfea414140de5dae2223b00361a396177a9cb410ff61f20015ad''"
  by code_simp

end
