(* ===== verification/Drift_Notify.thy ===== *)
theory Drift_Notify
  imports Source_Config Go_SHA256
begin

text \<open>
  \<open>internal/controller/notify.go\<close>: the fingerprint of the drift set, the event built from the status,
  the resolution of a webhook's URL and the delivery loop with its at-least-once bookkeeping in
  \<open>status.lastNotifiedHash\<close>.
\<close>

subsection \<open>Fingerprint\<close>

text \<open>\<open>s.Changed + s.New + s.Deleted\<close>, in 64 bits.\<close>

definition driftCount :: "DriftSummary \<Rightarrow> go_int" where
  "driftCount s = sum_changed s + sum_new s + sum_deleted s"

definition drift_key :: "DriftedResource \<Rightarrow> string" where
  "drift_key d =
     dr_apiVersion d @ ''|'' @ dr_kind d @ ''|'' @ dr_namespace d @ ''|'' @ dr_name d @ ''|''
     @ dr_status d"

text \<open>The bytes written to the hash: each sorted key, then a zero byte.\<close>

definition drift_preimage :: "DriftedResource list \<Rightarrow> bytes" where
  "drift_preimage drifted =
     concat (map (\<lambda>k. k @ [char_of (0::nat)]) (sort_Strings (map drift_key drifted)))"

definition driftHash :: "DriftedResource list \<Rightarrow> string" where
  "driftHash drifted = sha256_hex (drift_preimage drifted)"

subsection \<open>Event\<close>

definition notify_resource :: "DriftedResource \<Rightarrow> NResource" where
  "notify_resource d =
     \<lparr>nr_apiVersion = dr_apiVersion d, nr_kind = dr_kind d, nr_name = dr_name d,
      nr_namespace = dr_namespace d, nr_status = dr_status d\<rparr>"

definition buildEvent :: "DriftCheck \<Rightarrow> bool \<Rightarrow> Event" where
  "buildEvent dc resolved =
     (let s = st_summary (dc_status dc) in
      \<lparr>ev_name = dc_name dc, ev_namespace = dc_namespace dc,
       ev_summary = \<lparr>nsum_changed = sum_changed s, nsum_new = sum_new s,
                     nsum_deleted = sum_deleted s, nsum_unchanged = sum_unchanged s\<rparr>,
       ev_drifted = (if \<not> resolved then map notify_resource (st_driftedResources (dc_status dc))
                     else []),
       ev_resolved = resolved\<rparr>)"

subsection \<open>Webhook URL\<close>

definition resolveWebhookURL :: "env \<Rightarrow> string \<Rightarrow> WebhookSpec \<Rightarrow> string eio" where
  "resolveWebhookURL E ns wh =
     (case wh_urlSecretRef wh of
        Some ref \<Rightarrow>
          try_bind (wrap_err (''get Secret '' @ ns_name ns (skr_name ref))
                      (client_GetSecret (e_kube E) \<lparr>nn_namespace = ns, nn_name = skr_name ref\<rparr>))
            (\<lambda>sec.
               case map_of (sec_data sec) (skr_key ref) of
                 None \<Rightarrow> fail (Errorf (''key '' @ go_quote (skr_key ref) @ '' not found in Secret ''
                                  @ ns_name ns (skr_name ref)))
               | Some v \<Rightarrow>
                   (let url = TrimSpace v in
                    if url = [] then
                      fail (Errorf (''secret '' @ ns_name ns (skr_name ref) @ '' key ''
                              @ go_quote (skr_key ref) @ '' is empty''))
                    else give url))
      | None \<Rightarrow>
          if wh_url wh = [] then fail (Errorf ''webhook has neither url nor urlSecretRef'')
          else give (wh_url wh))"

subsection \<open>Delivery\<close>

definition record_event ::
    "Reconciler \<Rightarrow> DriftCheck \<Rightarrow> string \<Rightarrow> string \<Rightarrow> string \<Rightarrow> unit io" where
  "record_event r dc eventType reason message h =
     (case r_Recorder r of
        None \<Rightarrow> ((), h)
      | Some _ \<Rightarrow>
          outside (CallEvent \<lparr>nn_namespace = dc_namespace dc, nn_name = dc_name dc\<rparr>
                     eventType reason message) (\<lambda>_. ()) h)"

definition notify_failed :: "Reconciler \<Rightarrow> DriftCheck \<Rightarrow> error \<Rightarrow> unit io" where
  "notify_failed r dc err = record_event r dc ''Warning'' ''NotifyFailed'' (err_text err)"

text \<open>One webhook: resolve its URL, send the event. \<open>Inl\<close> is the error that marks the run failed.\<close>

definition deliver ::
    "env \<Rightarrow> DriftCheck \<Rightarrow> Notifier \<Rightarrow> Event \<Rightarrow> WebhookSpec \<Rightarrow> unit eio" where
  "deliver E dc send ev wh =
     try_bind (resolveWebhookURL E (dc_namespace dc) wh)
       (\<lambda>url.
          (let target = \<lparr>webhook_type = wh_type wh, webhook_url = url\<rparr> in
           entering (CallSend target ev) (send target ev)))"

text \<open>The loop over the webhooks, with its \<open>failed\<close> flag.\<close>

fun notify_loop ::
    "env \<Rightarrow> Reconciler \<Rightarrow> DriftCheck \<Rightarrow> Notifier \<Rightarrow> Event \<Rightarrow> WebhookSpec list \<Rightarrow> bool \<Rightarrow> bool io"
    where
  "notify_loop E r dc send ev [] failed h = (failed, h)"
| "notify_loop E r dc send ev (wh # whs) failed h =
     (case deliver E dc send ev wh h of
        (Inl err, h1) \<Rightarrow>
          (case notify_failed r dc err h1 of
             (_, h2) \<Rightarrow> notify_loop E r dc send ev whs True h2)
      | (Inr _, h1) \<Rightarrow> notify_loop E r dc send ev whs failed h1)"

definition notifier_or_default :: "env \<Rightarrow> Reconciler \<Rightarrow> Notifier" where
  "notifier_or_default E r =
     (case r_Notifier r of None \<Rightarrow> Sender_Send (e_http E) NewSender | Some n \<Rightarrow> n)"

definition set_notified :: "string \<Rightarrow> DriftCheck \<Rightarrow> DriftCheck" where
  "set_notified hash dc = dc\<lparr>dc_status := (dc_status dc)\<lparr>st_lastNotifiedHash := hash\<rparr>\<rparr>"

text \<open>The result is the error, or the DriftCheck as \<open>notify\<close> leaves it.\<close>

definition notify :: "env \<Rightarrow> Reconciler \<Rightarrow> DriftCheck \<Rightarrow> DriftCheck eio" where
  "notify E r dc h =
     (case spec_notify (dc_spec dc) of
        None \<Rightarrow> (Inr dc, h)
      | Some nt \<Rightarrow>
          if length (ns_webhooks nt) = 0 then (Inr dc, h)
          else
            (let hash = driftHash (st_driftedResources (dc_status dc)) in
             if hash = st_lastNotifiedHash (dc_status dc) then (Inr dc, h)
             else
               (let resolved = (driftCount (st_summary (dc_status dc)) = 0) in
                if resolved \<and> st_lastNotifiedHash (dc_status dc) = [] then (Inr dc, h)
                else
                  (let ev = buildEvent dc resolved in
                   case notify_loop E r dc (notifier_or_default E r) ev (ns_webhooks nt) False h of
                     (failed, h1) \<Rightarrow>
                       if failed then (Inr dc, h1)
                       else client_StatusUpdate (e_kube E) (set_notified hash dc) h1))))"

subsection \<open>Keys and their preimage\<close>

lemma driftHash_nonempty [simp]: "driftHash ds \<noteq> []"
  by (simp add: driftHash_def)

lemma drift_preimage_mset: "mset ds = mset ds' \<Longrightarrow> drift_preimage ds = drift_preimage ds'"
  unfolding drift_preimage_def sort_Strings_def by (metis mset_map sort_mset_eq)

text \<open>
  A drifted resource whose key can be read back: no field has the separators that end it. A name
  may hold a \<open>|\<close> (names of RBAC objects may), since only the last \<open>|\<close> ends it.
\<close>

definition nul :: char where
  "nul = char_of (0::nat)"

definition readable :: "DriftedResource \<Rightarrow> bool" where
  "readable d \<longleftrightarrow>
     CHR ''|'' \<notin> set (dr_apiVersion d @ dr_kind d @ dr_namespace d @ dr_status d)
     \<and> nul \<notin> set (drift_key d)"

lemma drift_key_inj:
  assumes "readable d" "readable e" "drift_key d = drift_key e"
  shows "d = e"
proof -
  have api: "dr_apiVersion d = dr_apiVersion e"
    and r1: "dr_kind d @ CHR ''|'' # dr_namespace d @ CHR ''|'' # dr_name d @ CHR ''|'' # dr_status d
      = dr_kind e @ CHR ''|'' # dr_namespace e @ CHR ''|'' # dr_name e @ CHR ''|'' # dr_status e"
    using assms split_first [of "dr_apiVersion d" "CHR ''|''"
        "dr_kind d @ CHR ''|'' # dr_namespace d @ CHR ''|'' # dr_name d @ CHR ''|'' # dr_status d"
        "dr_apiVersion e"
        "dr_kind e @ CHR ''|'' # dr_namespace e @ CHR ''|'' # dr_name e @ CHR ''|'' # dr_status e"]
    by (simp_all add: drift_key_def readable_def)
  have kind: "dr_kind d = dr_kind e"
    and r2: "dr_namespace d @ CHR ''|'' # dr_name d @ CHR ''|'' # dr_status d
      = dr_namespace e @ CHR ''|'' # dr_name e @ CHR ''|'' # dr_status e"
    using split_first [OF r1] assms(1,2) by (auto simp: readable_def)
  have ns: "dr_namespace d = dr_namespace e"
    and r3: "dr_name d @ CHR ''|'' # dr_status d = dr_name e @ CHR ''|'' # dr_status e"
    using split_first [OF r2] assms(1,2) by (auto simp: readable_def)
  have "dr_name d = dr_name e \<and> dr_status d = dr_status e"
    using split_last [OF r3] assms(1,2) by (auto simp: readable_def)
  then show ?thesis
    using api kind ns by simp
qed

lemma drift_preimage_inj:
  assumes "list_all readable ds" "list_all readable ds'" "drift_preimage ds = drift_preimage ds'"
  shows "mset ds = mset ds'"
proof -
  let ?k = "\<lambda>xs. sort (map drift_key xs)"
  have "?k ds = ?k ds'"
  proof (rule terminated_concat_inj [where z = nul])
    show "concat (map (\<lambda>w. w @ [nul]) (?k ds)) = concat (map (\<lambda>w. w @ [nul]) (?k ds'))"
      using assms(3) by (simp add: drift_preimage_def sort_Strings_def nul_def)
  qed (use assms(1,2) in \<open>auto simp: list_all_iff readable_def\<close>)
  then have keys: "image_mset drift_key (mset ds) = image_mset drift_key (mset ds')"
    by (metis mset_map mset_sort)
  have "inj_on drift_key {d. readable d}"
    using drift_key_inj by (auto simp: inj_on_def)
  then show ?thesis
    by (rule image_mset_inj_on) (use assms(1,2) keys in \<open>auto simp: list_all_iff\<close>)
qed

subsection \<open>Which calls are made\<close>

text \<open>\<open>secrets_in ns c\<close>: if \<open>c\<close> reads a Secret, it is one of the namespace \<open>ns\<close>.\<close>

fun secrets_in :: "string \<Rightarrow> call \<Rightarrow> bool" where
  "secrets_in ns (CallGetSecret n) \<longleftrightarrow> nn_namespace n = ns"
| "secrets_in ns _ \<longleftrightarrow> True"

text \<open>What a notification may do: read Secrets, record events, send; not one status write.\<close>

fun notify_call :: "call \<Rightarrow> bool" where
  "notify_call (CallGetDriftCheck n) = False"
| "notify_call (CallGetConfigMap n) = False"
| "notify_call (CallStatusUpdate d) = False"
| "notify_call (CallGaugeSet ls v) = False"
| "notify_call (CallGaugeDelete ps) = False"
| "notify_call _ = True"

lemma notify_call_if_delivery: "delivery_call c \<Longrightarrow> notify_call c"
  by (cases c) simp_all

lemma adds_only_client_GetSecret:
  "P (CallGetSecret n) \<Longrightarrow> adds_only P (client_GetSecret k n)"
  by (simp add: client_GetSecret_def adds_only_outside)

text \<open>The Secret a webhook names, if it names one.\<close>

definition webhook_refs :: "string \<Rightarrow> WebhookSpec \<Rightarrow> NamespacedName list" where
  "webhook_refs ns wh =
     (case wh_urlSecretRef wh of
        None \<Rightarrow> []
      | Some ref \<Rightarrow> [\<lparr>nn_namespace = ns, nn_name = skr_name ref\<rparr>])"

lemma webhook_refs_namespace: "n \<in> set (webhook_refs ns wh) \<Longrightarrow> nn_namespace n = ns"
  by (auto simp: webhook_refs_def split: option.splits)

lemma adds_only_resolveWebhookURL:
  assumes "\<And>n. n \<in> set (webhook_refs ns wh) \<Longrightarrow> P (CallGetSecret n)"
  shows "adds_only P (resolveWebhookURL E ns wh)"
proof (cases "wh_urlSecretRef wh")
  case None
  then show ?thesis
    unfolding resolveWebhookURL_def by (simp add: adds_only_give adds_only_fail)
next
  case (Some ref)
  then have "P (CallGetSecret \<lparr>nn_namespace = ns, nn_name = skr_name ref\<rparr>)"
    using assms by (simp add: webhook_refs_def)
  then show ?thesis
    unfolding resolveWebhookURL_def Some option.case Let_def
    by (intro quiet adds_only_client_GetSecret)
qed

lemma adds_only_record_event:
  "P (CallEvent \<lparr>nn_namespace = dc_namespace dc, nn_name = dc_name dc\<rparr> ty reason msg) \<Longrightarrow>
   adds_only P (record_event r dc ty reason msg)"
  by (rule adds_onlyI) (auto simp: record_event_def outside_def split: option.split)

lemma adds_only_deliver:
  assumes "\<And>n. n \<in> set (webhook_refs (dc_namespace dc) wh) \<Longrightarrow> P (CallGetSecret n)"
    and "\<And>wh. P (CallSend wh ev)" "\<And>wh. adds_only P (send wh ev)"
  shows "adds_only P (deliver E dc send ev wh)"
  unfolding deliver_def Let_def
  by (intro quiet adds_only_resolveWebhookURL assms)

lemma notify_loop_Cons:
  "notify_loop E r dc send ev (wh # whs) failed h =
     (let (res, h1) = deliver E dc send ev wh h in
      notify_loop E r dc send ev whs (failed \<or> isl res)
        (case res of Inl err \<Rightarrow> snd (notify_failed r dc err h1) | Inr _ \<Rightarrow> h1))"
  by (auto split: prod.splits sum.splits)

lemma adds_only_notify_loop:
  assumes "\<And>wh n. wh \<in> set whs \<Longrightarrow> n \<in> set (webhook_refs (dc_namespace dc) wh) \<Longrightarrow> P (CallGetSecret n)"
    and "\<And>wh. P (CallSend wh ev)" "\<And>wh. adds_only P (send wh ev)"
    and "\<And>ty reason msg. P (CallEvent \<lparr>nn_namespace = dc_namespace dc, nn_name = dc_name dc\<rparr> ty reason msg)"
  shows "adds_only P (notify_loop E r dc send ev whs failed)"
  using assms(1)
proof (induction whs arbitrary: failed)
  case Nil
  show ?case
    by (rule adds_onlyI) simp
next
  case (Cons wh whs)
  have rest: "adds_only P (notify_loop E r dc send ev whs failed)" for failed
    by (rule Cons.IH) (rule Cons.prems, simp_all)
  show ?case
  proof (rule adds_onlyI)
    fix h
    obtain res h1 where d: "deliver E dc send ev wh h = (res, h1)"
      by fastforce
    have "adds_only P (deliver E dc send ev wh)"
      by (rule adds_only_deliver) (use Cons.prems assms(2,3) in auto)
    then obtain t1 where t1: "h1 = h @ t1" "list_all P t1"
      using d by (rule adds_only_snd)
    define h2 where "h2 = (case res of Inl err \<Rightarrow> snd (notify_failed r dc err h1) | Inr _ \<Rightarrow> h1)"
    have "\<exists>t2. h2 = h1 @ t2 \<and> list_all P t2"
    proof (cases res)
      case (Inl err)
      then show ?thesis
        using adds_only_record_event [of P] assms(4)
        by (auto simp: h2_def notify_failed_def adds_only_def)
    qed (simp add: h2_def)
    then obtain t2 where t2: "h2 = h1 @ t2" "list_all P t2"
      by blast
    obtain t3 where "snd (notify_loop E r dc send ev whs (failed \<or> isl res) h2) = h2 @ t3"
        "list_all P t3"
      using rest by (rule adds_onlyE)
    then show "\<exists>t. snd (notify_loop E r dc send ev (wh # whs) failed h) = h @ t \<and> list_all P t"
      using t1 t2 d by (auto simp: notify_loop_Cons h2_def simp del: notify_loop.simps)
  qed
qed

subsection \<open>The deliveries of one notification\<close>

text \<open>The outcome of each webhook, in order: a failure is recorded as an event before the next one.\<close>

fun deliveries ::
    "env \<Rightarrow> Reconciler \<Rightarrow> DriftCheck \<Rightarrow> Notifier \<Rightarrow> Event \<Rightarrow> WebhookSpec list \<Rightarrow> history
     \<Rightarrow> (error + unit) list" where
  "deliveries E r dc send ev [] h = []"
| "deliveries E r dc send ev (wh # whs) h =
     (let (res, h1) = deliver E dc send ev wh h in
      res # deliveries E r dc send ev whs
              (case res of Inl err \<Rightarrow> snd (notify_failed r dc err h1) | Inr _ \<Rightarrow> h1))"

lemma notify_loop_failed:
  "fst (notify_loop E r dc send ev whs failed h)
     \<longleftrightarrow> failed \<or> \<not> list_all (\<lambda>x. \<not> isl x) (deliveries E r dc send ev whs h)"
proof (induction whs arbitrary: failed h)
  case (Cons wh whs)
  show ?case
    unfolding notify_loop_Cons deliveries.simps
    by (auto simp: Cons.IH Let_def split: prod.split)
qed simp

lemma length_deliveries [simp]: "length (deliveries E r dc send ev whs h) = length whs"
  by (induction whs arbitrary: h) (simp_all split: prod.split)

text \<open>When a notification is due: the drift set changed, and it is no first report without drift.\<close>

definition notification_due :: "DriftCheck \<Rightarrow> bool" where
  "notification_due dc \<longleftrightarrow>
     (\<exists>nt. spec_notify (dc_spec dc) = Some nt \<and> ns_webhooks nt \<noteq> [])
     \<and> driftHash (st_driftedResources (dc_status dc)) \<noteq> st_lastNotifiedHash (dc_status dc)
     \<and> \<not> (driftCount (st_summary (dc_status dc)) = 0 \<and> st_lastNotifiedHash (dc_status dc) = [])"

definition dc_webhooks :: "DriftCheck \<Rightarrow> WebhookSpec list" where
  "dc_webhooks dc =
     (case spec_notify (dc_spec dc) of None \<Rightarrow> [] | Some nt \<Rightarrow> ns_webhooks nt)"

abbreviation dc_event :: "DriftCheck \<Rightarrow> Event" where
  "dc_event dc \<equiv> buildEvent dc (driftCount (st_summary (dc_status dc)) = 0)"

abbreviation notify_run :: "env \<Rightarrow> Reconciler \<Rightarrow> DriftCheck \<Rightarrow> bool io" where
  "notify_run E r dc \<equiv>
     notify_loop E r dc (notifier_or_default E r) (dc_event dc) (dc_webhooks dc) False"

lemma notify_not_due: "\<not> notification_due dc \<Longrightarrow> notify E r dc h = (Inr dc, h)"
  by (auto simp: notification_due_def notify_def Let_def split: option.split)

lemma notify_due:
  assumes "notification_due dc"
  shows "notify E r dc h =
    (let (failed, h1) = notify_run E r dc h in
     if failed then (Inr dc, h1)
     else client_StatusUpdate (e_kube E)
            (set_notified (driftHash (st_driftedResources (dc_status dc))) dc) h1)"
  using assms by (auto simp: notification_due_def notify_def dc_webhooks_def Let_def)

fun event_call :: "call \<Rightarrow> bool" where
  "event_call (CallEvent n ty reason msg) = True"
| "event_call _ = False"

fun send_call :: "call \<Rightarrow> bool" where
  "send_call (CallSend wh ev) = True"
| "send_call _ = False"

fun status_call :: "call \<Rightarrow> bool" where
  "status_call (CallStatusUpdate d) = True"
| "status_call _ = False"

definition failed_events :: "Reconciler \<Rightarrow> DriftCheck \<Rightarrow> (error + unit) list \<Rightarrow> call list" where
  "failed_events r dc ds =
     (if r_Recorder r = None then []
      else map (\<lambda>e. CallEvent \<lparr>nn_namespace = dc_namespace dc, nn_name = dc_name dc\<rparr>
                      ''Warning'' ''NotifyFailed'' (err_text e))
             (map projl (filter isl ds)))"

definition inline_url :: "WebhookSpec \<Rightarrow> bool" where
  "inline_url wh \<longleftrightarrow> wh_urlSecretRef wh = None \<and> wh_url wh \<noteq> []"

definition send_to :: "Event \<Rightarrow> WebhookSpec \<Rightarrow> call" where
  "send_to ev wh = CallSend \<lparr>webhook_type = wh_type wh, webhook_url = wh_url wh\<rparr> ev"

text \<open>
  The URL of a webhook from \<open>h\<close> on: the inline one, or that of a Secret that stays readable with its
  value.
\<close>

definition url_resolves :: "env \<Rightarrow> string \<Rightarrow> WebhookSpec \<Rightarrow> history \<Rightarrow> string \<Rightarrow> bool" where
  "url_resolves E ns wh h url \<longleftrightarrow> (\<forall>t. fst (resolveWebhookURL E ns wh (h @ t)) = Inr url)"

lemma url_resolves_now: "url_resolves E ns wh h url \<Longrightarrow> fst (resolveWebhookURL E ns wh h) = Inr url"
  unfolding url_resolves_def by (metis append_Nil2)

lemma url_resolves_later: "url_resolves E ns wh h url \<Longrightarrow> url_resolves E ns wh (h @ t) url"
  by (simp add: url_resolves_def)

definition send_at :: "Event \<Rightarrow> WebhookSpec \<Rightarrow> string \<Rightarrow> call" where
  "send_at ev wh url = CallSend \<lparr>webhook_type = wh_type wh, webhook_url = url\<rparr> ev"

context notifier
begin

lemma send_silent:
  assumes "\<And>c. P c \<Longrightarrow> \<not> delivery_call c"
  shows "\<exists>t. snd (send wh ev h) = h @ t \<and> filter P t = []"
proof -
  obtain t where "snd (send wh ev h) = h @ t" "list_all delivery_call t"
    using send_calls by (rule adds_onlyE)
  moreover from this(2) have "filter P t = []"
    by (rule list_all_filter_none) (use assms in blast)
  ultimately show ?thesis
    by blast
qed

lemma deliver_calls:
  "\<exists>t. snd (deliver E dc send ev wh h) = h @ t \<and> filter event_call t = []
     \<and> filter status_call t = [] \<and> (inline_url wh \<longrightarrow> filter send_call t = [send_to ev wh])"
proof -
  have "adds_only (\<lambda>c. \<not> event_call c \<and> \<not> status_call c) (send wh ev)" for wh
    by (rule adds_only_mono [OF send_calls]) (erule delivery_call.elims; simp)
  then have quiet: "adds_only (\<lambda>c. \<not> event_call c \<and> \<not> status_call c) (deliver E dc send ev wh)"
    by (intro adds_only_deliver) simp_all
  obtain t where t: "snd (deliver E dc send ev wh h) = h @ t"
      "list_all (\<lambda>c. \<not> event_call c \<and> \<not> status_call c) t"
    using quiet by (rule adds_onlyE)
  have "filter send_call t = [send_to ev wh]" if inline: "inline_url wh"
  proof -
    let ?wh = "\<lparr>webhook_type = wh_type wh, webhook_url = wh_url wh\<rparr>"
    have not_delivery: "send_call c \<Longrightarrow> \<not> delivery_call c" for c
      by (cases c) simp_all
    obtain u where u: "snd (send ?wh ev (h @ [CallSend ?wh ev])) = (h @ [CallSend ?wh ev]) @ u"
        "filter send_call u = []"
      using send_silent [where P = send_call and wh = ?wh and ev = ev and h = "h @ [CallSend ?wh ev]"]
        not_delivery by blast
    have "snd (deliver E dc send ev wh h) = snd (send ?wh ev (h @ [CallSend ?wh ev]))"
      using inline
      by (simp add: deliver_def resolveWebhookURL_def inline_url_def io_defs Let_def)
    then have "t = CallSend ?wh ev # u"
      using t(1) u(1) by simp
    then show ?thesis
      using u(2) by (simp add: send_to_def)
  qed
  moreover have "filter event_call t = []" "filter status_call t = []"
    using t(2) by (auto intro!: list_all_filter_none)
  ultimately show ?thesis
    using t(1) by blast
qed

text \<open>A webhook whose URL can be resolved is sent the event, wherever its URL is kept.\<close>

lemma deliver_sends:
  assumes "fst (resolveWebhookURL E (dc_namespace dc) wh h) = Inr url"
  shows "\<exists>t. snd (deliver E dc send ev wh h) = h @ t \<and> send_at ev wh url \<in> set t"
proof -
  obtain h1 where r: "resolveWebhookURL E (dc_namespace dc) wh h = (Inr url, h1)"
    using assms by (cases "resolveWebhookURL E (dc_namespace dc) wh h") simp
  have "adds_only (\<lambda>c. True) (resolveWebhookURL E (dc_namespace dc) wh)"
    by (rule adds_only_resolveWebhookURL) simp
  from adds_only_snd [OF this r] obtain t1 where t1: "h1 = h @ t1"
    by blast
  let ?wh = "\<lparr>webhook_type = wh_type wh, webhook_url = url\<rparr>"
  obtain u where "snd (send ?wh ev (h1 @ [CallSend ?wh ev])) = (h1 @ [CallSend ?wh ev]) @ u"
    using send_calls by (rule adds_onlyE)
  then have "snd (deliver E dc send ev wh h) = h @ (t1 @ CallSend ?wh ev # u)"
    using r t1 by (simp add: deliver_def io_defs Let_def)
  then show ?thesis
    by (intro exI [of _ "t1 @ CallSend ?wh ev # u"]) (simp add: send_at_def)
qed

lemma notify_loop_sends:
  "\<exists>t. snd (notify_loop E r dc send ev whs failed h) = h @ t
     \<and> (\<forall>wh \<in> set whs. \<forall>url. url_resolves E (dc_namespace dc) wh h url \<longrightarrow> send_at ev wh url \<in> set t)"
proof (induction whs arbitrary: failed h)
  case Nil
  show ?case by simp
next
  case (Cons wh whs)
  obtain res h1 where d: "deliver E dc send ev wh h = (res, h1)"
    by fastforce
  obtain t1 where t1: "h1 = h @ t1"
    using deliver_calls [of E dc ev wh h] d by auto
  define t2 where "t2 = (case res of Inl err \<Rightarrow> failed_events r dc [Inl err] | Inr _ \<Rightarrow> [])"
  have h2: "(case res of Inl err \<Rightarrow> snd (notify_failed r dc err h1) | Inr _ \<Rightarrow> h1) = h @ t1 @ t2"
    by (cases res; cases "r_Recorder r")
      (simp_all add: t1 t2_def notify_failed_def record_event_def failed_events_def outside_def)
  obtain t3 where t3: "snd (notify_loop E r dc send ev whs (failed \<or> isl res) (h @ t1 @ t2)) = (h @ t1 @ t2) @ t3"
      "\<forall>wh \<in> set whs. \<forall>url. url_resolves E (dc_namespace dc) wh (h @ t1 @ t2) url \<longrightarrow> send_at ev wh url \<in> set t3"
    using Cons.IH by blast
  have run: "snd (notify_loop E r dc send ev (wh # whs) failed h) = h @ t1 @ t2 @ t3"
    unfolding notify_loop_Cons d Let_def prod.case h2 t3(1) by simp
  have "send_at ev wh url \<in> set t1" if "url_resolves E (dc_namespace dc) wh h url" for url
    using deliver_sends [OF url_resolves_now [OF that], of ev] d t1 by auto
  then show ?case
    using t3(2) url_resolves_later unfolding run by (intro exI [of _ "t1 @ t2 @ t3"]) fastforce
qed

lemma notify_loop_calls:
  "\<exists>t. snd (notify_loop E r dc send ev whs failed h) = h @ t
     \<and> filter status_call t = []
     \<and> filter event_call t = failed_events r dc (deliveries E r dc send ev whs h)
     \<and> (list_all inline_url whs \<longrightarrow> filter send_call t = map (send_to ev) whs)
     \<and> (\<forall>wh \<in> set whs. inline_url wh \<longrightarrow> send_to ev wh \<in> set t)"
proof (induction whs arbitrary: failed h)
  case Nil
  show ?case
    by (simp add: failed_events_def)
next
  case (Cons wh whs)
  obtain res h1 where d: "deliver E dc send ev wh h = (res, h1)"
    by fastforce
  obtain t1 where t1: "h1 = h @ t1" "filter event_call t1 = []" "filter status_call t1 = []"
      "inline_url wh \<longrightarrow> filter send_call t1 = [send_to ev wh]"
    using deliver_calls [of E dc ev wh h] d by auto
  define t2 where "t2 = (case res of Inl err \<Rightarrow> failed_events r dc [Inl err] | Inr _ \<Rightarrow> [])"
  have h2: "(case res of Inl err \<Rightarrow> snd (notify_failed r dc err h1) | Inr _ \<Rightarrow> h1) = h1 @ t2"
    by (cases res; cases "r_Recorder r")
      (simp_all add: t2_def notify_failed_def record_event_def failed_events_def outside_def)
  obtain t3 where t3: "snd (notify_loop E r dc send ev whs (failed \<or> isl res) (h1 @ t2)) = (h1 @ t2) @ t3"
      "filter status_call t3 = []"
      "filter event_call t3 = failed_events r dc (deliveries E r dc send ev whs (h1 @ t2))"
      "list_all inline_url whs \<longrightarrow> filter send_call t3 = map (send_to ev) whs"
      "\<forall>wh \<in> set whs. inline_url wh \<longrightarrow> send_to ev wh \<in> set t3"
    using Cons.IH by blast
  have run: "snd (notify_loop E r dc send ev (wh # whs) failed h) = h @ t1 @ t2 @ t3"
    unfolding notify_loop_Cons d Let_def prod.case h2 t3(1) by (simp add: t1(1))
  have ds: "deliveries E r dc send ev (wh # whs) h = res # deliveries E r dc send ev whs (h1 @ t2)"
    using d h2 by simp
  have "filter status_call t2 = []" "filter send_call t2 = []" "filter event_call t2 = t2"
    "failed_events r dc (res # ds) = t2 @ failed_events r dc ds" for ds
    by (cases res; simp add: t2_def failed_events_def)+
  moreover have "send_to ev wh \<in> set t1" if "inline_url wh"
    using t1(4) that filter_is_subset [of send_call t1] by simp
  ultimately show ?case
    using t1(2-4) t3(2-5) unfolding run ds by (intro exI [of _ "t1 @ t2 @ t3"]) auto
qed

end

text \<open>An HTTP sender keeps the contract, so only an injected notifier has to be trusted with it.\<close>

definition notifier_ok :: "Reconciler \<Rightarrow> bool" where
  "notifier_ok r \<longleftrightarrow> (\<forall>n. r_Notifier r = Some n \<longrightarrow> notifier n)"

lemma notifier_or_default_ok: "notifier_ok r \<Longrightarrow> notifier (notifier_or_default E r)"
  by (auto simp: notifier_ok_def notifier_or_default_def http_sender.notifier_axioms
      split: option.split)

lemma notify_due_calls:
  assumes "notification_due dc" "notifier_ok r"
  shows "\<exists>t. snd (notify E r dc h) = h @ t
    \<and> filter status_call t =
        (if list_all (\<lambda>x. \<not> isl x) (deliveries E r dc (notifier_or_default E r) (dc_event dc)
              (dc_webhooks dc) h)
         then [CallStatusUpdate (set_notified (driftHash (st_driftedResources (dc_status dc))) dc)]
         else [])
    \<and> filter event_call t = failed_events r dc
        (deliveries E r dc (notifier_or_default E r) (dc_event dc) (dc_webhooks dc) h)
    \<and> (list_all inline_url (dc_webhooks dc) \<longrightarrow>
         filter send_call t = map (send_to (dc_event dc)) (dc_webhooks dc))
    \<and> (\<forall>wh \<in> set (dc_webhooks dc). inline_url wh \<longrightarrow> send_to (dc_event dc) wh \<in> set t)"
proof -
  let ?ds = "deliveries E r dc (notifier_or_default E r) (dc_event dc) (dc_webhooks dc) h"
  let ?upd = "CallStatusUpdate (set_notified (driftHash (st_driftedResources (dc_status dc))) dc)"
  obtain t where t: "snd (notify_run E r dc h) = h @ t" "filter status_call t = []"
      "filter event_call t = failed_events r dc ?ds"
      "list_all inline_url (dc_webhooks dc) \<longrightarrow>
         filter send_call t = map (send_to (dc_event dc)) (dc_webhooks dc)"
      "\<forall>wh \<in> set (dc_webhooks dc). inline_url wh \<longrightarrow> send_to (dc_event dc) wh \<in> set t"
    using notifier.notify_loop_calls [OF notifier_or_default_ok [OF assms(2)]] by blast
  have failed: "fst (notify_run E r dc h) \<longleftrightarrow> \<not> list_all (\<lambda>x. \<not> isl x) ?ds"
    by (simp add: notify_loop_failed)
  have run: "snd (notify E r dc h) = (if list_all (\<lambda>x. \<not> isl x) ?ds then (h @ t) @ [?upd] else h @ t)"
    using t(1) failed
    by (auto simp: notify_due [OF assms(1)] client_StatusUpdate_def outside_def Let_def
        split: prod.splits)
  show ?thesis
    using t(2-5) unfolding run
    by (intro exI [of _ "if list_all (\<lambda>x. \<not> isl x) ?ds then t @ [?upd] else t"]) simp
qed

lemma notify_due_sends:
  assumes "notification_due dc" "notifier_ok r" "snd (notify E r dc h) = h @ t"
    and "wh \<in> set (dc_webhooks dc)" "url_resolves E (dc_namespace dc) wh h url"
  shows "send_at (dc_event dc) wh url \<in> set t"
proof -
  obtain u where u: "snd (notify_run E r dc h) = h @ u" "send_at (dc_event dc) wh url \<in> set u"
    using notifier.notify_loop_sends [OF notifier_or_default_ok [OF assms(2)]] assms(4,5) by blast
  then have "\<exists>v. snd (notify E r dc h) = (h @ u) @ v"
    by (auto simp: notify_due [OF assms(1)] client_StatusUpdate_def outside_def Let_def split: prod.splits)
  then show ?thesis
    using assms(3) u(2) by auto
qed

lemma notify_undelivered:
  assumes "notification_due dc"
    and "\<not> list_all (\<lambda>x. \<not> isl x)
           (deliveries E r dc (notifier_or_default E r) (dc_event dc) (dc_webhooks dc) h)"
  shows "fst (notify E r dc h) = Inr dc"
  using assms(2) notify_loop_failed [of E r dc "notifier_or_default E r" "dc_event dc" "dc_webhooks dc" False h]
  by (auto simp: notify_due [OF assms(1)] Let_def split: prod.split)

subsection \<open>Properties\<close>

definition drift_a :: "string \<Rightarrow> DriftedResource" where
  "drift_a n =
     \<lparr>dr_apiVersion = ''v1'', dr_kind = ''ConfigMap'', dr_name = n, dr_namespace = ''prod'',
      dr_status = ''changed''\<rparr>"

text \<open>A DriftCheck with one drifted resource and one webhook, and a reconciler without injections.\<close>

definition ex_reconciler :: Reconciler where
  "ex_reconciler =
     \<lparr>r_Fetcher = Some (\<lambda>a k ns n. give VNil), r_Metrics = Some (), r_GitCloner = None,
      r_Notifier = None, r_Recorder = Some ()\<rparr>"

definition ex_drifted :: DriftCheck where
  "ex_drifted = ex_dc\<lparr>dc_status := ex_status\<lparr>st_driftedResources := [drift_a ''x''],
     st_summary := \<lparr>sum_changed = 1, sum_new = 0, sum_deleted = 0, sum_unchanged = 0\<rparr>\<rparr>\<rparr>"

lemma ex_reconciler_notifier: "notifier_ok ex_reconciler"
  by (simp add: notifier_ok_def ex_reconciler_def)

lemma ex_drifted_due: "notification_due ex_drifted"
  by (simp add: notification_due_def ex_drifted_def ex_dc_def ex_status_def driftCount_def)

lemma ex_drifted_webhooks: "dc_webhooks ex_drifted = [ex_webhook]"
  by (simp add: dc_webhooks_def ex_drifted_def ex_dc_def)

lemma ex_drifted_resources: "st_driftedResources (dc_status ex_drifted) = [drift_a ''x'']"
  by (simp add: ex_drifted_def)

lemma ex_drifted_delivered:
  "deliveries ex_env ex_reconciler ex_drifted (notifier_or_default ex_env ex_reconciler)
     (dc_event ex_drifted) [ex_webhook] h = [Inr ()]"
  by (simp add: deliver_def resolveWebhookURL_def ex_webhook_def io_defs pure_def payload_def
      notifier_or_default_def ex_reconciler_def Sender_Send_def NewSender_def http_Do_def ex_env_def
      ex_http_def go_simps Let_def)

text \<open>
  The fingerprint does not depend on the order in which the engine reports the drifted resources.
\<close>

theorem driftHash_order:
  assumes "mset ds = mset ds'"
  shows "driftHash ds = driftHash ds'"
  unfolding driftHash_def drift_preimage_mset [OF assms] ..

theorem driftHash_order_witness:
  "driftHash (map drift_a [''x'', ''y'']) = driftHash (map drift_a [''y'', ''x''])"
  by (rule driftHash_order) (simp add: add_mset_commute)

text \<open>
  C12: The fingerprint tells drift sets of valid Kubernetes objects apart. Among drift sets whose
  resources have no \<open>|\<close> outside the name and no zero byte, as the API server enforces, and whose
  preimages SHA-256 does not confuse, equal fingerprints mean the same resources with the same
  statuses, in any order, so that deduplication never swallows a change of such a set.
\<close>

theorem driftHash_determines_drift:
  assumes "inj_on sha256_hex (drift_preimage ` S)" "\<forall>ds \<in> S. list_all readable ds"
    and "ds \<in> S" "ds' \<in> S"
  shows "driftHash ds = driftHash ds' \<longleftrightarrow> mset ds = mset ds'"
proof
  assume "driftHash ds = driftHash ds'"
  then have "drift_preimage ds = drift_preimage ds'"
    using assms(1,3,4) by (auto simp: driftHash_def dest: inj_onD)
  then show "mset ds = mset ds'"
    using assms(2-4) by (intro drift_preimage_inj) auto
next
  assume "mset ds = mset ds'"
  from drift_preimage_mset [OF this] show "driftHash ds = driftHash ds'"
    by (simp add: driftHash_def)
qed

lemma drift_a_hash: "sha256_hex (drift_preimage [drift_a ''x'']) \<noteq> sha256_hex (drift_preimage [])"
  by code_simp

theorem driftHash_determines_drift_witness:
  "driftHash [drift_a ''x''] = driftHash [] \<longleftrightarrow> mset [drift_a ''x''] = mset []"
proof (rule driftHash_determines_drift)
  show "inj_on sha256_hex (drift_preimage ` {[drift_a ''x''], []})"
    using drift_a_hash by (auto simp: inj_on_def)
  show "\<forall>ds \<in> {[drift_a ''x''], []}. list_all readable ds"
    by (simp add: drift_a_def readable_def drift_key_def nul_def char_of_def)
qed simp_all

text \<open>
  C40: The separator is not escaped. A source may hold manifests that no API server has validated, and
  then a resource with a \<open>|\<close> in its namespace and another one with it in its name, with everything
  else the same, have one fingerprint, whatever SHA-256 does: when the report changes from the one to
  the other after the first was announced, no webhook hears of it.
\<close>

theorem separator_swallows_change:
  fixes dc ds api kind a b c st
  defines "d \<equiv> \<lparr>dr_apiVersion = api, dr_kind = kind, dr_name = c, dr_namespace = a @ ''|'' @ b, dr_status = st\<rparr>"
    and "d' \<equiv> \<lparr>dr_apiVersion = api, dr_kind = kind, dr_name = b @ ''|'' @ c, dr_namespace = a, dr_status = st\<rparr>"
  assumes "st_lastNotifiedHash (dc_status dc) = driftHash (d # ds)"
    and "st_driftedResources (dc_status dc) = d' # ds"
  shows "mset (d # ds) \<noteq> mset (d' # ds) \<and> notify E r dc h = (Inr dc, h)"
proof -
  have "drift_key d = drift_key d'"
    by (simp add: drift_key_def d_def d'_def)
  then have "driftHash (d # ds) = driftHash (d' # ds)"
    by (simp add: driftHash_def drift_preimage_def)
  then have "notify E r dc h = (Inr dc, h)"
    using assms(3,4) by (intro notify_not_due) (simp add: notification_due_def)
  moreover have "d \<noteq> d'"
    by (simp add: d_def d'_def)
  ultimately show ?thesis
    by simp
qed

definition ex_piped :: "string \<Rightarrow> string \<Rightarrow> DriftedResource" where
  "ex_piped ns n =
     \<lparr>dr_apiVersion = ''v1'', dr_kind = ''ConfigMap'', dr_name = n, dr_namespace = ns, dr_status = ''new''\<rparr>"

theorem separator_swallows_change_witness:
  "\<exists>dc. st_lastNotifiedHash (dc_status dc) = driftHash [ex_piped ''a|b'' ''c'']
     \<and> st_driftedResources (dc_status dc) = [ex_piped ''a'' ''b|c'']
     \<and> dc_webhooks dc \<noteq> [] \<and> notify ex_env ex_reconciler dc [] = (Inr dc, [])"
proof -
  define dc where "dc = ex_drifted\<lparr>dc_status := (dc_status ex_drifted)
    \<lparr>st_lastNotifiedHash := driftHash [ex_piped ''a|b'' ''c''], st_driftedResources := [ex_piped ''a'' ''b|c'']\<rparr>\<rparr>"
  have dc: "st_lastNotifiedHash (dc_status dc) = driftHash [ex_piped ''a|b'' ''c'']"
      "st_driftedResources (dc_status dc) = [ex_piped ''a'' ''b|c'']" "dc_webhooks dc \<noteq> []"
    by (simp_all add: dc_def dc_webhooks_def ex_drifted_def ex_dc_def)
  then have "notify ex_env ex_reconciler dc [] = (Inr dc, [])"
    using separator_swallows_change [of dc "''v1''" "''ConfigMap''" "''c''" "''a''" "''b''" "''new''" "[]" ex_env ex_reconciler "[]"]
    by (simp add: ex_piped_def)
  then show ?thesis
    using dc by blast
qed

text \<open>
  A notification that is not due does nothing at all: no webhook, no unchanged drift set and no
  first report without drift leads to a call of any kind.
\<close>

theorem notify_silent:
  assumes "dc_webhooks dc = []
    \<or> driftHash (st_driftedResources (dc_status dc)) = st_lastNotifiedHash (dc_status dc)
    \<or> driftCount (st_summary (dc_status dc)) = 0 \<and> st_lastNotifiedHash (dc_status dc) = []"
  shows "notify E r dc h = (Inr dc, h)"
  using assms
  by (intro notify_not_due) (auto simp: notification_due_def dc_webhooks_def)

theorem notify_silent_witness: "notify ex_env ex_reconciler ex_dc [] = (Inr ex_dc, [])"
  by (rule notify_silent) (simp add: ex_dc_def ex_status_def driftCount_def)

text \<open>
  Every webhook is attempted, in order, whatever the earlier ones answered: the sends of a due
  notification are one per configured webhook, all with the same event.
\<close>

theorem notify_attempts_every_webhook:
  assumes "notification_due dc" "notifier_ok r" "list_all inline_url (dc_webhooks dc)"
  shows "\<exists>t. snd (notify E r dc h) = h @ t
    \<and> filter send_call t = map (send_to (dc_event dc)) (dc_webhooks dc)"
  using notify_due_calls [OF assms(1,2)] assms(3) by meson

theorem notify_attempts_every_webhook_witness:
  "\<exists>t. snd (notify ex_env ex_reconciler ex_drifted []) = t
    \<and> filter send_call t = [send_to (dc_event ex_drifted) ex_webhook]"
  using notify_attempts_every_webhook [OF ex_drifted_due ex_reconciler_notifier, of ex_env "[]"]
  by (simp add: ex_drifted_webhooks inline_url_def ex_webhook_def)

text \<open>
  Delivery is at least once. A due notification writes the status exactly once, with the new
  fingerprint, if every webhook was delivered; if one failed it writes nothing and keeps the old
  fingerprint, so the next run sends again.
\<close>

theorem notify_marks_iff_delivered:
  assumes "notification_due dc" "notifier_ok r"
  shows "\<exists>t. snd (notify E r dc h) = h @ t
    \<and> (if list_all (\<lambda>x. \<not> isl x) (deliveries E r dc (notifier_or_default E r) (dc_event dc)
              (dc_webhooks dc) h)
       then filter status_call t
              = [CallStatusUpdate (set_notified (driftHash (st_driftedResources (dc_status dc))) dc)]
       else filter status_call t = [] \<and> fst (notify E r dc h) = Inr dc)"
proof -
  let ?ds = "deliveries E r dc (notifier_or_default E r) (dc_event dc) (dc_webhooks dc) h"
  obtain t where "snd (notify E r dc h) = h @ t"
      "filter status_call t = (if list_all (\<lambda>x. \<not> isl x) ?ds
         then [CallStatusUpdate (set_notified (driftHash (st_driftedResources (dc_status dc))) dc)] else [])"
    using notify_due_calls [OF assms] by blast
  then show ?thesis
    using notify_undelivered [OF assms(1)] by (intro exI [of _ t]) simp
qed

theorem notify_marks_iff_delivered_witness:
  "\<exists>t. snd (notify ex_env ex_reconciler ex_drifted []) = t
    \<and> (if list_all (\<lambda>x. \<not> isl x) (deliveries ex_env ex_reconciler ex_drifted
              (notifier_or_default ex_env ex_reconciler) (dc_event ex_drifted) [ex_webhook] [])
       then filter status_call t
              = [CallStatusUpdate (set_notified (driftHash [drift_a ''x'']) ex_drifted)]
       else filter status_call t = [] \<and> fst (notify ex_env ex_reconciler ex_drifted []) = Inr ex_drifted)"
  using notify_marks_iff_delivered [OF ex_drifted_due ex_reconciler_notifier, of ex_env "[]"]
  by (simp add: ex_drifted_webhooks ex_drifted_resources)

text \<open>
  Every failed delivery is surfaced: with an event recorder, a due notification records one
  \<open>NotifyFailed\<close> warning on the DriftCheck per failed webhook, in order and with its error, and no
  other event.
\<close>

theorem notify_failed_surfaced:
  assumes "notification_due dc" "notifier_ok r"
  shows "\<exists>t. snd (notify E r dc h) = h @ t
    \<and> filter event_call t = failed_events r dc
        (deliveries E r dc (notifier_or_default E r) (dc_event dc) (dc_webhooks dc) h)"
  using notify_due_calls [OF assms] by meson

theorem notify_failed_surfaced_witness:
  "\<exists>t. snd (notify ex_env ex_reconciler ex_drifted []) = t
    \<and> filter event_call t = failed_events ex_reconciler ex_drifted
        (deliveries ex_env ex_reconciler ex_drifted (notifier_or_default ex_env ex_reconciler)
          (dc_event ex_drifted) [ex_webhook] [])"
  using notify_failed_surfaced [OF ex_drifted_due ex_reconciler_notifier, of ex_env "[]"]
  by (simp add: ex_drifted_webhooks)

text \<open>
  C4: What a due notification does. Every webhook is tried, whatever the others answered, with the one
  event that describes the stored status; each failure is recorded as a \<open>NotifyFailed\<close> event with its
  error, in order, and there is no other event; and the new fingerprint is written, in one status
  write, exactly if every webhook was delivered, so that after a failure the next run sends again.
\<close>

theorem notify_contract:
  assumes "notification_due dc" "notifier_ok r"
  shows "\<exists>t. snd (notify E r dc h) = h @ t
    \<and> (\<forall>wh \<in> set (dc_webhooks dc). inline_url wh \<longrightarrow> send_to (dc_event dc) wh \<in> set t)
    \<and> (list_all inline_url (dc_webhooks dc) \<longrightarrow>
         filter send_call t = map (send_to (dc_event dc)) (dc_webhooks dc))
    \<and> filter event_call t = failed_events r dc
        (deliveries E r dc (notifier_or_default E r) (dc_event dc) (dc_webhooks dc) h)
    \<and> (if list_all (\<lambda>x. \<not> isl x) (deliveries E r dc (notifier_or_default E r) (dc_event dc)
              (dc_webhooks dc) h)
       then filter status_call t
              = [CallStatusUpdate (set_notified (driftHash (st_driftedResources (dc_status dc))) dc)]
       else filter status_call t = [] \<and> fst (notify E r dc h) = Inr dc)"
proof -
  let ?ds = "deliveries E r dc (notifier_or_default E r) (dc_event dc) (dc_webhooks dc) h"
  obtain t where "snd (notify E r dc h) = h @ t"
      "\<forall>wh \<in> set (dc_webhooks dc). inline_url wh \<longrightarrow> send_to (dc_event dc) wh \<in> set t"
      "list_all inline_url (dc_webhooks dc) \<longrightarrow>
         filter send_call t = map (send_to (dc_event dc)) (dc_webhooks dc)"
      "filter event_call t = failed_events r dc ?ds"
      "filter status_call t = (if list_all (\<lambda>x. \<not> isl x) ?ds
         then [CallStatusUpdate (set_notified (driftHash (st_driftedResources (dc_status dc))) dc)] else [])"
    using notify_due_calls [OF assms] by blast
  then show ?thesis
    using notify_undelivered [OF assms(1)] by (intro exI [of _ t]) simp
qed

theorem notify_contract_witness:
  "\<exists>t. snd (notify ex_env ex_reconciler ex_drifted []) = t
    \<and> filter send_call t = [send_to (dc_event ex_drifted) ex_webhook]
    \<and> filter event_call t = []
    \<and> filter status_call t = [CallStatusUpdate (set_notified (driftHash [drift_a ''x'']) ex_drifted)]"
proof -
  have "list_all (\<lambda>x. \<not> isl x) [Inr () :: error + unit]"
    by simp
  then show ?thesis
    using notify_contract [OF ex_drifted_due ex_reconciler_notifier, of ex_env "[]"]
    unfolding ex_drifted_webhooks ex_drifted_delivered ex_drifted_resources
    by (simp add: inline_url_def ex_webhook_def failed_events_def)
qed

text \<open>
  A delivered drift set is announced once. If the API server stores the status it is sent, then
  after a run in which every webhook was delivered a further run on the DriftCheck it returned makes
  no call at all.
\<close>

theorem notify_deduplicates:
  assumes "notification_due dc" "notify E r dc h = (Inr dc', h')"
    and "list_all (\<lambda>x. \<not> isl x) (deliveries E r dc (notifier_or_default E r) (dc_event dc)
           (dc_webhooks dc) h)"
    and "\<forall>h d d'. kl_StatusUpdate (e_kube E) h d = Inr d' \<longrightarrow> dc_status d' = dc_status d"
  shows "notify E r dc' k = (Inr dc', k)"
proof -
  have "\<not> fst (notify_run E r dc h)"
    using assms(3) by (simp add: notify_loop_failed)
  then obtain h1 where "client_StatusUpdate (e_kube E)
      (set_notified (driftHash (st_driftedResources (dc_status dc))) dc) h1 = (Inr dc', h')"
    using assms(2) by (auto simp: notify_due [OF assms(1)] Let_def split: prod.splits)
  then have "dc_status dc'
      = dc_status (set_notified (driftHash (st_driftedResources (dc_status dc))) dc)"
    using assms(4) by (auto simp: client_StatusUpdate_def outside_iff)
  then have "driftHash (st_driftedResources (dc_status dc')) = st_lastNotifiedHash (dc_status dc')"
    by (simp add: set_notified_def)
  then show ?thesis
    by (intro notify_not_due) (simp add: notification_due_def)
qed

theorem notify_deduplicates_witness:
  "\<exists>dc'. fst (notify ex_env ex_reconciler ex_drifted []) = Inr dc'
     \<and> notify ex_env ex_reconciler dc' [] = (Inr dc', [])"
proof -
  let ?dc = "set_notified (driftHash [drift_a ''x'']) ex_drifted"
  have "\<not> fst (notify_run ex_env ex_reconciler ex_drifted [])"
    by (simp add: notify_loop_failed ex_drifted_webhooks ex_drifted_delivered del: deliveries.simps
        notify_loop.simps)
  then have "fst (notify ex_env ex_reconciler ex_drifted []) = Inr ?dc"
    by (auto simp: notify_due [OF ex_drifted_due] ex_drifted_resources client_StatusUpdate_def
        outside_def ex_env_def ex_kube_def Let_def split: prod.split)
  then have run: "notify ex_env ex_reconciler ex_drifted []
      = (Inr ?dc, snd (notify ex_env ex_reconciler ex_drifted []))"
    by (metis prod.collapse)
  have "notify ex_env ex_reconciler ?dc [] = (Inr ?dc, [])"
  proof (rule notify_deduplicates [OF ex_drifted_due run])
    show "\<forall>h d d'. kl_StatusUpdate (e_kube ex_env) h d = Inr d' \<longrightarrow> dc_status d' = dc_status d"
      by (simp add: ex_env_def ex_kube_def)
  qed (simp add: ex_drifted_webhooks ex_drifted_delivered del: deliveries.simps
        notify_loop.simps)
  then show ?thesis
    using run by (metis fst_conv)
qed

text \<open>
  A webhook with a \<open>urlSecretRef\<close> is sent to the URL of that Secret only. The inline URL has no
  influence, the Secret is read in the DriftCheck's namespace, and the URL used is its trimmed value
  at the referenced key, never blank.
\<close>

theorem resolveWebhookURL_secret:
  "resolveWebhookURL E ns \<lparr>wh_type = ty, wh_url = u, wh_urlSecretRef = Some ref\<rparr> h = (Inr url, h')
   \<longleftrightarrow> (\<exists>sec v. kl_GetSecret (e_kube E) h \<lparr>nn_namespace = ns, nn_name = skr_name ref\<rparr> = Inr sec
          \<and> map_of (sec_data sec) (skr_key ref) = Some v \<and> url = TrimSpace v \<and> url \<noteq> []
          \<and> h' = h @ [CallGetSecret \<lparr>nn_namespace = ns, nn_name = skr_name ref\<rparr>])"
  by (auto simp: resolveWebhookURL_def io_iffs client_GetSecret_def outside_iff Let_def
      split: option.splits if_splits)

end
