(* ===== verification/Drift_Reconcile.thy ===== *)
theory Drift_Reconcile
  imports Drift_Notify
begin

text \<open>
  \<open>internal/controller/driftcheck_controller.go\<close>: one run of \<open>Reconcile\<close>. The returned pair is Go's
  \<open>(ctrl.Result, error)\<close>. The DriftCheck the handler mutates is passed along as a value; the second
  half, from the engine's results on, is \<open>evaluated\<close>.
\<close>

subsection \<open>Summary of a comparison\<close>

definition DriftSummary_zero :: DriftSummary where
  "DriftSummary_zero = \<lparr>sum_changed = 0, sum_new = 0, sum_deleted = 0, sum_unchanged = 0\<rparr>"

definition drifted_of_result :: "DiffResult \<Rightarrow> DriftedResource" where
  "drifted_of_result res =
     \<lparr>dr_apiVersion = dres_apiVersion res, dr_kind = dres_kind res, dr_name = dres_name res,
      dr_namespace = dres_namespace res, dr_status = dres_status res\<rparr>"

text \<open>The loop, with its two accumulators; the default case of the \<open>switch\<close> continues.\<close>

fun summarize_loop ::
    "kd_lib \<Rightarrow> DiffResult list \<Rightarrow> DriftedResource list \<Rightarrow> DriftSummary
     \<Rightarrow> DriftedResource list \<times> DriftSummary" where
  "summarize_loop kd [] drifted s = (drifted, s)"
| "summarize_loop kd (res # results) drifted s =
     (if dres_status res = kd_StatusChanged kd then
        summarize_loop kd results (drifted @ [drifted_of_result res])
          (s\<lparr>sum_changed := sum_changed s + 1\<rparr>)
      else if dres_status res = kd_StatusNew kd then
        summarize_loop kd results (drifted @ [drifted_of_result res])
          (s\<lparr>sum_new := sum_new s + 1\<rparr>)
      else if dres_status res = kd_StatusDeleted kd then
        summarize_loop kd results (drifted @ [drifted_of_result res])
          (s\<lparr>sum_deleted := sum_deleted s + 1\<rparr>)
      else summarize_loop kd results drifted (s\<lparr>sum_unchanged := sum_unchanged s + 1\<rparr>))"

definition summarize :: "kd_lib \<Rightarrow> DiffResult list \<Rightarrow> DriftedResource list \<times> DriftSummary" where
  "summarize kd results = summarize_loop kd results [] DriftSummary_zero"

subsection \<open>Results and conditions\<close>

record CtrlResult =
  requeueAfter :: go_int

definition CtrlResult_zero :: CtrlResult where
  "CtrlResult_zero = \<lparr>requeueAfter = 0\<rparr>"

text \<open>Five minutes, in nanoseconds.\<close>

definition defaultInterval :: go_int where
  "defaultInterval = 300000000000"

text \<open>A composite literal leaves the transition time zero.\<close>

definition ready_condition :: "string \<Rightarrow> string \<Rightarrow> string \<Rightarrow> go_int \<Rightarrow> Condition" where
  "ready_condition status reason message generation =
     \<lparr>cond_type = ''Ready'', cond_status = status, cond_observedGeneration = generation,
      cond_lastTransitionTime = None, cond_reason = reason, cond_message = message\<rparr>"

definition set_condition :: "kube_lib \<Rightarrow> history \<Rightarrow> Condition \<Rightarrow> DriftCheck \<Rightarrow> DriftCheck" where
  "set_condition k h c dc =
     dc\<lparr>dc_status := (dc_status dc)\<lparr>st_conditions :=
          kl_SetStatusCondition k h (st_conditions (dc_status dc)) c\<rparr>\<rparr>"

definition markNotReady :: "env \<Rightarrow> DriftCheck \<Rightarrow> string \<Rightarrow> error \<Rightarrow> DriftCheck eio" where
  "markNotReady E dc reason cause h =
     client_StatusUpdate (e_kube E)
       (set_condition (e_kube E) h
          (ready_condition ConditionFalse reason (err_text cause) (dc_generation dc)) dc) h"

type_synonym reconcile_result = "CtrlResult \<times> error option"

definition permanentFail ::
    "env \<Rightarrow> Reconciler \<Rightarrow> DriftCheck \<Rightarrow> go_int \<Rightarrow> string \<Rightarrow> error \<Rightarrow> reconcile_result io" where
  "permanentFail E r dc interval reason cause h =
     (case Recorder_Delete (r_Metrics r) (dc_name dc) (dc_namespace dc) h of
        (_, h1) \<Rightarrow>
          (case markNotReady E dc reason cause h1 of
             (Inl err, h2) \<Rightarrow> ((CtrlResult_zero, Some err), h2)
           | (Inr _, h2) \<Rightarrow> ((\<lparr>requeueAfter = interval\<rparr>, None), h2)))"

subsection \<open>Reconcile\<close>

definition evaluated_message :: "DriftSummary \<Rightarrow> string" where
  "evaluated_message s =
     go_decimal (sum_changed s) @ '' changed, '' @ go_decimal (sum_new s) @ '' new, ''
       @ go_decimal (sum_deleted s) @ '' deleted''"

text \<open>The DriftCheck as it is written after a comparison.\<close>

definition evaluated_status :: "env \<Rightarrow> history \<Rightarrow> DriftCheck \<Rightarrow> DiffResult list \<Rightarrow> DriftCheck" where
  "evaluated_status E h dc results =
     (case summarize (e_kd E) results of
        (drifted, s) \<Rightarrow>
          (let dc1 = dc\<lparr>dc_status := (dc_status dc)
                 \<lparr>st_driftedResources := drifted, st_summary := s,
                  st_lastCheckedAt := Some (kl_Now (e_kube E) h),
                  st_observedGeneration := dc_generation dc\<rparr>\<rparr>
           in set_condition (e_kube E) h
                (ready_condition ConditionTrue ''DriftEvaluated'' (evaluated_message s)
                   (dc_generation dc)) dc1))"

definition evaluated ::
    "env \<Rightarrow> Reconciler \<Rightarrow> DriftCheck \<Rightarrow> go_int \<Rightarrow> DiffResult list \<Rightarrow> reconcile_result io" where
  "evaluated E r dc interval results h =
     (case client_StatusUpdate (e_kube E) (evaluated_status E h dc results) h of
        (Inl err, h1) \<Rightarrow> ((CtrlResult_zero, Some err), h1)
      | (Inr dc1, h1) \<Rightarrow>
          (let s = st_summary (dc_status dc1) in
           case RecordDrift (r_Metrics r) (dc_name dc1) (dc_namespace dc1)
                  (sum_changed s) (sum_new s) (sum_deleted s) (sum_unchanged s) h1 of
             (_, h2) \<Rightarrow>
               (case notify E r dc1 h2 of
                  (Inl err, h3) \<Rightarrow> ((CtrlResult_zero, Some err), h3)
                | (Inr _, h3) \<Rightarrow> ((\<lparr>requeueAfter = interval\<rparr>, None), h3))))"

definition effective_interval :: "DriftCheck \<Rightarrow> go_int" where
  "effective_interval dc =
     (if sint (spec_interval (dc_spec dc)) \<le> 0 then defaultInterval
      else spec_interval (dc_spec dc))"

definition Reconcile :: "env \<Rightarrow> Reconciler \<Rightarrow> NamespacedName \<Rightarrow> reconcile_result io" where
  "Reconcile E r req h =
     (case client_GetDriftCheck (e_kube E) req h of
        (Inl err, h1) \<Rightarrow>
          if kl_IsNotFound (e_kube E) err then
            (case Recorder_Delete (r_Metrics r) (nn_name req) (nn_namespace req) h1 of
               (_, h2) \<Rightarrow> ((CtrlResult_zero, None), h2))
          else ((CtrlResult_zero, Some err), h1)
      | (Inr dc, h1) \<Rightarrow>
          (let interval = effective_interval dc in
           case r_Fetcher r of
             None \<Rightarrow>
               permanentFail E r dc interval ''NoFetcher''
                 (Errorf ''cluster fetcher is not configured'') h1
           | Some fetch \<Rightarrow>
               (case buildSource E r dc h1 of
                  (Inl err, h2) \<Rightarrow> permanentFail E r dc interval ''SourceError'' err h2
                | (Inr src, h2) \<Rightarrow>
                    (case applyTarget (e_kube E) src (spec_target (dc_spec dc)) of
                       Inl err \<Rightarrow> permanentFail E r dc interval ''InvalidTarget'' err h2
                     | Inr src' \<Rightarrow>
                         (case kd_Run (e_kd E) (source_Load E src') fetch h2 of
                            (Inl err, h3) \<Rightarrow>
                              if kl_IsForbidden (e_kube E) err \<or> kl_IsUnauthorized (e_kube E) err
                              then permanentFail E r dc interval ''FetchError'' err h3
                              else
                                (case markNotReady E dc ''CompareError'' err h3 of
                                   (_, h4) \<Rightarrow> ((CtrlResult_zero, Some err), h4))
                          | (Inr results, h3) \<Rightarrow> evaluated E r dc interval results h3)))))"

subsection \<open>Abstract specification: decide, then act\<close>

text \<open>
  What one run concludes about its DriftCheck, and what it then does about it. \<open>decide\<close> only reads;
  \<open>perform\<close> writes. \<open>Reconcile\<close> refines their composition.
\<close>

datatype verdict =
    Gone
  | Unreadable error
  | Permanent DriftCheck string error
  | Transient DriftCheck error
  | Compared DriftCheck "DiffResult list"

definition verdict_of_run :: "kube_lib \<Rightarrow> DriftCheck \<Rightarrow> error + DiffResult list \<Rightarrow> verdict" where
  "verdict_of_run k dc run =
     (case run of
        Inl err \<Rightarrow>
          if kl_IsForbidden k err \<or> kl_IsUnauthorized k err
          then Permanent dc ''FetchError'' err else Transient dc err
      | Inr results \<Rightarrow> Compared dc results)"

definition evaluate :: "env \<Rightarrow> Reconciler \<Rightarrow> DriftCheck \<Rightarrow> verdict io" where
  "evaluate E r dc h =
     (case r_Fetcher r of
        None \<Rightarrow> (Permanent dc ''NoFetcher'' (Errorf ''cluster fetcher is not configured''), h)
      | Some fetch \<Rightarrow>
          (case buildSource E r dc h of
             (Inl err, h1) \<Rightarrow> (Permanent dc ''SourceError'' err, h1)
           | (Inr src, h1) \<Rightarrow>
               (case applyTarget (e_kube E) src (spec_target (dc_spec dc)) of
                  Inl err \<Rightarrow> (Permanent dc ''InvalidTarget'' err, h1)
                | Inr src' \<Rightarrow>
                    (let (run, h2) = kd_Run (e_kd E) (source_Load E src') fetch h1 in
                     (verdict_of_run (e_kube E) dc run, h2)))))"

definition decide :: "env \<Rightarrow> Reconciler \<Rightarrow> NamespacedName \<Rightarrow> verdict io" where
  "decide E r req h =
     (case client_GetDriftCheck (e_kube E) req h of
        (Inl err, h1) \<Rightarrow> (if kl_IsNotFound (e_kube E) err then Gone else Unreadable err, h1)
      | (Inr dc, h1) \<Rightarrow> evaluate E r dc h1)"

fun perform :: "env \<Rightarrow> Reconciler \<Rightarrow> NamespacedName \<Rightarrow> verdict \<Rightarrow> reconcile_result io" where
  "perform E r req Gone h =
     ((CtrlResult_zero, None), snd (Recorder_Delete (r_Metrics r) (nn_name req) (nn_namespace req) h))"
| "perform E r req (Unreadable err) h = ((CtrlResult_zero, Some err), h)"
| "perform E r req (Permanent dc reason cause) h =
     permanentFail E r dc (effective_interval dc) reason cause h"
| "perform E r req (Transient dc err) h =
     ((CtrlResult_zero, Some err), snd (markNotReady E dc ''CompareError'' err h))"
| "perform E r req (Compared dc results) h =
     evaluated E r dc (effective_interval dc) results h"

lemma Reconcile_perform:
  "Reconcile E r req h = (let (v, h1) = decide E r req h in perform E r req v h1)"
  by (simp add: Reconcile_def decide_def evaluate_def verdict_of_run_def Let_def
      split: prod.split sum.split option.split)

subsection \<open>Which calls are made\<close>

text \<open>The calls that someone outside the process can see the effect of.\<close>

fun visible :: "call \<Rightarrow> bool" where
  "visible (CallStatusUpdate d) = True"
| "visible (CallGaugeSet ls v) = True"
| "visible (CallGaugeDelete ps) = True"
| "visible (CallEvent n ty reason msg) = True"
| "visible (CallSend wh ev) = True"
| "visible (CallHTTPPost tm u hs b) = True"
| "visible _ = False"

definition fetcher_ok :: "Reconciler \<Rightarrow> bool" where
  "fetcher_ok r \<longleftrightarrow>
     (\<forall>f. r_Fetcher r = Some f \<longrightarrow> (\<forall>a k ns n. adds_only source_call (f a k ns n)))"

text \<open>The engine makes no call of its own: it loads the source and fetches live objects.\<close>

definition engine_ok :: "env \<Rightarrow> bool" where
  "engine_ok E \<longleftrightarrow>
     (\<forall>load f. adds_only source_call load \<longrightarrow> (\<forall>a k ns n. adds_only source_call (f a k ns n)) \<longrightarrow>
        adds_only source_call (kd_Run (e_kd E) load f))"

definition wiring_ok :: "env \<Rightarrow> Reconciler \<Rightarrow> bool" where
  "wiring_ok E r \<longleftrightarrow> clone_ok (r_GitCloner r) \<and> fetcher_ok r \<and> engine_ok E \<and> notifier_ok r"

lemma adds_only_run:
  assumes "wiring_ok E r" "r_Fetcher r = Some f" "source_ok src"
  shows "adds_only source_call (kd_Run (e_kd E) (source_Load E src) f)"
  using assms source_Load_calls [OF assms(3), of E]
  by (simp add: wiring_ok_def engine_ok_def fetcher_ok_def)

lemma adds_only_evaluate:
  assumes "wiring_ok E r" "adds_only P (buildSource E r dc)" "\<And>c. source_call c \<Longrightarrow> P c"
  shows "adds_only P (evaluate E r dc)"
proof (rule adds_onlyI)
  fix h
  obtain res h1 where b: "buildSource E r dc h = (res, h1)"
    by fastforce
  then obtain t1 where t1: "h1 = h @ t1" "list_all P t1"
    by (rule adds_only_snd [OF assms(2)])
  show "\<exists>t. snd (evaluate E r dc h) = h @ t \<and> list_all P t"
  proof (cases "\<exists>f src src'. r_Fetcher r = Some f \<and> res = Inr src
      \<and> applyTarget (e_kube E) src (spec_target (dc_spec dc)) = Inr src'")
    case True
    then obtain f src src' where s: "r_Fetcher r = Some f" "res = Inr src"
        "applyTarget (e_kube E) src (spec_target (dc_spec dc)) = Inr src'"
      by blast
    then have "source_ok src'"
      using b assms(1) buildSource_ok applyTarget_ok by (metis wiring_ok_def)
    then obtain t2 where "snd (kd_Run (e_kd E) (source_Load E src') f h1) = h1 @ t2"
        "list_all source_call t2"
      using adds_only_run [OF assms(1) s(1)] by (metis adds_onlyE)
    moreover from this(2) have "list_all P t2"
      using assms(3) by (auto simp: list_all_iff)
    ultimately show ?thesis
      using b s t1 by (auto simp: evaluate_def Let_def split: prod.split)
  next
    case False
    then show ?thesis
      using b t1 by (auto simp: evaluate_def split: option.split sum.split)
  qed
qed

lemma source_not_visible: "source_call c \<Longrightarrow> \<not> visible c"
  by (cases c) simp_all

lemma config_not_visible: "config_call c \<Longrightarrow> \<not> visible c"
  by (cases c) simp_all

lemma status_visible: "status_call c \<Longrightarrow> visible c"
  by (cases c) simp_all

lemma gauge_visible: "gauge_call c \<Longrightarrow> visible c"
  by (cases c) simp_all

lemma decide_adds:
  assumes "wiring_ok E r" "decide E r req h = (v, h1)"
    and "\<And>dc. kl_GetDriftCheck (e_kube E) h req = Inr dc \<Longrightarrow> adds_only P (buildSource E r dc)"
    and "P (CallGetDriftCheck req)" "\<And>c. source_call c \<Longrightarrow> P c"
  shows "\<exists>t. h1 = h @ t \<and> list_all P t"
proof (cases "kl_GetDriftCheck (e_kube E) h req")
  case (Inl e)
  then show ?thesis
    using assms(2,4) by (auto simp: decide_def client_GetDriftCheck_def outside_def)
next
  case (Inr dc)
  let ?g = "CallGetDriftCheck req"
  have "evaluate E r dc (h @ [?g]) = (v, h1)"
    using assms(2) Inr by (simp add: decide_def client_GetDriftCheck_def outside_def)
  moreover have "adds_only P (evaluate E r dc)"
    by (rule adds_only_evaluate [OF assms(1) assms(3) [OF Inr] assms(5)])
  ultimately obtain t where "h1 = (h @ [?g]) @ t" "list_all P t"
    by (metis adds_only_snd)
  then show ?thesis
    using assms(4) by (intro exI [of _ "?g # t"]) simp
qed

lemma decide_quiet:
  assumes "wiring_ok E r" "decide E r req h = (v, h1)"
  shows "\<exists>t. h1 = h @ t \<and> list_all (\<lambda>c. \<not> visible c) t"
  using decide_adds [OF assms, of "\<lambda>c. \<not> visible c"] source_not_visible
    adds_only_mono [OF adds_only_buildSource config_not_visible] by simp

text \<open>A verdict is about the DriftCheck that was read.\<close>

fun verdict_about :: "verdict \<Rightarrow> DriftCheck \<Rightarrow> bool" where
  "verdict_about (Permanent dc reason cause) d = (d = dc)"
| "verdict_about (Transient dc err) d = (d = dc)"
| "verdict_about (Compared dc results) d = (d = dc)"
| "verdict_about v d = False"

lemma evaluate_cases:
  assumes "evaluate E r dc h = (v, h1)"
  obtains (no_fetcher) "r_Fetcher r = None"
      "v = Permanent dc ''NoFetcher'' (Errorf ''cluster fetcher is not configured'')" "h1 = h"
    | (no_source) err where "buildSource E r dc h = (Inl err, h1)" "v = Permanent dc ''SourceError'' err"
    | (no_target) src err where "applyTarget (e_kube E) src (spec_target (dc_spec dc)) = Inl err"
      "v = Permanent dc ''InvalidTarget'' err"
    | (ran) run where "v = verdict_of_run (e_kube E) dc run"
proof (cases "r_Fetcher r")
  case None
  then show ?thesis
    using assms no_fetcher by (simp add: evaluate_def)
next
  case (Some f)
  obtain res h2 where b: "buildSource E r dc h = (res, h2)"
    by fastforce
  show ?thesis
  proof (cases res)
    case (Inl err)
    then show ?thesis
      using assms Some b no_source by (simp add: evaluate_def)
  next
    case (Inr src)
    show ?thesis
    proof (cases "applyTarget (e_kube E) src (spec_target (dc_spec dc))")
      case (Inl err)
      then show ?thesis
        using assms Some b \<open>res = Inr src\<close> no_target by (simp add: evaluate_def)
    next
      case (Inr src')
      then show ?thesis
        using assms Some b \<open>res = Inr src\<close> ran by (auto simp: evaluate_def Let_def split: prod.splits)
    qed
  qed
qed

lemma verdict_of_run_cases:
  obtains (forbidden) err where "run = Inl err" "kl_IsForbidden k err \<or> kl_IsUnauthorized k err"
      "verdict_of_run k dc run = Permanent dc ''FetchError'' err"
    | (transient) err where "run = Inl err" "\<not> (kl_IsForbidden k err \<or> kl_IsUnauthorized k err)"
      "verdict_of_run k dc run = Transient dc err"
    | (compared) results where "run = Inr results" "verdict_of_run k dc run = Compared dc results"
  by (cases run) (auto simp: verdict_of_run_def split: if_splits)

lemma evaluate_about:
  assumes "evaluate E r dc h = (v, h1)"
  shows "verdict_about v dc"
  using assms
proof (cases rule: evaluate_cases)
  case (ran run)
  then show ?thesis
    by (cases rule: verdict_of_run_cases [where run = run and k = "e_kube E" and dc = dc]) simp_all
qed simp_all

text \<open>With a DriftCheck that can be read, deciding is evaluating it.\<close>

lemma decide_evaluate:
  assumes "kl_GetDriftCheck (e_kube E) h n = Inr dc"
  shows "decide E r n h = evaluate E r dc (h @ [CallGetDriftCheck n])"
  using assms by (simp add: decide_def client_GetDriftCheck_def outside_def)

lemma decide_read:
  assumes "decide E r n h = (v, h1)" "verdict_about v dc"
  shows "kl_GetDriftCheck (e_kube E) h n = Inr dc"
proof (cases "kl_GetDriftCheck (e_kube E) h n")
  case (Inl e)
  then show ?thesis
    using assms by (auto simp: decide_def client_GetDriftCheck_def outside_def split: if_splits)
next
  case (Inr dc')
  then have "evaluate E r dc' (h @ [CallGetDriftCheck n]) = (v, h1)"
    using assms(1) by (simp add: decide_evaluate)
  from evaluate_about [OF this] show ?thesis
    using assms(2) Inr by (cases v) auto
qed

lemma effective_interval_positive: "0 < sint (effective_interval dc)"
  by (simp add: effective_interval_def defaultInterval_def)

text \<open>What each verdict writes.\<close>

definition not_ready :: "env \<Rightarrow> history \<Rightarrow> DriftCheck \<Rightarrow> string \<Rightarrow> error \<Rightarrow> DriftCheck" where
  "not_ready E h dc reason cause =
     set_condition (e_kube E) h
       (ready_condition ConditionFalse reason (err_text cause) (dc_generation dc)) dc"

lemma markNotReady_calls:
  "markNotReady E dc reason cause h =
     (kl_StatusUpdate (e_kube E) h (not_ready E h dc reason cause),
      h @ [CallStatusUpdate (not_ready E h dc reason cause)])"
  by (simp add: markNotReady_def not_ready_def client_StatusUpdate_def outside_def)

text \<open>A comparison whose status was written: the gauges follow, then the notification.\<close>

lemma evaluated_written:
  fixes r :: Reconciler
  assumes "kl_StatusUpdate (e_kube E) h (evaluated_status E h dc results) = Inr dc1"
  defines "h1 \<equiv> h @ [CallStatusUpdate (evaluated_status E h dc results)]"
    and "s \<equiv> st_summary (dc_status dc1)"
  defines "h2 \<equiv> snd (RecordDrift (r_Metrics r) (dc_name dc1) (dc_namespace dc1)
      (sum_changed s) (sum_new s) (sum_deleted s) (sum_unchanged s) h1)"
  shows "evaluated E r dc interval results h =
     (case notify E r dc1 h2 of
        (Inl err, h3) \<Rightarrow> ((CtrlResult_zero, Some err), h3)
      | (Inr _, h3) \<Rightarrow> ((\<lparr>requeueAfter = interval\<rparr>, None), h3))"
  using assms(1)
  by (simp add: evaluated_def h1_def h2_def s_def client_StatusUpdate_def outside_def Let_def
      split: prod.split)

lemma evaluated_unwritten:
  assumes "kl_StatusUpdate (e_kube E) h (evaluated_status E h dc results) = Inl err"
  shows "evaluated E r dc interval results h =
     ((CtrlResult_zero, Some err), h @ [CallStatusUpdate (evaluated_status E h dc results)])"
  using assms by (simp add: evaluated_def client_StatusUpdate_def outside_def)

text \<open>The delivery loop writes nothing and sends one event only.\<close>

lemma notify_run_calls:
  assumes "notifier_ok r"
  obtains t where "snd (notify_run E r dc h) = h @ t" "filter status_call t = []"
    "filter gauge_call t = []" "\<forall>wh ev. CallSend wh ev \<in> set t \<longrightarrow> ev = dc_event dc"
proof -
  let ?P = "\<lambda>c. \<not> status_call c \<and> \<not> gauge_call c \<and> (\<forall>wh ev. c = CallSend wh ev \<longrightarrow> ev = dc_event dc)"
  have "adds_only ?P (notifier_or_default E r wh (dc_event dc))" for wh
    by (rule adds_only_mono [OF notifier.send_calls [OF notifier_or_default_ok [OF assms]]])
      (erule delivery_call.elims; simp)
  then have "adds_only ?P (notify_run E r dc)"
    by (intro adds_only_notify_loop) simp_all
  then obtain t where "snd (notify_run E r dc h) = h @ t" "list_all ?P t"
    by (rule adds_onlyE)
  then show ?thesis
    by (intro that [of t]) (auto simp: list_all_iff filter_empty_conv)
qed

text \<open>
  A due notification: the calls of the loop, and the write of the fingerprint if no webhook failed.
\<close>

lemma notify_due_shape:
  assumes "notification_due dc" "notifier_ok r"
  obtains u where "filter status_call u = []" "filter gauge_call u = []"
    "\<forall>wh ev. CallSend wh ev \<in> set u \<longrightarrow> ev = dc_event dc"
    "snd (notify E r dc h) = h @ u \<or>
     snd (notify E r dc h) = h @ u @ [CallStatusUpdate
         (set_notified (driftHash (st_driftedResources (dc_status dc))) dc)]
       \<and> list_all (\<lambda>x. \<not> isl x)
           (deliveries E r dc (notifier_or_default E r) (dc_event dc) (dc_webhooks dc) h)"
proof -
  obtain u where u: "snd (notify_run E r dc h) = h @ u" "filter status_call u = []"
      "filter gauge_call u = []" "\<forall>wh ev. CallSend wh ev \<in> set u \<longrightarrow> ev = dc_event dc"
    by (rule notify_run_calls [OF assms(2)])
  have "snd (notify E r dc h) = h @ u
      \<or> snd (notify E r dc h) = h @ u @ [CallStatusUpdate
          (set_notified (driftHash (st_driftedResources (dc_status dc))) dc)]
        \<and> \<not> fst (notify_run E r dc h)"
    using u(1) by (auto simp: notify_due [OF assms(1)] client_StatusUpdate_def outside_def Let_def
        split: prod.split)
  then show ?thesis
    using that [OF u(2-4)] by (simp add: notify_loop_failed)
qed

text \<open>A notification adds calls with one event only, and no more than one status write.\<close>

lemma notify_calls:
  assumes "notifier_ok r"
  shows "\<exists>t. snd (notify E r dc h) = h @ t \<and> length (filter status_call t) \<le> 1
     \<and> filter gauge_call t = [] \<and> (\<forall>wh ev. CallSend wh ev \<in> set t \<longrightarrow> ev = dc_event dc)"
proof (cases "notification_due dc")
  case False
  then show ?thesis
    by (simp add: notify_not_due)
next
  case True
  then show ?thesis
    using assms by (rule notify_due_shape [where E = E and h = h]) auto
qed

lemma gauge_not_status:
  assumes "list_all gauge_call gs"
  shows "filter status_call gs = []"
  using assms by (rule list_all_filter_none) (erule gauge_call.elims; simp)

lemma gauge_not_send: "list_all gauge_call gs \<Longrightarrow> CallSend wh ev \<notin> set gs"
  by (auto simp: list_all_iff)

text \<open>A written comparison: the status write, gauges, then the notification of what was stored.\<close>

lemma evaluated_written_own:
  assumes "kl_StatusUpdate (e_kube E) h (evaluated_status E h dc results) = Inr dc1"
  obtains gs where "list_all (own_gauge (dc_name dc1) (dc_namespace dc1)) gs"
    "snd (evaluated E r dc interval results h)
      = snd (notify E r dc1 (h @ CallStatusUpdate (evaluated_status E h dc results) # gs))"
proof -
  define s where "s = st_summary (dc_status dc1)"
  let ?h = "h @ [CallStatusUpdate (evaluated_status E h dc results)]"
  obtain gs where gs: "snd (RecordDrift (r_Metrics r) (dc_name dc1) (dc_namespace dc1)
      (sum_changed s) (sum_new s) (sum_deleted s) (sum_unchanged s) ?h) = ?h @ gs"
      "list_all (own_gauge (dc_name dc1) (dc_namespace dc1)) gs"
    using adds_only_RecordDrift_own by (rule adds_onlyE)
  show ?thesis
    using evaluated_written [OF assms, of r interval] gs
    by (intro that [of gs]) (simp_all add: s_def split: prod.split sum.split)
qed

lemma own_gauges: "list_all (own_gauge name ns) gs \<Longrightarrow> list_all gauge_call gs"
  unfolding list_all_iff using own_gauge_call by blast

lemma evaluated_written_calls:
  assumes "kl_StatusUpdate (e_kube E) h (evaluated_status E h dc results) = Inr dc1"
  obtains gs where "list_all gauge_call gs" "snd (evaluated E r dc interval results h)
      = snd (notify E r dc1 (h @ CallStatusUpdate (evaluated_status E h dc results) # gs))"
  using evaluated_written_own [OF assms, of r interval] own_gauges by metis

text \<open>The calls of a comparison, from its status write on.\<close>

lemma evaluated_calls:
  fixes E :: env
  assumes "notifier_ok r"
  defines "upd h dc results \<equiv> CallStatusUpdate (evaluated_status E h dc results)"
  shows "\<exists>t. snd (evaluated E r dc interval results h) = h @ upd h dc results # t
     \<and> length (filter status_call t) \<le> 1
     \<and> (\<forall>wh ev. CallSend wh ev \<in> set t \<longrightarrow>
          (\<exists>dc1. kl_StatusUpdate (e_kube E) h (evaluated_status E h dc results) = Inr dc1
             \<and> ev = dc_event dc1))"
proof (cases "kl_StatusUpdate (e_kube E) h (evaluated_status E h dc results)")
  case (Inl err)
  then show ?thesis
    by (simp add: evaluated_unwritten upd_def)
next
  case (Inr dc1)
  obtain gs where gs: "snd (evaluated E r dc interval results h)
      = snd (notify E r dc1 (h @ upd h dc results # gs))" "list_all gauge_call gs"
    unfolding upd_def by (rule evaluated_written_calls [OF Inr])
  obtain t where t: "snd (notify E r dc1 (h @ upd h dc results # gs)) = (h @ upd h dc results # gs) @ t"
      "length (filter status_call t) \<le> 1" "\<forall>wh ev. CallSend wh ev \<in> set t \<longrightarrow> ev = dc_event dc1"
    using notify_calls [OF assms(1)] by blast
  have "snd (evaluated E r dc interval results h) = h @ upd h dc results # gs @ t"
    using t(1) gs(1) by simp
  then show ?thesis
    using gs(2) t(2,3) Inr gauge_not_status gauge_not_send
    by (intro exI [of _ "gs @ t"]) auto
qed

text \<open>What a run adds to the history: the reads of \<open>decide\<close>, then the calls of \<open>perform\<close>.\<close>

lemma perform_calls:
  assumes "notifier_ok r"
  shows "\<exists>t. snd (perform E r req v h) = h @ t \<and> length (filter status_call t) \<le> 2
     \<and> (\<forall>a wh ev b. t = a @ CallSend wh ev # b \<longrightarrow>
          (\<exists>d a' dc1. a = CallStatusUpdate d # a' \<and> kl_StatusUpdate (e_kube E) h d = Inr dc1
             \<and> ev = dc_event dc1))"
proof (cases v)
  case (Compared dc results)
  let ?d = "evaluated_status E h dc results"
  obtain t where t: "snd (evaluated E r dc (effective_interval dc) results h)
      = h @ CallStatusUpdate ?d # t" "length (filter status_call t) \<le> 1"
      "\<forall>wh ev. CallSend wh ev \<in> set t \<longrightarrow>
         (\<exists>dc1. kl_StatusUpdate (e_kube E) h ?d = Inr dc1 \<and> ev = dc_event dc1)"
    using evaluated_calls [OF assms] by blast
  have "\<exists>d a' dc1. a = CallStatusUpdate d # a' \<and> kl_StatusUpdate (e_kube E) h d = Inr dc1
      \<and> ev = dc_event dc1" if "CallStatusUpdate ?d # t = a @ CallSend wh ev # b" for a wh ev b
  proof (cases a)
    case (Cons c a')
    then have "c = CallStatusUpdate ?d" "CallSend wh ev \<in> set t"
      using that by auto
    then show ?thesis
      using Cons t(3) by blast
  qed (use that in simp)
  then show ?thesis
    using Compared t(1,2) by (intro exI [of _ "CallStatusUpdate ?d # t"]) simp
qed (cases "r_Metrics r"; auto simp: Recorder_Delete_Some permanentFail_def markNotReady_calls
    append_eq_Cons_conv Cons_eq_append_conv split: sum.split)+

lemma Reconcile_status_writes:
  assumes "wiring_ok E r"
  shows "\<exists>t. snd (Reconcile E r req h) = h @ t \<and> length (filter status_call t) \<le> 2"
proof -
  obtain v h1 where d: "decide E r req h = (v, h1)"
    by fastforce
  obtain t where t: "h1 = h @ t" "list_all (\<lambda>c. \<not> visible c) t"
    using decide_quiet [OF assms d] by blast
  obtain u where u: "snd (perform E r req v h1) = h1 @ u" "length (filter status_call u) \<le> 2"
    using perform_calls [of r E req v h1] assms unfolding wiring_ok_def by blast
  have "filter status_call t = []"
    using t(2) by (rule list_all_filter_none) (use status_visible in blast)
  then show ?thesis
    using d t(1) u by (simp add: Reconcile_perform)
qed

text \<open>
  How a run ends: in an error, in a positive requeue time, or with the API server's word that the
  DriftCheck is gone.
\<close>

lemma Reconcile_always_rescheduled:
  "(\<exists>err. fst (Reconcile E r req h) = (CtrlResult_zero, Some err))
   \<or> (\<exists>dc. fst (Reconcile E r req h) = (\<lparr>requeueAfter = effective_interval dc\<rparr>, None)
        \<and> kl_GetDriftCheck (e_kube E) h req = Inr dc \<and> 0 < sint (effective_interval dc))
   \<or> (\<exists>e. fst (Reconcile E r req h) = (CtrlResult_zero, None)
        \<and> kl_GetDriftCheck (e_kube E) h req = Inl e \<and> kl_IsNotFound (e_kube E) e)"
  by (auto simp: Reconcile_def client_GetDriftCheck_def outside_def permanentFail_def
      markNotReady_calls evaluated_def Let_def effective_interval_positive
      split: option.split prod.split sum.split)

text \<open>Every notification of a run follows an accepted status write of that run.\<close>

lemma Reconcile_notifies_persisted:
  assumes "wiring_ok E r" "snd (Reconcile E r req h) = h @ a @ CallSend wh ev # b"
  shows "\<exists>a1 d a2 dc1. a = a1 @ CallStatusUpdate d # a2
    \<and> kl_StatusUpdate (e_kube E) (h @ a1) d = Inr dc1 \<and> ev = dc_event dc1"
proof -
  obtain v h1 where d: "decide E r req h = (v, h1)"
    by fastforce
  obtain t where t: "h1 = h @ t" "list_all (\<lambda>c. \<not> visible c) t"
    using decide_quiet [OF assms(1) d] by blast
  obtain u where u: "snd (perform E r req v h1) = h1 @ u"
      "\<forall>a wh ev b. u = a @ CallSend wh ev # b \<longrightarrow>
         (\<exists>d a' dc1. a = CallStatusUpdate d # a' \<and> kl_StatusUpdate (e_kube E) h1 d = Inr dc1
            \<and> ev = dc_event dc1)"
    using perform_calls [of r E req v h1] assms(1) unfolding wiring_ok_def by blast
  have "t @ u = a @ CallSend wh ev # b"
    using assms(2) d t(1) u(1) by (simp add: Reconcile_perform)
  moreover have "CallSend wh ev \<notin> set t"
    using t(2) by (auto simp: list_all_iff)
  ultimately obtain a' where "a = t @ a'" "u = a' @ CallSend wh ev # b"
    by (auto simp: append_eq_append_conv2 append_eq_Cons_conv)
  then show ?thesis
    using u(2) t(1) by blast
qed

text \<open>A comparison whose status was written sets the four gauges of its DriftCheck, and no other.\<close>

lemma Reconcile_gauges_follow_status:
  assumes "wiring_ok E r" "r_Metrics r = Some u"
    and "decide E r req h = (Compared dc results, h1)"
    and "kl_StatusUpdate (e_kube E) h1 (evaluated_status E h1 dc results) = Inr dc1"
  shows "let g = gauge_values (snd (Reconcile E r req h)); s = st_summary (dc_status dc1);
             ls = (\<lambda>status. [dc_name dc1, dc_namespace dc1, status]) in
         g (ls ''changed'') = Some (gauge_float (sum_changed s))
         \<and> g (ls ''new'') = Some (gauge_float (sum_new s))
         \<and> g (ls ''deleted'') = Some (gauge_float (sum_deleted s))
         \<and> g (ls ''unchanged'') = Some (gauge_float (sum_unchanged s))
         \<and> (\<forall>name ns status. (name, ns) \<noteq> (dc_name dc1, dc_namespace dc1)
              \<longrightarrow> g [name, ns, status] = gauge_values h [name, ns, status])"
proof -
  let ?upd = "CallStatusUpdate (evaluated_status E h1 dc results)"
  define s where "s = st_summary (dc_status dc1)"
  define h2 where "h2 = snd (RecordDrift (r_Metrics r) (dc_name dc1) (dc_namespace dc1)
      (sum_changed s) (sum_new s) (sum_deleted s) (sum_unchanged s) (h1 @ [?upd]))"
  obtain t where t: "h1 = h @ t" "list_all (\<lambda>c. \<not> visible c) t"
    using decide_quiet [OF assms(1,3)] by blast
  obtain tn where tn: "snd (notify E r dc1 h2) = h2 @ tn" "filter gauge_call tn = []"
    using notify_calls assms(1) unfolding wiring_ok_def by blast
  have "snd (Reconcile E r req h) = h2 @ tn"
    using tn(1) evaluated_written [OF assms(4), of r "effective_interval dc"]
    by (auto simp: Reconcile_perform assms(3) h2_def s_def split: prod.splits sum.splits)
  moreover have "gauge_values (h2 @ tn) = gauge_values h2"
    using tn(2) by (intro registry.view_quiet) (auto simp: list_all_iff filter_empty_conv)
  moreover have "gauge_values (h1 @ [?upd]) = gauge_values h"
    using t(2) unfolding t(1) append_assoc
    by (intro registry.view_quiet) (auto simp: list_all_iff dest: gauge_visible)
  ultimately show ?thesis
    using registry.view_RecordDrift [of u "dc_name dc1" "dc_namespace dc1" "sum_changed s"
        "sum_new s" "sum_deleted s" "sum_unchanged s" "h1 @ [?upd]"]
    by (auto simp: Let_def h2_def assms(2) s_def)
qed

subsection \<open>What the gauges report\<close>

text \<open>
  Abstractly the registry is a map from DriftChecks to the summary they last reported. One run
  changes it by its verdict: a persisted comparison reports, a permanent failure or a deletion
  withdraws the report, anything else keeps it.
\<close>

type_synonym reports = "string \<times> string \<Rightarrow> DriftSummary option"

definition report_run :: "env \<Rightarrow> Reconciler \<Rightarrow> NamespacedName \<Rightarrow> history \<Rightarrow> reports \<Rightarrow> reports" where
  "report_run E r req h m =
     (case decide E r req h of
        (Gone, h1) \<Rightarrow> m((nn_name req, nn_namespace req) := None)
      | (Permanent dc reason cause, h1) \<Rightarrow> m((dc_name dc, dc_namespace dc) := None)
      | (Compared dc results, h1) \<Rightarrow>
          (case kl_StatusUpdate (e_kube E) h1 (evaluated_status E h1 dc results) of
             Inl err \<Rightarrow> m
           | Inr dc1 \<Rightarrow> m((dc_name dc1, dc_namespace dc1) \<mapsto> st_summary (dc_status dc1)))
      | _ \<Rightarrow> m)"

text \<open>The registry \<open>g\<close> shows the reports \<open>m\<close>.\<close>

definition gauges_show :: "(string list \<Rightarrow> int option) \<Rightarrow> reports \<Rightarrow> bool" where
  "gauges_show g m \<longleftrightarrow>
     (\<forall>name ns.
        g [name, ns, ''changed''] = map_option (\<lambda>s. gauge_float (sum_changed s)) (m (name, ns))
        \<and> g [name, ns, ''new''] = map_option (\<lambda>s. gauge_float (sum_new s)) (m (name, ns))
        \<and> g [name, ns, ''deleted''] = map_option (\<lambda>s. gauge_float (sum_deleted s)) (m (name, ns))
        \<and> g [name, ns, ''unchanged''] = map_option (\<lambda>s. gauge_float (sum_unchanged s)) (m (name, ns)))"

lemma gauges_show_withdrawn:
  assumes "gauges_show g m" "\<And>name' ns' st. g' [name', ns', st] =
      (if name' = name \<and> ns' = ns then None else g [name', ns', st])"
  shows "gauges_show g' (m((name, ns) := None))"
  using assms by (auto simp: gauges_show_def)

lemma gauges_show_reported:
  assumes "gauges_show g m"
    and "g' [name, ns, ''changed''] = Some (gauge_float (sum_changed s))"
    and "g' [name, ns, ''new''] = Some (gauge_float (sum_new s))"
    and "g' [name, ns, ''deleted''] = Some (gauge_float (sum_deleted s))"
    and "g' [name, ns, ''unchanged''] = Some (gauge_float (sum_unchanged s))"
    and "\<And>name' ns' st. (name', ns') \<noteq> (name, ns) \<Longrightarrow> g' [name', ns', st] = g [name', ns', st]"
  shows "gauges_show g' (m((name, ns) \<mapsto> s))"
  using assms by (auto simp: gauges_show_def)

lemma gauges_quiet:
  "list_all (\<lambda>c. \<not> visible c) t \<Longrightarrow> gauge_values (h @ t) = gauge_values h"
  by (intro registry.view_quiet) (auto simp: list_all_iff dest: gauge_visible)

lemma Reconcile_gauges_show:
  assumes "wiring_ok E r" "r_Metrics r = Some u" "gauges_show (gauge_values h) m"
  shows "gauges_show (gauge_values (snd (Reconcile E r req h))) (report_run E r req h m)"
proof -
  obtain v h1 where d: "decide E r req h = (v, h1)"
    by fastforce
  obtain t where t: "h1 = h @ t" "list_all (\<lambda>c. \<not> visible c) t"
    using decide_quiet [OF assms(1) d] by blast
  have h1: "gauge_values h1 = gauge_values h"
    using gauges_quiet [OF t(2)] t(1) by simp
  show ?thesis
  proof (cases v)
    case Gone
    then show ?thesis
      using gauges_show_withdrawn [OF assms(3), of _ "nn_name req" "nn_namespace req"] d h1
      by (simp add: Reconcile_perform report_run_def assms(2) registry.view_Recorder_Delete)
  next
    case (Unreadable err)
    then show ?thesis
      using d h1 assms(3) by (simp add: Reconcile_perform report_run_def)
  next
    case (Permanent dc reason cause)
    have "gauge_values (snd (Reconcile E r req h)) = gauge_values (snd (Recorder_Delete (Some u) (dc_name dc) (dc_namespace dc) h1))"
      using d Permanent
      by (simp add: Reconcile_perform permanentFail_def markNotReady_calls assms(2) registry.view_other
          split: prod.split sum.split)
    then show ?thesis
      using gauges_show_withdrawn [OF assms(3), of _ "dc_name dc" "dc_namespace dc"] d h1 Permanent
      by (simp add: report_run_def registry.view_Recorder_Delete)
  next
    case (Transient dc err)
    then show ?thesis
      using d h1 assms(3)
      by (simp add: Reconcile_perform report_run_def markNotReady_calls registry.view_other)
  next
    case (Compared dc results)
    show ?thesis
    proof (cases "kl_StatusUpdate (e_kube E) h1 (evaluated_status E h1 dc results)")
      case (Inl err)
      then show ?thesis
        using d h1 assms(3) Compared
        by (simp add: Reconcile_perform report_run_def evaluated_unwritten registry.view_other)
    next
      case (Inr dc1)
      note g = Reconcile_gauges_follow_status [OF assms(1,2) d [unfolded Compared] Inr]
      then have "gauges_show (gauge_values (snd (Reconcile E r req h)))
          (m((dc_name dc1, dc_namespace dc1) \<mapsto> st_summary (dc_status dc1)))"
        by (intro gauges_show_reported [OF assms(3)]) (auto simp: Let_def)
      then show ?thesis
        using d Compared Inr by (simp add: report_run_def)
    qed
  qed
qed

subsection \<open>Properties of the summary\<close>

text \<open>The four classes of a result, as the first matching case of the \<open>switch\<close>.\<close>

definition result_class :: "kd_lib \<Rightarrow> DiffResult \<Rightarrow> nat" where
  "result_class kd res =
     (if dres_status res = kd_StatusChanged kd then 0
      else if dres_status res = kd_StatusNew kd then 1
      else if dres_status res = kd_StatusDeleted kd then 2 else 3)"

abbreviation class_count :: "kd_lib \<Rightarrow> nat \<Rightarrow> DiffResult list \<Rightarrow> nat" where
  "class_count kd i results \<equiv> length (filter (\<lambda>res. result_class kd res = i) results)"

lemma summarize_loop_spec:
  "summarize_loop kd results drifted s =
     (drifted @ map drifted_of_result (filter (\<lambda>res. result_class kd res < 3) results),
      \<lparr>sum_changed = sum_changed s + of_nat (class_count kd 0 results),
       sum_new = sum_new s + of_nat (class_count kd 1 results),
       sum_deleted = sum_deleted s + of_nat (class_count kd 2 results),
       sum_unchanged = sum_unchanged s + of_nat (class_count kd 3 results)\<rparr>)"
proof (induction kd results drifted s rule: summarize_loop.induct)
  case (2 kd res results drifted s)
  consider "result_class kd res = 0" "dres_status res = kd_StatusChanged kd"
    | "result_class kd res = 1" "dres_status res \<noteq> kd_StatusChanged kd" "dres_status res = kd_StatusNew kd"
    | "result_class kd res = 2" "dres_status res \<noteq> kd_StatusChanged kd"
      "dres_status res \<noteq> kd_StatusNew kd" "dres_status res = kd_StatusDeleted kd"
    | "result_class kd res = 3" "dres_status res \<noteq> kd_StatusChanged kd"
      "dres_status res \<noteq> kd_StatusNew kd" "dres_status res \<noteq> kd_StatusDeleted kd"
    unfolding result_class_def by metis
  then show ?case
    using "2.IH" by cases simp_all
qed simp

lemma class_count_sum:
  "class_count kd 0 results + class_count kd 1 results + class_count kd 2 results
     + class_count kd 3 results = length results"
  by (induction results) (auto simp: result_class_def)

lemma class_count_drifted:
  "class_count kd 0 results + class_count kd 1 results + class_count kd 2 results
     = length (filter (\<lambda>res. result_class kd res < 3) results)"
  by (induction results) (auto simp: result_class_def)

text \<open>
  The summary counts every result once, in its class, and the drifted resources are exactly the
  results of the first three classes, in the engine's order. Four constants that coincide would still
  count a result once, in the first class that matches.
\<close>

theorem summarize_classifies:
  "summarize kd results =
     (map drifted_of_result (filter (\<lambda>res. result_class kd res < 3) results),
      \<lparr>sum_changed = of_nat (class_count kd 0 results), sum_new = of_nat (class_count kd 1 results),
       sum_deleted = of_nat (class_count kd 2 results),
       sum_unchanged = of_nat (class_count kd 3 results)\<rparr>)"
  by (simp add: summarize_def summarize_loop_spec DriftSummary_zero_def)

text \<open>
  C35: The tally agrees with the list. As long as the number of results fits an \<open>int\<close>, the four counts
  add up to it without wrapping, \<open>driftCount\<close> is the length of the drifted list, and it is zero,
  which is what \<open>notify\<close> takes for resolved, exactly when nothing drifted.
\<close>

theorem summarize_counts:
  assumes "length results < 2 ^ 63" "summarize kd results = (drifted, s)"
  shows "sint (sum_changed s) + sint (sum_new s) + sint (sum_deleted s) + sint (sum_unchanged s)
           = int (length results)
       \<and> sint (driftCount s) = int (length drifted)
       \<and> (driftCount s = 0 \<longleftrightarrow> drifted = [])"
proof -
  let ?n = "\<lambda>i. class_count kd i results"
  have s: "drifted = map drifted_of_result (filter (\<lambda>res. result_class kd res < 3) results)"
    "s = \<lparr>sum_changed = of_nat (?n 0), sum_new = of_nat (?n 1), sum_deleted = of_nat (?n 2),
          sum_unchanged = of_nat (?n 3)\<rparr>"
    using assms(2) by (simp_all add: summarize_def summarize_loop_spec DriftSummary_zero_def)
  have small: "?n i < 2 ^ 63" for i
    using assms(1) length_filter_le [of "\<lambda>res. result_class kd res = i" results] by linarith
  have len: "length drifted = ?n 0 + ?n 1 + ?n 2" "length drifted \<le> length results"
    using class_count_drifted [of kd results] by (simp_all add: s(1))
  have count: "driftCount s = of_nat (length drifted)"
    by (simp add: s(2) len(1) driftCount_def)
  have total: "sint (driftCount s) = int (length drifted)"
    unfolding count by (rule sint_of_nat_go) (use len(2) assms(1) in linarith)
  have "driftCount s = 0 \<longleftrightarrow> drifted = []"
  proof
    assume "driftCount s = 0"
    then show "drifted = []"
      using total by simp
  qed (simp add: count)
  moreover note total
  moreover have "int (?n 0) + int (?n 1) + int (?n 2) + int (?n 3) = int (length results)"
    using class_count_sum [of kd results] by linarith
  ultimately show ?thesis
    using small by (simp add: s(2) sint_of_nat_go)
qed

theorem summarize_counts_witness:
  "\<exists>drifted s. summarize ex_kd [ex_result ex_manifest] = (drifted, s)
     \<and> sint (driftCount s) = int (length drifted)"
proof -
  obtain drifted s where run: "summarize ex_kd [ex_result ex_manifest] = (drifted, s)"
    by fastforce
  have "length [ex_result ex_manifest] < 2 ^ 63"
    by simp
  from summarize_counts [OF this run] run show ?thesis
    by blast
qed

end
