(* ===== verification/Example_Run.thy ===== *)
theory Example_Run
  imports Drift_Reconcile
begin

text \<open>
  One run of the reconciler in the example environment: a DriftCheck on a ConfigMap of two entries,
  whose comparison finds one changed resource and notifies one webhook.
\<close>

lemma ex_wiring: "wiring_ok ex_env ex_reconciler"
proof -
  have "engine_ok ex_env"
    unfolding engine_ok_def ex_env_def ex_kd_def by (auto intro!: quiet)
  moreover have "fetcher_ok ex_reconciler"
    unfolding fetcher_ok_def ex_reconciler_def by (auto intro!: quiet)
  ultimately show ?thesis
    using ex_reconciler_notifier by (simp add: wiring_ok_def ex_reconciler_def)
qed

lemma ex_get: "kl_GetDriftCheck (e_kube ex_env) h ex_req = Inr ex_dc"
  by (simp add: ex_env_def ex_kube_def)

lemma ex_update: "kl_StatusUpdate (e_kube ex_env) h d = Inr d"
  by (simp add: ex_env_def ex_kube_def)

lemma ex_kube_env: "e_kube ex_env = ex_kube"
  by (simp add: ex_env_def)

abbreviation ex_manifests :: bytes where
  "ex_manifests \<equiv> ''kind: A'' @ manifest_separator @ ''kind: B''"

text \<open>Any client that finds the example's objects.\<close>

definition finds_example :: "kube_lib \<Rightarrow> bool" where
  "finds_example k \<longleftrightarrow>
     kl_GetConfigMap k = kl_GetConfigMap ex_kube \<and> kl_GetDriftCheck k [] ex_req = Inr ex_dc"

lemma ex_kube_finds: "finds_example ex_kube"
  by (simp add: finds_example_def ex_kube_def)

lemma ex_build:
  assumes "finds_example (e_kube E)"
  shows "buildSource E r ex_dc h =
    (Inr (BytesSrc ex_manifests),
     h @ [CallGetConfigMap \<lparr>nn_namespace = ''prod'', nn_name = ''desired''\<rparr>])"
proof -
  have keys: "cm_keys ex_configmap = [''a.yaml'', ''b.yaml'']"
    by code_simp
  have "TrimSpace ex_manifests \<noteq> []"
    by (rule TrimSpace_visible [where c = "CHR ''k''"]) simp_all
  moreover have "bytes_Join (cm_docs ex_configmap [''a.yaml'', ''b.yaml'']) manifest_separator = ex_manifests"
    by (simp add: cm_get_def ex_configmap_def)
  ultimately have out: "configMapManifests ex_configmap [] = Inr ex_manifests"
    by (simp add: configMapManifests_def keys Let_def)
  show ?thesis
    by (simp add: buildSource_def ex_dc_def ex_source_def io_defs pure_def client_GetConfigMap_def
        or_else_def assms [unfolded finds_example_def] ex_kube_def out go_simps Let_def)
qed

lemma ex_target:
  "applyTarget k (BytesSrc b) (spec_target (dc_spec ex_dc)) = Inr (BytesSrc b)"
  by (simp add: applyTarget_def NewTargetFilter_def ex_dc_def)

lemma ex_run_decide:
  assumes "finds_example (e_kube E)"
  shows "decide E ex_reconciler ex_req [] =
    (let (run, h) = kd_Run (e_kd E) (source_Load E (BytesSrc ex_manifests)) (\<lambda>a k ns n. give VNil)
           [CallGetDriftCheck ex_req,
            CallGetConfigMap \<lparr>nn_namespace = ''prod'', nn_name = ''desired''\<rparr>] in
     (verdict_of_run (e_kube E) ex_dc run, h))"
proof -
  have "r_Fetcher ex_reconciler = Some (\<lambda>a k ns n. give VNil)"
    by (simp add: ex_reconciler_def)
  then show ?thesis
    using assms
    by (simp add: decide_def evaluate_def client_GetDriftCheck_def outside_def ex_build [OF assms]
        ex_target finds_example_def Let_def del: source_Load.simps)
qed

lemma ex_decide:
  assumes "e_kube E = ex_kube"
  shows "decide E ex_reconciler ex_req [] =
    (let (run, h) = kd_Run (e_kd E) (source_Load E (BytesSrc ex_manifests)) (\<lambda>a k ns n. give VNil)
           [CallGetDriftCheck ex_req,
            CallGetConfigMap \<lparr>nn_namespace = ''prod'', nn_name = ''desired''\<rparr>] in
     (verdict_of_run ex_kube ex_dc run, h))"
  using ex_run_decide [of E] ex_kube_finds assms by simp

lemma ex_compared:
  "decide ex_env ex_reconciler ex_req [] =
     (Compared ex_dc [ex_result ex_manifest],
      [CallGetDriftCheck ex_req,
       CallGetConfigMap \<lparr>nn_namespace = ''prod'', nn_name = ''desired''\<rparr>,
       CallBytesSourceLoad ex_manifests])"
  by (simp add: ex_decide [OF ex_kube_env] verdict_of_run_def)
    (simp add: ex_env_def ex_kd_def io_defs BytesSource_Load_def)

text \<open>The example run sends its one notification.\<close>

lemma ex_evaluated:
  defines "d \<equiv> \<lambda>h. evaluated_status ex_env h ex_dc [ex_result ex_manifest]"
  shows "notification_due (d h)" "dc_webhooks (d h) = [ex_webhook]"
    "dc_name (d h) = ''web''" "dc_namespace (d h) = ''prod''"
    "st_summary (dc_status (d h)) = \<lparr>sum_changed = 1, sum_new = 0, sum_deleted = 0, sum_unchanged = 0\<rparr>"
proof -
  have kd: "kd_StatusChanged (e_kd ex_env) = ''changed''" "dres_status (ex_result ex_manifest) = ''changed''"
    by (simp_all add: ex_env_def ex_kd_def ex_result_def)
  then show "st_summary (dc_status (d h)) = \<lparr>sum_changed = 1, sum_new = 0, sum_deleted = 0, sum_unchanged = 0\<rparr>"
    by (simp add: d_def evaluated_status_def set_condition_def summarize_def DriftSummary_zero_def)
  then show "notification_due (d h)"
    by (simp add: notification_due_def driftCount_def)
      (simp add: d_def evaluated_status_def set_condition_def Let_def ex_dc_def ex_status_def
        split: prod.split)
  show "dc_webhooks (d h) = [ex_webhook]" "dc_name (d h) = ''web''" "dc_namespace (d h) = ''prod''"
    by (simp_all add: d_def dc_webhooks_def evaluated_status_def set_condition_def Let_def ex_dc_def
        split: prod.split)
qed

text \<open>The calls of a run that announces its comparison.\<close>

lemma Reconcile_sends:
  assumes "decide E r n h = (Compared dc results, h1)" "notifier_ok r"
    and "kl_StatusUpdate (e_kube E) h1 (evaluated_status E h1 dc results) = Inr dc1"
    and "notification_due dc1" "list_all inline_url (dc_webhooks dc1)"
  obtains gs t where "list_all gauge_call gs"
    "snd (Reconcile E r n h) = h1 @ CallStatusUpdate (evaluated_status E h1 dc results) # gs @ t"
    "filter send_call t = map (send_to (dc_event dc1)) (dc_webhooks dc1)"
    "filter status_call t =
       (if list_all (\<lambda>x. \<not> isl x)
            (deliveries E r dc1 (notifier_or_default E r) (dc_event dc1) (dc_webhooks dc1)
               (h1 @ CallStatusUpdate (evaluated_status E h1 dc results) # gs))
        then [CallStatusUpdate (set_notified (driftHash (st_driftedResources (dc_status dc1))) dc1)]
        else [])"
proof -
  obtain gs where gs: "list_all gauge_call gs"
      "snd (evaluated E r dc (effective_interval dc) results h1) = snd (notify E r dc1
         (h1 @ CallStatusUpdate (evaluated_status E h1 dc results) # gs))"
    by (rule evaluated_written_calls [OF assms(3)])
  have "snd (Reconcile E r n h) = snd (notify E r dc1
         (h1 @ CallStatusUpdate (evaluated_status E h1 dc results) # gs))"
    using assms(1) gs(2) by (simp add: Reconcile_perform)
  with notify_due_calls [OF assms(4,2), where E = E
      and h = "h1 @ CallStatusUpdate (evaluated_status E h1 dc results) # gs"]
  show ?thesis
    using that [OF gs(1)] assms(5) by auto
qed

lemma send_in:
  assumes "filter send_call t = map (send_to ev) whs" "wh \<in> set whs"
  obtains a b where "t = a @ send_to ev wh # b"
proof -
  have "send_to ev wh \<in> set (filter send_call t)"
    using assms by simp
  then have "send_to ev wh \<in> set t"
    by (rule filter_is_subset [THEN subsetD])
  then show ?thesis
    using that by (auto simp: in_set_conv_decomp)
qed

lemma ex_sends:
  "\<exists>a wh ev b. snd (Reconcile ex_env ex_reconciler ex_req []) = a @ CallSend wh ev # b"
proof -
  let ?h = "snd (decide ex_env ex_reconciler ex_req [])"
  let ?d = "evaluated_status ex_env ?h ex_dc [ex_result ex_manifest]"
  have compared: "decide ex_env ex_reconciler ex_req [] = (Compared ex_dc [ex_result ex_manifest], ?h)"
    by (simp add: ex_compared)
  have "list_all inline_url (dc_webhooks ?d)"
    by (simp add: ex_evaluated inline_url_def ex_webhook_def)
  then obtain gs t where t: "snd (Reconcile ex_env ex_reconciler ex_req []) = ?h @ CallStatusUpdate ?d # gs @ t"
      "filter send_call t = map (send_to (dc_event ?d)) (dc_webhooks ?d)"
    by (rule Reconcile_sends [OF compared ex_reconciler_notifier ex_update ex_evaluated(1)])
  obtain a b where "t = a @ send_to (dc_event ?d) ex_webhook # b"
    by (rule send_in [OF t(2)]) (simp add: ex_evaluated)
  then show ?thesis
    using t(1) unfolding send_to_def by (metis append.assoc append_Cons)
qed

end
