(* ===== verification/Controller_Loop.thy ===== *)
theory Controller_Loop
  imports Example_Run
begin

text \<open>
  The controller over many runs: how \<open>SetupWithManager\<close> connects \<open>Reconcile\<close> to the watch on DriftChecks
  and to the work queue of the controller runtime, which runs one request at a time. A state holds
  the queue, the requests that wait for a timer, the runs so far and the whole history of calls; the
  properties of single runs are lifted to everything the process ever does.
\<close>

subsection \<open>What is watched\<close>

datatype object_event =
    Created DriftCheck
  | Updated DriftCheck DriftCheck
  | Deleted DriftCheck

fun event_request :: "object_event \<Rightarrow> NamespacedName" where
  "event_request (Created d) = \<lparr>nn_namespace = dc_namespace d, nn_name = dc_name d\<rparr>"
| "event_request (Updated d d') = \<lparr>nn_namespace = dc_namespace d', nn_name = dc_name d'\<rparr>"
| "event_request (Deleted d) = \<lparr>nn_namespace = dc_namespace d, nn_name = dc_name d\<rparr>"

record controller_spec =
  cs_for :: string
  cs_predicates :: "(object_event \<Rightarrow> bool) list"

text \<open>
  \<open>ctrl.NewControllerManagedBy (mgr).For (&driftv1alpha1.DriftCheck{}).Complete (r)\<close>: a watch on
  DriftChecks, without event filters.
\<close>

definition SetupWithManager :: controller_spec where
  "SetupWithManager = \<lparr>cs_for = ''DriftCheck'', cs_predicates = []\<rparr>"

text \<open>An event counts when every predicate lets it pass.\<close>

definition passes :: "controller_spec \<Rightarrow> object_event \<Rightarrow> bool" where
  "passes c ev \<longleftrightarrow> list_all (\<lambda>p. p ev) (cs_predicates c)"

subsection \<open>The work queue\<close>

definition enqueue :: "NamespacedName \<Rightarrow> NamespacedName list \<Rightarrow> NamespacedName list" where
  "enqueue n q = (if n \<in> set q then q else q @ [n])"

datatype delay =
    Backoff
  | After go_int

text \<open>
  What the controller runtime does with a result: an error is retried with backoff, a positive
  requeue time starts a timer, anything else is forgotten.
\<close>

definition delay_of :: "reconcile_result \<Rightarrow> delay option" where
  "delay_of res =
     (case res of
        (c, Some err) \<Rightarrow> Some Backoff
      | (c, None) \<Rightarrow> if 0 < sint (requeueAfter c) then Some (After (requeueAfter c)) else None)"

text \<open>
  The watch events of a run's own status writes. A write is accepted only if nobody else changed the
  object since it was read, and an accepted write that changes the object is an update event.
\<close>

fun write_events :: "kube_lib \<Rightarrow> history \<Rightarrow> DriftCheck \<Rightarrow> call list \<Rightarrow> object_event list" where
  "write_events k h old [] = []"
| "write_events k h old (c # t) =
     (case c of
        CallStatusUpdate d \<Rightarrow>
          (case kl_StatusUpdate k h d of
             Inl err \<Rightarrow> write_events k (h @ [c]) old t
           | Inr new \<Rightarrow>
               (if new = old then [] else [Updated old new]) @ write_events k (h @ [c]) new t)
      | _ \<Rightarrow> write_events k (h @ [c]) old t)"

definition own_events :: "env \<Rightarrow> NamespacedName \<Rightarrow> history \<Rightarrow> history \<Rightarrow> object_event list" where
  "own_events E n h h' =
     (case kl_GetDriftCheck (e_kube E) h n of
        Inl err \<Rightarrow> []
      | Inr dc \<Rightarrow> write_events (e_kube E) h dc (drop (length h) h'))"

subsection \<open>The loop\<close>

record controller =
  ct_queue :: "NamespacedName list"
  ct_delayed :: "(NamespacedName \<times> delay) list"
  ct_runs :: "(NamespacedName \<times> history) list"
  ct_history :: history

definition controller_start :: controller where
  "controller_start = \<lparr>ct_queue = [], ct_delayed = [], ct_runs = [], ct_history = []\<rparr>"

text \<open>The state after the first request \<open>n\<close> of the queue \<open>n # q\<close> was run.\<close>

definition after_run :: "env \<Rightarrow> Reconciler \<Rightarrow> NamespacedName \<Rightarrow> NamespacedName list \<Rightarrow> controller \<Rightarrow> controller" where
  "after_run E r n q s =
     (let (res, h') = Reconcile E r n (ct_history s);
          own = filter (passes SetupWithManager) (own_events E n (ct_history s) h')
      in s\<lparr>ct_queue := fold enqueue (map event_request own) q,
           ct_delayed := ct_delayed s @ (case delay_of res of None \<Rightarrow> [] | Some d \<Rightarrow> [(n, d)]),
           ct_runs := ct_runs s @ [(n, ct_history s)],
           ct_history := h'\<rparr>)"

inductive loop_step :: "env \<Rightarrow> Reconciler \<Rightarrow> controller \<Rightarrow> controller \<Rightarrow> bool" for E r where
  observe: "passes SetupWithManager ev \<Longrightarrow>
     loop_step E r s (s\<lparr>ct_queue := enqueue (event_request ev) (ct_queue s)\<rparr>)"
| fire: "ct_delayed s = a @ (n, d) # b \<Longrightarrow>
     loop_step E r s (s\<lparr>ct_queue := enqueue n (ct_queue s), ct_delayed := a @ b\<rparr>)"
| run: "ct_queue s = n # q \<Longrightarrow> loop_step E r s (after_run E r n q s)"

inductive_cases loop_stepE: "loop_step E r s t"

abbreviation loop_runs :: "env \<Rightarrow> Reconciler \<Rightarrow> controller \<Rightarrow> controller \<Rightarrow> bool" where
  "loop_runs E r \<equiv> (loop_step E r)\<^sup>*\<^sup>*"

lemma set_enqueue [simp]: "set (enqueue n q) = insert n (set q)"
  by (auto simp: enqueue_def)

lemma set_fold_enqueue [simp]: "set (fold enqueue ns q) = set ns \<union> set q"
  by (induction ns arbitrary: q) auto

lemma after_run_simps [simp]:
  "ct_history (after_run E r n q s) = snd (Reconcile E r n (ct_history s))"
  "ct_runs (after_run E r n q s) = ct_runs s @ [(n, ct_history s)]"
  "ct_delayed (after_run E r n q s) = ct_delayed s @
     (case delay_of (fst (Reconcile E r n (ct_history s))) of None \<Rightarrow> [] | Some d \<Rightarrow> [(n, d)])"
  "set (ct_queue (after_run E r n q s)) = set q \<union>
     event_request ` {ev \<in> set (own_events E n (ct_history s) (snd (Reconcile E r n (ct_history s)))).
       passes SetupWithManager ev}"
  by (auto simp: after_run_def Let_def split: prod.split)

subsection \<open>An example\<close>

text \<open>The example DriftCheck was just created.\<close>

definition ex_observed :: controller where
  "ex_observed = \<lparr>ct_queue = [ex_req], ct_delayed = [], ct_runs = [], ct_history = []\<rparr>"

lemma ex_observed_start: "loop_step E r controller_start ex_observed"
proof -
  have "event_request (Created ex_dc) = ex_req"
    by (simp add: ex_dc_def ex_req_def)
  then have "ex_observed =
      controller_start\<lparr>ct_queue := enqueue (event_request (Created ex_dc)) (ct_queue controller_start)\<rparr>"
    by (simp add: ex_observed_def controller_start_def enqueue_def)
  then show ?thesis
    using loop_step.observe [of "Created ex_dc" E r controller_start]
    by (simp add: passes_def SetupWithManager_def)
qed

lemma ex_first_run: "loop_runs E r controller_start (after_run E r ex_req [] ex_observed)"
proof (rule converse_rtranclp_into_rtranclp)
  show "loop_step E r controller_start ex_observed"
    by (rule ex_observed_start)
  show "loop_runs E r ex_observed (after_run E r ex_req [] ex_observed)"
    by (rule r_into_rtranclp, rule loop_step.run) (simp add: ex_observed_def)
qed

subsection \<open>No DriftCheck is dropped\<close>

definition pending :: "controller \<Rightarrow> NamespacedName \<Rightarrow> bool" where
  "pending s n \<longleftrightarrow> n \<in> set (ct_queue s) \<or> n \<in> fst ` set (ct_delayed s)"

definition last_run :: "controller \<Rightarrow> NamespacedName \<Rightarrow> history option" where
  "last_run s n = map_of (rev (ct_runs s)) n"

text \<open>The API server said in the last run on \<open>n\<close> that it is gone.\<close>

definition gone :: "env \<Rightarrow> controller \<Rightarrow> NamespacedName \<Rightarrow> bool" where
  "gone E s n \<longleftrightarrow>
     (\<exists>h e. last_run s n = Some h \<and> kl_GetDriftCheck (e_kube E) h n = Inl e \<and> kl_IsNotFound (e_kube E) e)"

lemma run_pending_or_gone: "pending (after_run E r n q s) n \<or> gone E (after_run E r n q s) n"
proof -
  have "fst (Reconcile E r n (ct_history s)) = (CtrlResult_zero, None) \<Longrightarrow>
      \<exists>e. kl_GetDriftCheck (e_kube E) (ct_history s) n = Inl e \<and> kl_IsNotFound (e_kube E) e"
    using Reconcile_always_rescheduled [of E r n "ct_history s"] by (auto simp: CtrlResult_zero_def)
  moreover have "fst (Reconcile E r n (ct_history s)) \<noteq> (CtrlResult_zero, None) \<Longrightarrow>
      delay_of (fst (Reconcile E r n (ct_history s))) \<noteq> None"
    using Reconcile_always_rescheduled [of E r n "ct_history s"] by (auto simp: delay_of_def)
  ultimately show ?thesis
    by (cases "delay_of (fst (Reconcile E r n (ct_history s)))")
      (auto simp: pending_def gone_def last_run_def simp del: prod.inject)
qed

lemma loop_step_pending_or_gone:
  assumes "loop_step E r s t" "pending s n \<or> gone E s n"
  shows "pending t n \<or> gone E t n"
  using assms(1)
proof cases
  case (observe ev)
  then show ?thesis
    using assms(2) by (auto simp: pending_def gone_def last_run_def)
next
  case (fire a n' d b)
  then show ?thesis
    using assms(2) by (auto simp: pending_def gone_def last_run_def)
next
  case (run n' q)
  show ?thesis
  proof (cases "n = n'")
    case True
    then show ?thesis
      using run(1) run_pending_or_gone by blast
  next
    case False
    then show ?thesis
      using assms(2) run by (auto simp: pending_def gone_def last_run_def)
  qed
qed

text \<open>
  C11: No DriftCheck is dropped. Once the watch has reported a DriftCheck it stays in the queue or on a
  timer, through every failure of every run, until the API server says that it is gone.
\<close>
theorem controller_never_drops:
  assumes "passes SetupWithManager ev"
    and "loop_runs E r (s\<lparr>ct_queue := enqueue (event_request ev) (ct_queue s)\<rparr>) t"
  shows "pending t (event_request ev) \<or> gone E t (event_request ev)"
  using assms(2)
proof (induction rule: rtranclp_induct)
  case base
  show ?case by (simp add: pending_def)
next
  case (step t u)
  then show ?case using loop_step_pending_or_gone by metis
qed

theorem controller_never_drops_witness:
  "pending (after_run ex_env ex_reconciler ex_req [] ex_observed) ex_req
   \<or> gone ex_env (after_run ex_env ex_reconciler ex_req [] ex_observed) ex_req"
proof -
  have ev: "event_request (Created ex_dc) = ex_req" "passes SetupWithManager (Created ex_dc)"
    by (simp_all add: ex_dc_def ex_req_def passes_def SetupWithManager_def)
  have "loop_runs ex_env ex_reconciler
      (controller_start\<lparr>ct_queue := enqueue (event_request (Created ex_dc)) (ct_queue controller_start)\<rparr>)
      (after_run ex_env ex_reconciler ex_req [] ex_observed)"
    using loop_step.run [of ex_observed ex_req "[]"] unfolding ev
    by (simp add: ex_observed_def controller_start_def enqueue_def r_into_rtranclp)
  from controller_never_drops [OF ev(2) this] show ?thesis
    unfolding ev .
qed

subsection \<open>Webhooks over the whole life of the process\<close>

text \<open>Each step adds nothing to the history, or what one run adds.\<close>

lemma loop_step_history:
  assumes "loop_step E r s t"
  obtains "ct_history t = ct_history s" "ct_runs t = ct_runs s"
    | n where "ct_history t = snd (Reconcile E r n (ct_history s))"
      "ct_runs t = ct_runs s @ [(n, ct_history s)]"
  using assms by (cases rule: loop_step.cases) auto

text \<open>A call of the history after a run is one from before it, or one of the run.\<close>

lemma history_cases:
  assumes "wiring_ok E r" "snd (Reconcile E r n h) = a @ c # b"
  obtains b' where "h = a @ c # b'" | a' where "a = h @ a'"
proof -
  obtain u where "h @ u = a @ c # b"
    using Reconcile_status_writes [OF assms(1), of n h] assms(2) by auto
  then show ?thesis
    using that by (auto simp: append_eq_append_conv2 append_eq_Cons_conv Cons_eq_append_conv)
qed

text \<open>Every call of the life of the process was made by one of its runs.\<close>

lemma loop_call_origin:
  assumes "wiring_ok E r" "loop_runs E r controller_start s" "ct_history s = a @ c # b"
  obtains n h a' b' where "a = h @ a'" "snd (Reconcile E r n h) = h @ a' @ c # b'"
proof -
  have "\<exists>n h a' b'. a = h @ a' \<and> snd (Reconcile E r n h) = h @ a' @ c # b'"
    using assms(2,3)
  proof (induction arbitrary: b rule: rtranclp_induct)
    case base
    then show ?case by (simp add: controller_start_def)
  next
    case (step s t)
    from step.hyps(2) show ?case
    proof (cases rule: loop_step_history)
      case 1
      then have "ct_history s = a @ c # b"
        using step.prems by simp
      then show ?thesis
        by (rule step.IH)
    next
      case (2 n)
      then have run: "snd (Reconcile E r n (ct_history s)) = a @ c # b"
        using step.prems by simp
      then show ?thesis
        by (cases rule: history_cases [OF assms(1) run]) (use step.IH run in auto)
    qed
  qed
  then show ?thesis
    using that by blast
qed

text \<open>
  C1: A webhook is told only what was persisted, over the whole life of the process: every
  notification follows a status write that the API server accepted, and its event is built from the
  object the server returned.
\<close>
theorem controller_notifies_persisted:
  assumes "wiring_ok E r" "loop_runs E r controller_start s"
    and "ct_history s = a @ CallSend wh ev # b"
  shows "\<exists>a1 d a2 dc1. a = a1 @ CallStatusUpdate d # a2
    \<and> kl_StatusUpdate (e_kube E) a1 d = Inr dc1 \<and> ev = dc_event dc1"
proof -
  obtain n h a' b' where "a = h @ a'" "snd (Reconcile E r n h) = h @ a' @ CallSend wh ev # b'"
    by (rule loop_call_origin [OF assms])
  then show ?thesis
    using Reconcile_notifies_persisted [OF assms(1)] by (metis append.assoc)
qed

theorem controller_notifies_persisted_witness:
  "\<exists>a1 d a2 dc1 ev wh b. snd (Reconcile ex_env ex_reconciler ex_req [])
      = a1 @ CallStatusUpdate d # a2 @ CallSend wh ev # b
    \<and> kl_StatusUpdate (e_kube ex_env) a1 d = Inr dc1 \<and> ev = dc_event dc1"
proof -
  let ?t = "after_run ex_env ex_reconciler ex_req [] ex_observed"
  note run = ex_first_run
  obtain a wh ev b where "snd (Reconcile ex_env ex_reconciler ex_req []) = a @ CallSend wh ev # b"
    using ex_sends by auto
  moreover from this have "ct_history ?t = a @ CallSend wh ev # b"
    by (simp add: ex_observed_def)
  from controller_notifies_persisted [OF ex_wiring run this] obtain a1 d a2 dc1 where
      "a = a1 @ CallStatusUpdate d # a2" "kl_StatusUpdate (e_kube ex_env) a1 d = Inr dc1"
      "ev = dc_event dc1"
    by blast
  ultimately show ?thesis
    by fastforce
qed

subsection \<open>Gauges over the whole life of the process\<close>

text \<open>The reports of the runs so far, in their order.\<close>

definition reports_of :: "env \<Rightarrow> Reconciler \<Rightarrow> (NamespacedName \<times> history) list \<Rightarrow> reports" where
  "reports_of E r rs = fold (\<lambda>(n, h). report_run E r n h) rs Map.empty"

text \<open>
  C5: The metrics registry implements a map from DriftChecks to reports: whatever the process did so
  far, the four gauges of every DriftCheck read the summary of its last persisted comparison, and are
  absent when there was none or when it was withdrawn since by a permanent failure or a deletion.
\<close>
theorem controller_gauges_refine_reports:
  assumes "wiring_ok E r" "r_Metrics r = Some u" "loop_runs E r controller_start s"
  shows "gauges_show (gauge_values (ct_history s)) (reports_of E r (ct_runs s))"
  using assms(3)
proof (induction rule: rtranclp_induct)
  case base
  show ?case
    by (simp add: controller_start_def reports_of_def gauges_show_def registry.view_Nil)
next
  case (step s t)
  from step.hyps(2) show ?case
  proof (cases rule: loop_step_history)
    case 1
    then show ?thesis
      using step.IH by simp
  next
    case (2 n)
    then show ?thesis
      using Reconcile_gauges_show [OF assms(1,2) step.IH, of n] by (simp add: reports_of_def)
  qed
qed

theorem controller_gauges_refine_reports_witness:
  "gauge_values (snd (Reconcile ex_env ex_reconciler ex_req [])) [''web'', ''prod'', ''changed''] = Some 1"
proof -
  have m: "r_Metrics ex_reconciler = Some ()"
    by (simp add: ex_reconciler_def)
  have "reports_of ex_env ex_reconciler [(ex_req, [])] (''web'', ''prod'')
      = Some \<lparr>sum_changed = 1, sum_new = 0, sum_deleted = 0, sum_unchanged = 0\<rparr>"
    by (simp add: reports_of_def report_run_def ex_compared ex_update ex_evaluated)
  then show ?thesis
    using controller_gauges_refine_reports [OF ex_wiring m ex_first_run]
    by (simp add: gauges_show_def ex_observed_def float64_of_int_exact)
qed

subsection \<open>What paces the controller\<close>

lemma write_events_quiet:
  "list_all (\<lambda>c. \<not> visible c) t \<Longrightarrow> write_events k h old (t @ u) = write_events k (h @ t) old u"
  by (induction t arbitrary: h) (auto split: call.split)

text \<open>
  C18: The controller wakes itself up. A comparison whose status write moved \<open>lastCheckedAt\<close> puts its
  DriftCheck back into the queue at once, because the watch has no predicate that ignores status
  updates: the next evaluation does not wait for the interval, whatever the interval is.
\<close>
theorem evaluation_requeues_itself:
  assumes "wiring_ok E r" "ct_queue s = n # q"
    and "decide E r n (ct_history s) = (Compared dc results, h1)"
    and "kl_StatusUpdate (e_kube E) h1 (evaluated_status E h1 dc results) = Inr dc1"
    and "st_lastCheckedAt (dc_status dc1) \<noteq> st_lastCheckedAt (dc_status dc)"
    and "n = \<lparr>nn_namespace = dc_namespace dc1, nn_name = dc_name dc1\<rparr>"
  shows "loop_step E r s (after_run E r n q s) \<and> n \<in> set (ct_queue (after_run E r n q s))"
proof -
  let ?k = "e_kube E" and ?d = "evaluated_status E h1 dc results"
  obtain t where t: "h1 = ct_history s @ t" "list_all (\<lambda>c. \<not> visible c) t"
    using decide_quiet [OF assms(1,3)] by blast
  obtain u where u: "snd (Reconcile E r n (ct_history s)) = h1 @ CallStatusUpdate ?d # u"
    using evaluated_calls [where r = r and E = E and interval = "effective_interval dc"
        and results = results and h = h1 and dc = dc] assms(1)
    unfolding Reconcile_perform assms(3) wiring_ok_def by auto
  have "own_events E n (ct_history s) (snd (Reconcile E r n (ct_history s)))
      = write_events ?k (ct_history s) dc (t @ CallStatusUpdate ?d # u)"
    using u t(1) decide_read [OF assms(3)] by (simp add: own_events_def)
  also have "\<dots> = Updated dc dc1 # write_events ?k (h1 @ [CallStatusUpdate ?d]) dc1 u"
    using assms(4,5) by (auto simp: write_events_quiet [OF t(2)] t(1))
  finally have "event_request (Updated dc dc1) \<in> set (ct_queue (after_run E r n q s))"
    unfolding after_run_simps by (intro UnI2 imageI) (simp add: passes_def SetupWithManager_def)
  then have "n \<in> set (ct_queue (after_run E r n q s))"
    using assms(6) by simp
  then show ?thesis
    using loop_step.run [OF assms(2)] by blast
qed

theorem evaluation_requeues_itself_witness:
  "ex_req \<in> set (ct_queue (after_run ex_env ex_reconciler ex_req [] ex_observed))"
proof -
  have "ct_queue ex_observed = ex_req # []" "ct_history ex_observed = []"
    by (simp_all add: ex_observed_def)
  moreover have "st_lastCheckedAt (dc_status (evaluated_status ex_env h ex_dc rs))
      \<noteq> st_lastCheckedAt (dc_status ex_dc)" for h rs
    by (simp add: evaluated_status_def set_condition_def ex_dc_def ex_status_def Let_def split: prod.split)
  moreover have "ex_req = \<lparr>nn_namespace = dc_namespace d, nn_name = dc_name d\<rparr>"
    if "d = evaluated_status ex_env h ex_dc [ex_result ex_manifest]" for d h
    using that by (simp add: ex_evaluated ex_req_def)
  ultimately show ?thesis
    using evaluation_requeues_itself [OF ex_wiring _ _ ex_update, of ex_observed ex_req "[]" ex_dc
        "[ex_result ex_manifest]"] ex_compared by fastforce
qed

end
