(* ===== verification/Run_Shape.thy ===== *)
theory Run_Shape
  imports Controller_Loop
begin

text \<open>
  The shape of what one run adds to the history: reads, a status write, and after a comparison gauges,
  the sends of a notification and the write of its fingerprint. The properties that look at every
  write or send of the process rest on it.
\<close>

abbreviation request_of :: "DriftCheck \<Rightarrow> NamespacedName" where
  "request_of d \<equiv> \<lparr>nn_namespace = dc_namespace d, nn_name = dc_name d\<rparr>"

abbreviation fingerprint :: "DriftCheck \<Rightarrow> string" where
  "fingerprint d \<equiv> driftHash (st_driftedResources (dc_status d))"

subsection \<open>The shape of a run\<close>

text \<open>Every webhook of the notification that starts after \<open>h\<close> accepts the event.\<close>

definition all_delivered :: "env \<Rightarrow> Reconciler \<Rightarrow> DriftCheck \<Rightarrow> history \<Rightarrow> bool" where
  "all_delivered E r dc h \<longleftrightarrow>
     list_all (\<lambda>x. \<not> isl x)
       (deliveries E r dc (notifier_or_default E r) (dc_event dc) (dc_webhooks dc) h)"

lemma not_ready_keeps:
  "dc_meta (not_ready E h dc reason cause) = dc_meta dc"
  "st_lastNotifiedHash (dc_status (not_ready E h dc reason cause)) = st_lastNotifiedHash (dc_status dc)"
  by (simp_all add: not_ready_def set_condition_def)

lemma evaluated_status_keeps:
  "dc_meta (evaluated_status E h dc results) = dc_meta dc"
  "dc_spec (evaluated_status E h dc results) = dc_spec dc"
  "st_lastNotifiedHash (dc_status (evaluated_status E h dc results)) = st_lastNotifiedHash (dc_status dc)"
  by (simp_all add: evaluated_status_def set_condition_def Let_def split: prod.split)

text \<open>The reasons of a failed run, and what its first write is.\<close>

definition failure_reasons :: "string list" where
  "failure_reasons = [''NoFetcher'', ''SourceError'', ''InvalidTarget'', ''FetchError'', ''CompareError'']"

definition verdict_write :: "env \<Rightarrow> DriftCheck \<Rightarrow> DriftCheck \<Rightarrow> bool" where
  "verdict_write E dc d \<longleftrightarrow>
     (\<exists>h reason cause. reason \<in> set failure_reasons \<and> d = not_ready E h dc reason cause)
     \<or> (\<exists>h results. d = evaluated_status E h dc results)"

lemma verdict_write_simps:
  "reason \<in> set failure_reasons \<Longrightarrow> verdict_write E dc (not_ready E h dc reason cause)"
  "verdict_write E dc (evaluated_status E h dc results)"
  unfolding verdict_write_def by blast+

lemma permanent_reason:
  assumes "decide E r n h = (Permanent dc reason cause, h1)"
  shows "reason \<in> set failure_reasons"
proof -
  have "evaluate E r dc (h @ [CallGetDriftCheck n]) = (Permanent dc reason cause, h1)"
    using assms decide_read [OF assms, of dc] by (simp add: decide_evaluate)
  then show ?thesis
    by (cases rule: evaluate_cases)
      (auto simp: failure_reasons_def verdict_of_run_def split: sum.splits if_splits)
qed

lemma Recorder_Delete_gauges:
  obtains gs where "Recorder_Delete m name ns h = ((), h @ gs)" "list_all gauge_call gs"
  by (cases m) (auto simp: Recorder_Delete_Some)

lemma quiet_calls:
  assumes "list_all (\<lambda>c. \<not> visible c) t"
  shows "filter status_call t = []" "filter send_call t = []"
proof -
  show "filter status_call t = []"
    by (rule list_all_filter_none [OF assms]) (use status_visible in blast)
  show "filter send_call t = []"
    by (rule list_all_filter_none [OF assms]) (erule contrapos_nn, erule send_call.elims, simp_all)
qed

lemma gauge_calls_quiet:
  assumes "list_all gauge_call gs"
  shows "filter status_call gs = []" "filter send_call gs = []"
proof -
  show "filter status_call gs = []"
    by (rule gauge_not_status [OF assms])
  show "filter send_call gs = []"
    by (rule list_all_filter_none [OF assms]) (erule gauge_call.elims, simp_all)
qed

text \<open>What a run writes and sends once the comparison is there.\<close>

lemma evaluated_shape:
  fixes E r dc results h
  defines "d \<equiv> evaluated_status E h dc results"
  assumes "wiring_ok E r"
  obtains (verdict) u where "snd (evaluated E r dc i results h) = h @ CallStatusUpdate d # u"
      "filter status_call u = []" "filter send_call u = []"
    | (notified) dc1 u v where "snd (evaluated E r dc i results h) = h @ CallStatusUpdate d # u @ v"
      "kl_StatusUpdate (e_kube E) h d = Inr dc1" "notification_due dc1"
      "filter status_call u = []" "\<forall>wh ev. CallSend wh ev \<in> set u \<longrightarrow> ev = dc_event dc1"
      "v = [] \<or> v = [CallStatusUpdate (set_notified (fingerprint dc1) dc1)]
        \<and> (\<exists>g w. u = g @ w \<and> all_delivered E r dc1 (h @ CallStatusUpdate d # g))"
proof (cases "kl_StatusUpdate (e_kube E) h d")
  case (Inl err)
  then show ?thesis
    by (intro verdict [of "[]"]) (simp_all add: d_def evaluated_unwritten)
next
  case (Inr dc1)
  obtain gs where gs: "list_all gauge_call gs"
      "snd (evaluated E r dc i results h) = snd (notify E r dc1 (h @ CallStatusUpdate d # gs))"
    unfolding d_def by (rule evaluated_written_calls [OF Inr [unfolded d_def]])
  let ?h = "h @ CallStatusUpdate d # gs" and ?upd = "CallStatusUpdate (set_notified (fingerprint dc1) dc1)"
  show ?thesis
  proof (cases "notification_due dc1")
    case False
    then show ?thesis
      using gs gauge_calls_quiet by (intro verdict [of gs]) (simp_all add: notify_not_due)
  next
    case True
    obtain u where u: "filter status_call u = []" "\<forall>wh ev. CallSend wh ev \<in> set u \<longrightarrow> ev = dc_event dc1"
        "snd (notify E r dc1 ?h) = ?h @ u \<or> snd (notify E r dc1 ?h) = ?h @ u @ [?upd] \<and> all_delivered E r dc1 ?h"
      using assms(2) unfolding all_delivered_def wiring_ok_def
      by (elim conjE notify_due_shape [OF True, where h = ?h])
    have gu: "filter status_call (gs @ u) = []" "\<forall>wh ev. CallSend wh ev \<in> set (gs @ u) \<longrightarrow> ev = dc_event dc1"
      using u(1,2) gs(1) by (auto simp: gauge_not_status gauge_not_send)
    from u(3) show ?thesis
    proof
      assume "snd (notify E r dc1 ?h) = ?h @ u"
      then show ?thesis
        using gs(2) by (intro notified [OF _ Inr True gu, of "[]"]) simp_all
    next
      assume v: "snd (notify E r dc1 ?h) = ?h @ u @ [?upd] \<and> all_delivered E r dc1 ?h"
      then show ?thesis
        using gs(2) by (intro notified [OF _ Inr True gu, of "[?upd]"]) auto
    qed
  qed
qed

text \<open>
  What a run writes and sends, after the reads \<open>t\<close>: at most a first status write, on the object that
  was read and with its fingerprint; and if that write was accepted and a notification is due, the
  sends, and at most a second write, which records the fingerprint of what was sent.
\<close>

lemma Reconcile_shape:
  assumes "wiring_ok E r"
  obtains (silent) t where "snd (Reconcile E r n h) = h @ t" "filter status_call t = []" "filter send_call t = []"
    | (verdict) t dc d u where "snd (Reconcile E r n h) = h @ t @ CallStatusUpdate d # u"
      "kl_GetDriftCheck (e_kube E) h n = Inr dc" "dc_meta d = dc_meta dc"
      "st_lastNotifiedHash (dc_status d) = st_lastNotifiedHash (dc_status dc)"
      "filter status_call t = []" "filter send_call t = []" "filter status_call u = []" "filter send_call u = []"
      "verdict_write E dc d"
    | (notified) t dc d dc1 u v where "snd (Reconcile E r n h) = h @ t @ CallStatusUpdate d # u @ v"
      "kl_GetDriftCheck (e_kube E) h n = Inr dc" "dc_meta d = dc_meta dc"
      "st_lastNotifiedHash (dc_status d) = st_lastNotifiedHash (dc_status dc)"
      "kl_StatusUpdate (e_kube E) (h @ t) d = Inr dc1" "notification_due dc1"
      "filter status_call t = []" "filter send_call t = []" "filter status_call u = []"
      "\<forall>wh ev. CallSend wh ev \<in> set u \<longrightarrow> ev = dc_event dc1"
      "v = [] \<or> v = [CallStatusUpdate (set_notified (fingerprint dc1) dc1)]
        \<and> (\<exists>g w. u = g @ w \<and> all_delivered E r dc1 (h @ t @ CallStatusUpdate d # g))"
      "verdict_write E dc d"
proof -
  obtain v0 h1 where d: "decide E r n h = (v0, h1)"
    by fastforce
  obtain t where t: "h1 = h @ t" "list_all (\<lambda>c. \<not> visible c) t"
    using decide_quiet [OF assms d] by blast
  note quiet = quiet_calls [OF t(2)]
  show ?thesis
  proof (cases v0)
    case Gone
    obtain gs where gs: "Recorder_Delete (r_Metrics r) (nn_name n) (nn_namespace n) h1 = ((), h1 @ gs)"
        "list_all gauge_call gs"
      by (rule Recorder_Delete_gauges)
    show ?thesis
      by (rule silent [of "t @ gs"]) (use Gone d t(1) gs quiet gauge_calls_quiet in \<open>simp_all add: Reconcile_perform\<close>)
  next
    case (Unreadable err)
    show ?thesis
      by (rule silent [of t]) (use Unreadable d t(1) quiet in \<open>simp_all add: Reconcile_perform\<close>)
  next
    case (Permanent dc reason cause)
    obtain gs where gs: "Recorder_Delete (r_Metrics r) (dc_name dc) (dc_namespace dc) h1 = ((), h1 @ gs)"
        "list_all gauge_call gs"
      by (rule Recorder_Delete_gauges)
    have reason: "reason \<in> set failure_reasons"
      using permanent_reason d Permanent by blast
    have run: "snd (Reconcile E r n h) = h @ (t @ gs) @ CallStatusUpdate (not_ready E (h1 @ gs) dc reason cause) # []"
      using d Permanent gs(1) t(1)
      by (simp add: Reconcile_perform permanentFail_def markNotReady_calls split: sum.split)
    show ?thesis
      by (rule verdict [OF run decide_read [OF d]])
        (use Permanent quiet gauge_calls_quiet gs(2) verdict_write_simps(1) [OF reason] in
          \<open>simp_all add: not_ready_keeps\<close>)
  next
    case (Transient dc err)
    have ww: "verdict_write E dc (not_ready E h1 dc ''CompareError'' err)"
      by (rule verdict_write_simps(1)) (simp add: failure_reasons_def)
    have run: "snd (Reconcile E r n h) = h @ t @ CallStatusUpdate (not_ready E h1 dc ''CompareError'' err) # []"
      using d Transient t(1) by (simp add: Reconcile_perform markNotReady_calls)
    show ?thesis
      by (rule verdict [OF run decide_read [OF d]]) (use Transient quiet ww in \<open>simp_all add: not_ready_keeps\<close>)
  next
    case (Compared dc results)
    have read: "kl_GetDriftCheck (e_kube E) h n = Inr dc"
      using decide_read [OF d] Compared by simp
    have run: "Reconcile E r n h = evaluated E r dc (effective_interval dc) results (h @ t)"
      using d Compared t(1) by (simp add: Reconcile_perform)
    note facts = quiet evaluated_status_keeps verdict_write_simps
    show ?thesis
    proof (rule evaluated_shape [OF assms, of dc "effective_interval dc" results "h @ t"])
      fix u
      assume "snd (evaluated E r dc (effective_interval dc) results (h @ t))
          = (h @ t) @ CallStatusUpdate (evaluated_status E (h @ t) dc results) # u"
        "filter status_call u = []" "filter send_call u = []"
      then show ?thesis
        using run read by (intro verdict [of t "evaluated_status E (h @ t) dc results" u dc]) (simp_all add: facts)
    next
      fix dc1 u v
      assume "snd (evaluated E r dc (effective_interval dc) results (h @ t))
          = (h @ t) @ CallStatusUpdate (evaluated_status E (h @ t) dc results) # u @ v"
        "kl_StatusUpdate (e_kube E) (h @ t) (evaluated_status E (h @ t) dc results) = Inr dc1"
        "notification_due dc1" "filter status_call u = []"
        "\<forall>wh ev. CallSend wh ev \<in> set u \<longrightarrow> ev = dc_event dc1"
        "v = [] \<or> v = [CallStatusUpdate (set_notified (fingerprint dc1) dc1)] \<and> (\<exists>g w. u = g @ w
           \<and> all_delivered E r dc1 ((h @ t) @ CallStatusUpdate (evaluated_status E (h @ t) dc results) # g))"
      then show ?thesis
        using run read
        by (intro notified [of t "evaluated_status E (h @ t) dc results" u v dc dc1]) (simp_all add: facts)
    qed
  qed
qed

subsection \<open>The status writes of a run\<close>

lemma split_quiet:
  assumes "t @ xs = p @ c # q" "c \<notin> set t"
  obtains p' where "p = t @ p'" "xs = p' @ c # q"
  using assms by (auto simp: append_eq_append_conv2 append_eq_Cons_conv)

lemma not_filtered: "filter f t = [] \<Longrightarrow> f c \<Longrightarrow> c \<notin> set t"
  by (auto simp: filter_empty_conv)

text \<open>Every write is the verdict on the DriftCheck that was read, or records what was notified.\<close>

lemma Reconcile_writes:
  assumes "wiring_ok E r" "snd (Reconcile E r n h) = h @ a @ CallStatusUpdate d' # b"
  shows "(\<exists>dc. kl_GetDriftCheck (e_kube E) h n = Inr dc \<and> verdict_write E dc d')
    \<or> (\<exists>h' d dc1. kl_StatusUpdate (e_kube E) h' d = Inr dc1 \<and> d' = set_notified (fingerprint dc1) dc1)"
proof -
  have in_run: "CallStatusUpdate d' \<in> set xs" if "snd (Reconcile E r n h) = h @ xs" for xs
    using assms(2) that by (metis in_set_conv_decomp same_append_eq)
  show ?thesis
  proof (rule Reconcile_shape [OF assms(1), where n = n and h = h], goal_cases silent verdict notified)
    case (silent t)
    then show ?thesis
      using in_run not_filtered [of status_call t "CallStatusUpdate d'"] by auto
  next
    case (verdict t dc d u)
    then have "d' = d"
      using in_run [OF verdict(1)] not_filtered [of status_call _ "CallStatusUpdate d'"] by auto
    then show ?thesis
      using verdict by blast
  next
    case (notified t dc d dc1 u v)
    then have "d' = d \<or> d' = set_notified (fingerprint dc1) dc1"
      using in_run [OF notified(1)] not_filtered [of status_call _ "CallStatusUpdate d'"] by auto
    then show ?thesis
      using notified by blast
  qed
qed

end
