(* ===== verification/Announcements.thy ===== *)
theory Announcements
  imports Run_Shape
begin

text \<open>
  Notifications over the whole life of the process, against an API server with optimistic
  concurrency. \<open>docs/USAGE.md\<close> promises that a message is sent only when the drifted set changes;
  the reads behind a run may come from a stale cache, so this rests on the order of the writes of
  \<open>internal/controller/driftcheck_controller.go\<close> and \<open>notify.go\<close>.
\<close>

subsection \<open>The API server\<close>

text \<open>
  What the Kubernetes documentation says of the status subresource: an accepted update stores the
  status it was given; nothing else writes a status, but at any time anybody may delete a DriftCheck,
  and create one of the same name, whose status is then empty; and an update with the metadata of an
  earlier read (its uid and resource version) is accepted only if what was read is still what is
  stored. \<open>stored h n\<close> is the status of the DriftCheck \<open>n\<close> after the calls of \<open>h\<close>; reads may be
  arbitrarily old.
\<close>

definition DriftCheckStatus_zero :: DriftCheckStatus where
  "DriftCheckStatus_zero =
     \<lparr>st_lastCheckedAt = None, st_driftedResources = [], st_summary = DriftSummary_zero,
      st_observedGeneration = 0, st_lastNotifiedHash = [], st_conditions = []\<rparr>"

definition unwritten :: "DriftCheckStatus option \<Rightarrow> DriftCheckStatus option \<Rightarrow> bool" where
  "unwritten s s' \<longleftrightarrow> s' = s \<or> s' = None \<or> s' = Some DriftCheckStatus_zero"

lemma unwritten_refl [simp]: "unwritten s s"
  by (simp add: unwritten_def)

lemma unwritten_trans: "unwritten s s' \<Longrightarrow> unwritten s' s'' \<Longrightarrow> unwritten s s''"
  by (auto simp: unwritten_def)

type_synonym store = "NamespacedName \<Rightarrow> DriftCheckStatus option"

text \<open>\<open>writes_status k h m c\<close>: after \<open>h\<close>, the call \<open>c\<close> is an accepted update of the status of \<open>m\<close>.\<close>

definition writes_status :: "kube_lib \<Rightarrow> history \<Rightarrow> NamespacedName \<Rightarrow> call \<Rightarrow> bool" where
  "writes_status k h m c \<longleftrightarrow>
     (case c of
        CallStatusUpdate d \<Rightarrow> request_of d = m \<and> \<not> isl (kl_StatusUpdate k h d)
      | _ \<Rightarrow> False)"

definition api_server :: "kube_lib \<Rightarrow> (history \<Rightarrow> store) \<Rightarrow> bool" where
  "api_server k stored \<longleftrightarrow>
     (\<forall>h d d'. kl_StatusUpdate k h d = Inr d' \<longrightarrow>
        dc_status d' = dc_status d \<and> request_of d' = request_of d
        \<and> stored (h @ [CallStatusUpdate d]) (request_of d) = Some (dc_status d))
     \<and> (\<forall>h c m. \<not> writes_status k h m c \<longrightarrow> unwritten (stored h m) (stored (h @ [c]) m))
     \<and> (\<forall>h n dc. kl_GetDriftCheck k h n = Inr dc \<longrightarrow> request_of dc = n)
     \<and> (\<forall>h t n dc d d'. kl_GetDriftCheck k h n = Inr dc \<longrightarrow> dc_meta d = dc_meta dc \<longrightarrow>
          kl_StatusUpdate k (h @ t) d = Inr d' \<longrightarrow> stored (h @ t) n = Some (dc_status dc))"

lemma api_accepted:
  assumes "api_server k stored" "kl_StatusUpdate k h d = Inr d'"
  shows "dc_status d' = dc_status d" "request_of d' = request_of d"
    "stored (h @ [CallStatusUpdate d]) (request_of d) = Some (dc_status d)"
  using assms unfolding api_server_def by blast+

lemma api_named: "api_server k stored \<Longrightarrow> kl_GetDriftCheck k h n = Inr dc \<Longrightarrow> request_of dc = n"
  unfolding api_server_def by blast

lemma api_current:
  assumes "api_server k stored" "kl_GetDriftCheck k h n = Inr dc" "dc_meta d = dc_meta dc"
    and "kl_StatusUpdate k (h @ t) d = Inr d'"
  shows "stored (h @ t) n = Some (dc_status dc)"
  using assms unfolding api_server_def by blast

lemma api_quiet:
  assumes "api_server k stored"
  shows "filter status_call t = [] \<Longrightarrow> unwritten (stored h m) (stored (h @ t) m)"
proof (induction t rule: rev_induct)
  case (snoc c t)
  have "\<not> status_call c" "filter status_call t = []"
    using snoc.prems by (simp_all split: if_splits)
  then have "\<not> writes_status k (h @ t) m c"
    by (cases c) (simp_all add: writes_status_def)
  then have "unwritten (stored (h @ t) m) (stored ((h @ t) @ [c]) m)"
    using assms unfolding api_server_def by blast
  then show ?case
    using snoc.IH \<open>filter status_call t = []\<close> by (auto intro: unwritten_trans)
qed simp

subsection \<open>Only changes are announced\<close>

text \<open>The first write of a run was accepted: the server still held what the run had read.\<close>

lemma verdict_accepted:
  assumes "api_server k stored" "kl_GetDriftCheck k h n = Inr dc" "dc_meta d = dc_meta dc"
    and "kl_StatusUpdate k (h @ t) d = Inr dc1"
  shows "stored (h @ t) n = Some (dc_status dc)" "request_of d = n" "request_of dc1 = n"
    "dc_status dc1 = dc_status d"
    "stored (h @ t @ [CallStatusUpdate d]) n = Some (dc_status d)"
  using api_accepted [OF assms(1,4)] api_current [OF assms] api_named [OF assms(1,2)] assms(3)
  by simp_all

lemma Reconcile_announces:
  assumes "api_server (e_kube E) stored" "wiring_ok E r"
    and run: "snd (Reconcile E r n h) = h @ a @ CallSend wh ev # b"
  shows "\<exists>a1 d a2 dc1 st. a = a1 @ CallStatusUpdate d # a2
    \<and> kl_StatusUpdate (e_kube E) (h @ a1) d = Inr dc1 \<and> ev = dc_event dc1
    \<and> stored (h @ a1) (request_of dc1) = Some st \<and> st_lastNotifiedHash st \<noteq> fingerprint dc1
    \<and> unwritten (Some (dc_status dc1)) (stored (h @ a) (request_of dc1))"
proof (rule Reconcile_shape [OF assms(2), where n = n and h = h], goal_cases silent verdict notified)
  case (silent t)
  then show ?thesis
    using run not_filtered [of send_call t "CallSend wh ev"] by auto
next
  case (verdict t dc d u)
  have "CallSend wh ev \<in> set (t @ CallStatusUpdate d # u)"
    using run verdict(1) by (metis in_set_conv_decomp same_append_eq)
  then show ?thesis
    using verdict(6,8) not_filtered [of send_call _ "CallSend wh ev"] by auto
next
  case (notified t dc d dc1 u v)
  note acc = verdict_accepted [OF assms(1) notified(2,3,5)]
  have eq: "t @ CallStatusUpdate d # u @ v = a @ CallSend wh ev # b"
    using run notified(1) by simp
  obtain a' where a': "a = t @ a'" "[CallStatusUpdate d] @ u @ v = a' @ CallSend wh ev # b"
    by (rule split_quiet [OF eq not_filtered [of send_call t]]) (use notified(8) in simp_all)
  obtain a2 where a2: "a' = [CallStatusUpdate d] @ a2" "u @ v = a2 @ CallSend wh ev # b"
    by (rule split_quiet [OF a'(2)]) auto
  obtain u2 where u2: "u = a2 @ CallSend wh ev # u2"
    using a2(2) notified(11) by (auto simp: append_eq_append_conv2 append_eq_Cons_conv Cons_eq_append_conv)
  have "st_lastNotifiedHash (dc_status dc) \<noteq> fingerprint dc1"
    using notified(4,6) acc(4) by (auto simp: notification_due_def)
  moreover have "filter status_call a2 = []"
    using notified(9) u2 by simp
  then have "unwritten (Some (dc_status dc1)) (stored (h @ a) n)"
    using api_quiet [OF assms(1), of a2 "h @ t @ [CallStatusUpdate d]" n] acc(4,5)
    by (simp add: a'(1) a2(1))
  moreover have "ev = dc_event dc1"
    using notified(10) u2 by simp
  ultimately show ?thesis
    using notified(5) acc(1,3) a'(1) a2(1) by auto
qed

subsection \<open>An example\<close>

text \<open>
  A store with resource versions, one longer at each write, whose reads are \<open>lag\<close> calls old. It
  starts with the DriftCheck of the example.
\<close>

definition accept_write :: "(NamespacedName \<rightharpoonup> DriftCheck) \<Rightarrow> DriftCheck \<Rightarrow> error + DriftCheck" where
  "accept_write m d =
     (case m (request_of d) of
        None \<Rightarrow> Inl (StatusErr ''NotFound'' ''not found'')
      | Some cur \<Rightarrow>
          if dc_meta d = dc_meta cur then
            Inr (d\<lparr>dc_meta := (dc_meta d)\<lparr>om_resourceVersion := om_resourceVersion (dc_meta d) @ ''+''\<rparr>\<rparr>)
          else Inl (StatusErr ''Conflict'' ''object has been modified''))"

fun store_call :: "call \<Rightarrow> (NamespacedName \<rightharpoonup> DriftCheck) \<Rightarrow> (NamespacedName \<rightharpoonup> DriftCheck)" where
  "store_call (CallStatusUpdate d) m =
     (case accept_write m d of Inl e \<Rightarrow> m | Inr d' \<Rightarrow> m(request_of d' \<mapsto> d'))"
| "store_call _ m = m"

definition ex_store :: "history \<Rightarrow> NamespacedName \<rightharpoonup> DriftCheck" where
  "ex_store h = fold store_call h [ex_req \<mapsto> ex_dc]"

definition lagging_env :: "nat \<Rightarrow> env" where
  "lagging_env lag = ex_env\<lparr>e_kube := ex_kube\<lparr>
     kl_GetDriftCheck := \<lambda>h n. case ex_store (take (length h - lag) h) n of
        None \<Rightarrow> Inl (StatusErr ''NotFound'' ''not found'') | Some dc \<Rightarrow> Inr dc,
     kl_StatusUpdate := \<lambda>h d. accept_write (ex_store h) d\<rparr>\<rparr>"

lemma accept_write_Inr:
  assumes "accept_write m d = Inr d'"
  obtains cur where "m (request_of d) = Some cur" "dc_meta d = dc_meta cur"
    "d' = d\<lparr>dc_meta := (dc_meta d)\<lparr>om_resourceVersion := om_resourceVersion (dc_meta d) @ ''+''\<rparr>\<rparr>"
  using assms by (auto simp: accept_write_def split: option.splits if_splits)

lemma store_call_quiet: "\<not> status_call c \<Longrightarrow> store_call c m = m"
  by (cases c) auto

lemma ex_store_snoc: "ex_store (h @ [c]) = store_call c (ex_store h)"
  by (simp add: ex_store_def)

lemma ex_store_named: "ex_store h n = Some dc \<Longrightarrow> request_of dc = n"
proof (induction h arbitrary: n dc rule: rev_induct)
  case Nil
  then show ?case
    by (auto simp: ex_store_def ex_req_def ex_dc_def split: if_splits)
next
  case (snoc c h)
  then show ?case
    by (cases "(c, ex_store h)" rule: store_call.cases)
      (auto simp: ex_store_snoc split: sum.splits if_splits)
qed

text \<open>A version is never given twice.\<close>

lemma ex_store_versions:
  assumes "ex_store h n = Some dc"
  shows "\<exists>dc'. ex_store (h @ t) n = Some dc'
    \<and> (dc' = dc \<or> length (om_resourceVersion (dc_meta dc)) < length (om_resourceVersion (dc_meta dc')))"
proof (induction t rule: rev_induct)
  case Nil
  then show ?case using assms by simp
next
  case (snoc c t)
  then obtain dc' where dc': "ex_store (h @ t) n = Some dc'"
      "dc' = dc \<or> length (om_resourceVersion (dc_meta dc)) < length (om_resourceVersion (dc_meta dc'))"
    by blast
  have step: "ex_store (h @ t @ [c]) = store_call c (ex_store (h @ t))"
    using ex_store_snoc [of "h @ t" c] by simp
  show ?case
  proof (cases "\<exists>d d2. c = CallStatusUpdate d \<and> accept_write (ex_store (h @ t)) d = Inr d2 \<and> request_of d2 = n")
    case True
    then obtain d d2 where c: "c = CallStatusUpdate d" "accept_write (ex_store (h @ t)) d = Inr d2"
        "request_of d2 = n"
      by blast
    from c(2) show ?thesis
      by (rule accept_write_Inr) (use c dc' step in auto)
  next
    case False
    then have "store_call c (ex_store (h @ t)) n = ex_store (h @ t) n"
      by (cases "(c, ex_store (h @ t))" rule: store_call.cases) (auto split: sum.splits)
    then show ?thesis
      using step dc' by simp
  qed
qed

lemma lagging_api:
  "api_server (e_kube (lagging_env lag)) (\<lambda>h n. map_option dc_status (ex_store h n))"
proof -
  have upd: "kl_StatusUpdate (e_kube (lagging_env lag)) h d = accept_write (ex_store h) d" for h d
    by (simp add: lagging_env_def)
  have get: "ex_store (take (length h - lag) h) n = Some dc"
    if "kl_GetDriftCheck (e_kube (lagging_env lag)) h n = Inr dc" for h n dc
    using that by (simp add: lagging_env_def split: option.splits)
  have current: "ex_store (h @ t) n = Some dc"
    if "kl_GetDriftCheck (e_kube (lagging_env lag)) h n = Inr dc" "dc_meta d = dc_meta dc"
      "accept_write (ex_store (h @ t)) d = Inr d'" for h t n dc d d'
  proof -
    note read = get [OF that(1)]
    from that(3) obtain cur where cur: "ex_store (h @ t) (request_of d) = Some cur" "dc_meta d = dc_meta cur"
      by (rule accept_write_Inr)
    have n: "request_of d = n"
      using ex_store_named [OF read] that(2) by simp
    have "h @ t = take (length h - lag) h @ drop (length h - lag) h @ t"
      by simp
    then have "cur = dc \<or> length (om_resourceVersion (dc_meta dc)) < length (om_resourceVersion (dc_meta cur))"
      using ex_store_versions [OF read] cur(1) unfolding n by (metis option.inject)
    moreover have "dc_meta cur = dc_meta dc"
      using cur(2) that(2) by simp
    ultimately show ?thesis
      using cur(1) unfolding n by simp
  qed
  have accepted: "dc_status d' = dc_status d \<and> request_of d' = request_of d
      \<and> map_option dc_status (ex_store (h @ [CallStatusUpdate d]) (request_of d)) = Some (dc_status d)"
    if "accept_write (ex_store h) d = Inr d'" for h d d'
    by (rule accept_write_Inr [OF that]) (use that in \<open>auto simp: ex_store_snoc\<close>)
  have other: "ex_store (h @ [c]) m = ex_store h m"
    if "\<not> writes_status (e_kube (lagging_env lag)) h m c" for h c m
    using that by (cases "(c, ex_store h)" rule: store_call.cases)
      (auto simp: ex_store_snoc writes_status_def upd split: sum.split elim: accept_write_Inr)
  show ?thesis
    unfolding api_server_def upd
  proof (intro conjI allI impI, goal_cases)
    case (4 h c m)
    then show ?case
      by (simp add: other)
  qed (use accepted current ex_store_named [OF get] in blast)+
qed

lemma lagging_wiring: "wiring_ok (lagging_env lag) ex_reconciler"
  using ex_wiring by (simp add: wiring_ok_def engine_ok_def lagging_env_def)

lemma lagging_finds: "finds_example (e_kube (lagging_env lag))"
  by (simp add: finds_example_def lagging_env_def ex_store_def)

definition ex_reads :: history where
  "ex_reads = [CallGetDriftCheck ex_req,
     CallGetConfigMap \<lparr>nn_namespace = ''prod'', nn_name = ''desired''\<rparr>,
     CallBytesSourceLoad ex_manifests]"

lemma lagging_compared:
  "decide (lagging_env lag) ex_reconciler ex_req [] = (Compared ex_dc [ex_result ex_manifest], ex_reads)"
  by (simp add: ex_run_decide [OF lagging_finds] verdict_of_run_def)
    (simp add: ex_reads_def lagging_env_def ex_env_def ex_kd_def io_defs BytesSource_Load_def)

text \<open>The status of the example's comparison, and the object the store returns for it.\<close>

definition ex_first :: DriftCheck where
  "ex_first = evaluated_status ex_env ex_reads ex_dc [ex_result ex_manifest]"

definition ex_stored :: DriftCheck where
  "ex_stored = ex_first\<lparr>dc_meta := (dc_meta ex_dc)\<lparr>om_resourceVersion := ''7+''\<rparr>\<rparr>"

lemma lagging_first:
  "evaluated_status (lagging_env lag) ex_reads ex_dc [ex_result ex_manifest] = ex_first"
  by (simp add: ex_first_def evaluated_status_def set_condition_def lagging_env_def ex_env_def)

lemma ex_first_meta: "dc_meta ex_first = dc_meta ex_dc" "request_of ex_first = ex_req"
  by (simp_all add: ex_first_def evaluated_status_keeps ex_dc_def ex_req_def)

lemma lagging_update:
  "kl_StatusUpdate (e_kube (lagging_env lag)) ex_reads ex_first = Inr ex_stored"
  using ex_first_meta
  by (simp add: lagging_env_def ex_store_def ex_reads_def accept_write_def ex_stored_def ex_dc_def)

lemma ex_stored_due: "notification_due ex_stored" "dc_webhooks ex_stored = [ex_webhook]"
  using ex_evaluated(1,2) [of ex_reads, folded ex_first_def]
  by (simp_all add: ex_stored_def notification_due_def dc_webhooks_def)

lemma lagging_run:
  obtains gs t where
    "snd (Reconcile (lagging_env lag) ex_reconciler ex_req []) = ex_reads @ CallStatusUpdate ex_first # gs @ t"
    "list_all gauge_call gs" "filter send_call t = [send_to (dc_event ex_stored) ex_webhook]"
    "filter status_call t =
       (if all_delivered (lagging_env lag) ex_reconciler ex_stored (ex_reads @ CallStatusUpdate ex_first # gs)
        then [CallStatusUpdate (set_notified (fingerprint ex_stored) ex_stored)] else [])"
proof -
  have inline: "list_all inline_url (dc_webhooks ex_stored)"
    by (simp add: ex_stored_due inline_url_def ex_webhook_def)
  note update = lagging_update [of lag, folded lagging_first [of lag]]
  show ?thesis
    by (rule Reconcile_sends [OF lagging_compared ex_reconciler_notifier update ex_stored_due(1) inline])
      (rule that, simp_all add: lagging_first all_delivered_def ex_stored_due(2) del: deliveries.simps)
qed

lemma lagging_delivered: "all_delivered (lagging_env lag) ex_reconciler ex_stored h"
  unfolding all_delivered_def ex_stored_due(2)
  by (simp add: deliver_def resolveWebhookURL_def ex_webhook_def io_defs pure_def payload_def
      notifier_or_default_def ex_reconciler_def Sender_Send_def NewSender_def http_Do_def ex_env_def
      lagging_env_def ex_http_def go_simps Let_def)

lemma ex_store_quiet: "filter status_call t = [] \<Longrightarrow> ex_store (h @ t) = ex_store h"
proof (induction t rule: rev_induct)
  case (snoc c t)
  then show ?case
    using ex_store_snoc [of "h @ t" c] by (simp add: store_call_quiet split: if_splits)
qed simp

lemma ex_store_first: "ex_store (ex_reads @ [CallStatusUpdate ex_first]) = [ex_req \<mapsto> ex_stored]"
  using lagging_update [of 0] ex_first_meta
  by (simp add: ex_store_snoc lagging_env_def)
    (simp add: ex_store_def ex_reads_def ex_stored_def ex_dc_def ex_req_def)

text \<open>
  C2: A webhook hears of a DriftCheck only when its drift changed. At every notification of the whole
  life of the process, the fingerprint of the last announcement that the API server holds is that of
  another drift set than the event's, and the event describes the status that is stored at that
  moment, unless the DriftCheck was deleted after it was written. This holds however old the reads of
  the client's cache are, and whoever deletes and re-creates DriftChecks meanwhile.
\<close>
theorem controller_announces_changes_only:
  assumes "api_server (e_kube E) stored" "wiring_ok E r" "loop_runs E r controller_start s"
    and "ct_history s = a @ CallSend wh ev # b"
  shows "\<exists>a1 d a2 dc1 st. a = a1 @ CallStatusUpdate d # a2
    \<and> kl_StatusUpdate (e_kube E) a1 d = Inr dc1 \<and> ev = dc_event dc1
    \<and> stored a1 (request_of dc1) = Some st \<and> st_lastNotifiedHash st \<noteq> fingerprint dc1
    \<and> unwritten (Some (dc_status dc1)) (stored a (request_of dc1))"
proof -
  obtain n h a' b' where o: "a = h @ a'" "snd (Reconcile E r n h) = h @ a' @ CallSend wh ev # b'"
    by (rule loop_call_origin [OF assms(2-)])
  show ?thesis
    using Reconcile_announces [OF assms(1,2) o(2)] unfolding o(1) by (metis append.assoc)
qed

theorem controller_announces_changes_only_witness:
  "\<exists>a1 d a2 dc1 st wh b. snd (Reconcile (lagging_env 2) ex_reconciler ex_req [])
      = a1 @ CallStatusUpdate d # a2 @ CallSend wh (dc_event dc1) # b
    \<and> map_option dc_status (ex_store a1 (request_of dc1)) = Some st
    \<and> st_lastNotifiedHash st \<noteq> fingerprint dc1"
proof -
  let ?E = "lagging_env 2" and ?t = "after_run (lagging_env 2) ex_reconciler ex_req [] ex_observed"
  obtain gs t where t: "snd (Reconcile ?E ex_reconciler ex_req []) = ex_reads @ CallStatusUpdate ex_first # gs @ t"
      "filter send_call t = [send_to (dc_event ex_stored) ex_webhook]"
    by (rule lagging_run)
  obtain u v where "t = u @ send_to (dc_event ex_stored) ex_webhook # v"
    by (rule send_in [of t "dc_event ex_stored" "[ex_webhook]" ex_webhook]) (simp_all add: t(2))
  then obtain wh ev b where run: "snd (Reconcile ?E ex_reconciler ex_req [])
      = (ex_reads @ CallStatusUpdate ex_first # gs @ u) @ CallSend wh ev # b"
    using t(1) by (simp add: send_to_def)
  then have "ct_history ?t = (ex_reads @ CallStatusUpdate ex_first # gs @ u) @ CallSend wh ev # b"
    by (simp add: ex_observed_def)
  from controller_announces_changes_only [OF lagging_api lagging_wiring ex_first_run this]
  obtain a1 d a2 dc1 st where "ex_reads @ CallStatusUpdate ex_first # gs @ u = a1 @ CallStatusUpdate d # a2"
      "ev = dc_event dc1" "map_option dc_status (ex_store a1 (request_of dc1)) = Some st"
      "st_lastNotifiedHash st \<noteq> fingerprint dc1"
    by blast
  then show ?thesis
    unfolding run by (metis append.assoc append_Cons)
qed

subsection \<open>Only what was delivered is recorded\<close>

lemma Reconcile_records:
  assumes "api_server (e_kube E) stored" "wiring_ok E r"
    and run: "snd (Reconcile E r n h) = h @ a @ CallStatusUpdate d' # b"
    and "kl_StatusUpdate (e_kube E) (h @ a) d' = Inr d''"
    and "stored (h @ a) (request_of d') = Some st"
    and "st_lastNotifiedHash (dc_status d') \<noteq> st_lastNotifiedHash st"
  shows "\<exists>dc1 a1 a2. a = a1 @ a2 \<and> d' = set_notified (fingerprint dc1) dc1 \<and> all_delivered E r dc1 (h @ a1)"
proof -
  have first: False
    if "kl_GetDriftCheck (e_kube E) h n = Inr dc" "dc_meta d' = dc_meta dc"
      "st_lastNotifiedHash (dc_status d') = st_lastNotifiedHash (dc_status dc)" for dc
    using verdict_accepted [OF assms(1) that(1,2) assms(4)] assms(5,6) that(3) by simp
  show ?thesis
  proof (rule Reconcile_shape [OF assms(2), where n = n and h = h], goal_cases silent verdict notified)
    case (silent t)
    then show ?thesis
      using run not_filtered [of status_call t "CallStatusUpdate d'"] by auto
  next
    case (verdict t dc d u)
    have eq: "t @ CallStatusUpdate d # u = a @ CallStatusUpdate d' # b"
      using run verdict(1) by simp
    obtain a' where "CallStatusUpdate d # u = a' @ CallStatusUpdate d' # b"
      by (rule split_quiet [OF eq not_filtered [of status_call t]]) (use verdict(5) in simp_all)
    then have "d' = d"
      using not_filtered [OF verdict(7), of "CallStatusUpdate d'"] by (cases a') auto
    then show ?thesis
      using first verdict(2-4) by blast
  next
    case (notified t dc d dc1 u v)
    have eq: "t @ CallStatusUpdate d # u @ v = a @ CallStatusUpdate d' # b"
      using run notified(1) by simp
    obtain a' where a': "a = t @ a'" "[CallStatusUpdate d] @ u @ v = a' @ CallStatusUpdate d' # b"
      by (rule split_quiet [OF eq not_filtered [of status_call t]]) (use notified(7) in simp_all)
    have "d' \<noteq> d"
      using first notified(2-4) by blast
    obtain a2 where a2: "a' = [CallStatusUpdate d] @ a2" "u @ v = a2 @ CallStatusUpdate d' # b"
      by (rule split_quiet [OF a'(2)]) (use \<open>d' \<noteq> d\<close> in auto)
    obtain a3 where a3: "a2 = u @ a3" "v = a3 @ CallStatusUpdate d' # b"
      by (rule split_quiet [OF a2(2) not_filtered [of status_call u]]) (use notified(9) in simp_all)
    then have "d' = set_notified (fingerprint dc1) dc1"
      using notified(11) by (cases a3) auto
    moreover obtain g w where "u = g @ w" "all_delivered E r dc1 (h @ t @ CallStatusUpdate d # g)"
      using notified(11) a3(2) by blast
    moreover have "a = (t @ CallStatusUpdate d # g) @ w @ a3" if "u = g @ w" for g w
      using that a'(1) a2(1) a3(1) by simp
    ultimately show ?thesis
      by (metis append.assoc)
  qed
qed

text \<open>
  C3: What is recorded as announced was announced. Over the whole life of the process, an accepted
  status write that changes the stored fingerprint records the fingerprint of its own drift set, and
  every webhook of that DriftCheck had accepted the event before.
\<close>
theorem controller_records_deliveries:
  assumes "api_server (e_kube E) stored" "wiring_ok E r" "loop_runs E r controller_start s"
    and "ct_history s = a @ CallStatusUpdate d # b" "kl_StatusUpdate (e_kube E) a d = Inr d'"
    and "stored a (request_of d) = Some st"
    and "st_lastNotifiedHash (dc_status d) \<noteq> st_lastNotifiedHash st"
  shows "\<exists>dc1 a1 a2. a = a1 @ a2 \<and> d = set_notified (fingerprint dc1) dc1 \<and> all_delivered E r dc1 a1"
proof -
  obtain n h a' b' where o: "a = h @ a'" "snd (Reconcile E r n h) = h @ a' @ CallStatusUpdate d # b'"
    by (rule loop_call_origin [OF assms(2-4)])
  show ?thesis
    using Reconcile_records [OF assms(1,2) o(2) assms(5-7) [unfolded o(1)]] unfolding o(1)
    by (metis append.assoc)
qed

theorem controller_records_deliveries_witness:
  "\<exists>a1 a2 b dc1. snd (Reconcile (lagging_env 2) ex_reconciler ex_req [])
      = (a1 @ a2) @ CallStatusUpdate (set_notified (fingerprint dc1) dc1) # b
    \<and> all_delivered (lagging_env 2) ex_reconciler dc1 a1"
proof -
  let ?E = "lagging_env 2" and ?t = "after_run (lagging_env 2) ex_reconciler ex_req [] ex_observed"
  let ?d = "set_notified (fingerprint ex_stored) ex_stored"
  obtain gs t where t: "snd (Reconcile ?E ex_reconciler ex_req []) = ex_reads @ CallStatusUpdate ex_first # gs @ t"
      "list_all gauge_call gs" "filter status_call t = [CallStatusUpdate ?d]"
    by (rule lagging_run [of 2]) (simp add: lagging_delivered)
  then obtain u v where u: "t = u @ CallStatusUpdate ?d # v" "filter status_call u = []"
    by (auto dest!: filter_eq_ConsD simp: filter_empty_conv)
  let ?a = "ex_reads @ CallStatusUpdate ex_first # gs @ u"
  have run: "ct_history ?t = ?a @ CallStatusUpdate ?d # v"
    using t(1) u(1) by (simp add: ex_observed_def)
  have "ex_store ((ex_reads @ [CallStatusUpdate ex_first]) @ gs @ u) = ex_store (ex_reads @ [CallStatusUpdate ex_first])"
    by (rule ex_store_quiet) (simp add: gauge_not_status [OF t(2)] u(2))
  then have store: "ex_store ?a = [ex_req \<mapsto> ex_stored]"
    by (simp add: ex_store_first)
  have req: "request_of ?d = ex_req" "dc_meta ?d = dc_meta ex_stored"
    by (simp_all add: set_notified_def ex_stored_def ex_dc_def ex_req_def)
  obtain d' where "kl_StatusUpdate (e_kube ?E) ?a ?d = Inr d'"
    using req store by (simp add: lagging_env_def accept_write_def)
  moreover have "map_option dc_status (ex_store ?a (request_of ?d)) = Some (dc_status ex_stored)"
    using req store by simp
  moreover have "st_lastNotifiedHash (dc_status ?d) \<noteq> st_lastNotifiedHash (dc_status ex_stored)"
    using ex_stored_due(1) by (simp add: notification_due_def set_notified_def)
  ultimately obtain dc1 a1 a2 where d: "?a = a1 @ a2" "?d = set_notified (fingerprint dc1) dc1"
      "all_delivered ?E ex_reconciler dc1 a1"
    using controller_records_deliveries [OF lagging_api lagging_wiring ex_first_run run] by blast
  have "snd (Reconcile ?E ex_reconciler ex_req []) = ?a @ CallStatusUpdate ?d # v"
    using run by (simp add: ex_observed_def)
  then show ?thesis
    using d(3) unfolding d(1,2) by blast
qed

end
