(* ===== verification/Run_Rule.thy ===== *)
theory Run_Rule
  imports Run_Shape
begin

text \<open>
  A proof rule for the calls of a run, for any predicate on calls that lets through what a run does for
  its own DriftCheck, apart from Secret reads, which it has to allow one by one.
\<close>

subsection \<open>The Secrets that a spec names\<close>

text \<open>The credentials of the block that the type selects.\<close>

definition source_auth :: "Source \<Rightarrow> GitAuthSpec option" where
  "source_auth s =
     (if src_type s = ''Git'' then Option.bind (src_git s) gss_auth
      else if src_type s = ''Helm'' then Option.bind (src_helm s) (\<lambda>h. gss_auth (hss_git h))
      else if src_type s = ''Kustomize'' then Option.bind (src_kustomize s) (\<lambda>k. gss_auth (kss_git k))
      else None)"

definition source_refs :: "DriftCheck \<Rightarrow> NamespacedName list" where
  "source_refs dc =
     (case source_auth (spec_source (dc_spec dc)) of
        None \<Rightarrow> []
      | Some a \<Rightarrow> [\<lparr>nn_namespace = dc_namespace dc, nn_name = lsr_name (gas_secretRef a)\<rparr>])"

definition secret_refs :: "DriftCheck \<Rightarrow> NamespacedName list" where
  "secret_refs dc = source_refs dc @ concat (map (webhook_refs (dc_namespace dc)) (dc_webhooks dc))"

lemma secret_refs_namespace: "n \<in> set (secret_refs dc) \<Longrightarrow> nn_namespace n = dc_namespace dc"
  by (auto simp: secret_refs_def source_refs_def webhook_refs_namespace split: option.splits)

lemma secret_refs_spec:
  "dc_spec d = dc_spec dc \<Longrightarrow> dc_namespace d = dc_namespace dc \<Longrightarrow> secret_refs d = secret_refs dc"
  by (simp add: secret_refs_def source_refs_def dc_webhooks_def split: option.split)

subsection \<open>What a call is about\<close>

fun reads_secret :: "call \<Rightarrow> bool" where
  "reads_secret (CallGetSecret n) = True"
| "reads_secret _ = False"

text \<open>
  \<open>concerns own c\<close>: if \<open>c\<close> reads, writes, measures or announces a DriftCheck, it is one of \<open>own\<close>.
\<close>

fun concerns :: "(NamespacedName \<Rightarrow> bool) \<Rightarrow> call \<Rightarrow> bool" where
  "concerns own (CallGetDriftCheck n) \<longleftrightarrow> own n"
| "concerns own (CallStatusUpdate d) \<longleftrightarrow> own (request_of d)"
| "concerns own (CallGaugeSet ls v) \<longleftrightarrow>
     (\<exists>n. own n \<and> own_gauge (nn_name n) (nn_namespace n) (CallGaugeSet ls v))"
| "concerns own (CallGaugeDelete ps) \<longleftrightarrow>
     (\<exists>n. own n \<and> own_gauge (nn_name n) (nn_namespace n) (CallGaugeDelete ps))"
| "concerns own (CallEvent n ty reason msg) \<longleftrightarrow> own n"
| "concerns own (CallSend wh ev) \<longleftrightarrow> own \<lparr>nn_namespace = ev_namespace ev, nn_name = ev_name ev\<rparr>"
| "concerns own _ \<longleftrightarrow> True"

definition call_rule :: "(NamespacedName \<Rightarrow> bool) \<Rightarrow> (call \<Rightarrow> bool) \<Rightarrow> bool" where
  "call_rule own P \<longleftrightarrow> (\<forall>c. concerns own c \<longrightarrow> \<not> reads_secret c \<longrightarrow> P c)"

lemma call_ruleD: "call_rule own P \<Longrightarrow> concerns own c \<Longrightarrow> \<not> reads_secret c \<Longrightarrow> P c"
  by (simp add: call_rule_def)

lemma call_rule_source: "call_rule own P \<Longrightarrow> source_call c \<Longrightarrow> P c"
  by (erule call_ruleD) (cases c; simp)+

lemma call_rule_delivery: "call_rule own P \<Longrightarrow> delivery_call c \<Longrightarrow> P c"
  by (erule call_ruleD) (cases c; simp)+

lemma call_rule_gauge: "call_rule own P \<Longrightarrow> own n \<Longrightarrow> own_gauge (nn_name n) (nn_namespace n) c \<Longrightarrow> P c"
  by (erule call_ruleD) (cases c; auto)+

lemma call_rule_gauges:
  "call_rule own P \<Longrightarrow> own n \<Longrightarrow> list_all (own_gauge (nn_name n) (nn_namespace n)) gs \<Longrightarrow> list_all P gs"
  unfolding list_all_iff using call_rule_gauge by blast

lemma call_rule_write: "call_rule own P \<Longrightarrow> own (request_of d) \<Longrightarrow> P (CallStatusUpdate d)"
  by (erule call_ruleD) simp_all

subsection \<open>The rule\<close>

lemma adds_only_resolveGitAuth_rule:
  assumes "\<And>a. spec = Some a \<Longrightarrow> P (CallGetSecret \<lparr>nn_namespace = ns, nn_name = lsr_name (gas_secretRef a)\<rparr>)"
  shows "adds_only P (resolveGitAuth E ns spec)"
proof (cases spec)
  case None
  then show ?thesis
    by (simp add: resolveGitAuth_def adds_only_give)
next
  case (Some a)
  then show ?thesis
    using assms unfolding resolveGitAuth_def Some option.case Let_def
    by (intro quiet adds_only_client_GetSecret) simp
qed

lemma adds_only_buildSource_rule:
  assumes "call_rule own P" "\<And>n. n \<in> set (source_refs dc) \<Longrightarrow> P (CallGetSecret n)"
  shows "adds_only P (buildSource E r dc)"
proof -
  let ?s = "spec_source (dc_spec dc)"
  have cm: "adds_only P (client_GetConfigMap k n)" for k n
    using assms(1) by (simp add: client_GetConfigMap_def adds_only_outside call_ruleD)
  have auth: "adds_only P (resolveGitAuth E (dc_namespace dc) spec)" if "source_auth ?s = spec" for spec
    using assms(2) that by (intro adds_only_resolveGitAuth_rule) (simp add: source_refs_def)
  consider "src_type ?s = ''ConfigMap''" | "src_type ?s = ''Git''" | "src_type ?s = ''Helm''"
    | "src_type ?s = ''Kustomize''" | "src_type ?s \<notin> {''ConfigMap'', ''Git'', ''Helm'', ''Kustomize''}"
    by blast
  then show ?thesis
  proof cases
    case 1
    then show ?thesis
      unfolding buildSource_def Let_def by (simp add: go_simps) (intro quiet cm)
  next
    case 2
    have "adds_only P (resolveGitAuth E (dc_namespace dc) (gss_auth g))" if "src_git ?s = Some g" for g
      using 2 that by (intro auth) (simp add: source_auth_def)
    then show ?thesis
      using 2 unfolding buildSource_def Let_def
      by (cases "src_git ?s") (auto simp: go_simps intro!: quiet)
  next
    case 3
    have "adds_only P (resolveGitAuth E (dc_namespace dc) (gss_auth (hss_git g)))" if "src_helm ?s = Some g" for g
      using 3 that by (intro auth) (simp add: source_auth_def)
    then show ?thesis
      using 3 unfolding buildSource_def Let_def
      by (cases "src_helm ?s") (auto simp: go_simps intro!: quiet)
  next
    case 4
    have "adds_only P (resolveGitAuth E (dc_namespace dc) (gss_auth (kss_git g)))" if "src_kustomize ?s = Some g" for g
      using 4 that by (intro auth) (simp add: source_auth_def)
    then show ?thesis
      using 4 unfolding buildSource_def Let_def
      by (cases "src_kustomize ?s") (auto simp: go_simps intro!: quiet)
  next
    case 5
    then show ?thesis
      unfolding buildSource_def Let_def by (simp add: go_simps adds_only_fail)
  qed
qed

lemma notify_rule:
  assumes "call_rule own P" "notifier_ok r" "own (request_of dc)"
    and "\<And>n. n \<in> set (secret_refs dc) \<Longrightarrow> P (CallGetSecret n)"
  shows "adds_only P (notify E r dc)"
proof (rule adds_onlyI)
  fix h
  show "\<exists>t. snd (notify E r dc h) = h @ t \<and> list_all P t"
  proof (cases "notification_due dc")
    case False
    then show ?thesis
      by (simp add: notify_not_due)
  next
    case True
    have send: "adds_only P (notifier_or_default E r wh ev)" for wh ev
      by (rule adds_only_mono [OF notifier.send_calls [OF notifier_or_default_ok [OF assms(2)]]])
        (rule call_rule_delivery [OF assms(1)])
    have "adds_only P (notify_run E r dc)"
    proof (rule adds_only_notify_loop [OF _ _ send])
      show "P (CallSend wh (dc_event dc))" for wh
        using assms(3) by (intro call_ruleD [OF assms(1)]) (simp_all add: buildEvent_def Let_def)
      show "P (CallEvent (request_of dc) ty reason msg)" for ty reason msg
        using assms(3) by (intro call_ruleD [OF assms(1)]) simp_all
    qed (use assms(4) in \<open>auto simp: secret_refs_def\<close>)
    then obtain t where "snd (notify_run E r dc h) = h @ t" "list_all P t"
      by (rule adds_onlyE)
    moreover have "P (CallStatusUpdate (set_notified (fingerprint dc) dc))"
      using assms(3) by (intro call_rule_write [OF assms(1)]) (simp add: set_notified_def)
    ultimately show ?thesis
      by (auto simp: notify_due [OF True] client_StatusUpdate_def outside_def Let_def split: prod.split)
  qed
qed

lemma evaluated_rule:
  assumes "call_rule own P" "notifier_ok r" "own (request_of dc)"
    and "\<And>h d. kl_StatusUpdate (e_kube E) h (evaluated_status E h dc results) = Inr d \<Longrightarrow>
      own (request_of d) \<and> (\<forall>n \<in> set (secret_refs d). P (CallGetSecret n))"
  shows "adds_only P (evaluated E r dc interval results)"
proof (rule adds_onlyI)
  fix h
  let ?upd = "CallStatusUpdate (evaluated_status E h dc results)"
  have upd: "P ?upd"
    using assms(3) by (intro call_rule_write [OF assms(1)]) (simp add: evaluated_status_keeps)
  show "\<exists>t. snd (evaluated E r dc interval results h) = h @ t \<and> list_all P t"
  proof (cases "kl_StatusUpdate (e_kube E) h (evaluated_status E h dc results)")
    case (Inl err)
    then show ?thesis
      using upd by (simp add: evaluated_unwritten)
  next
    case (Inr dc1)
    obtain gs where gs: "list_all (own_gauge (dc_name dc1) (dc_namespace dc1)) gs"
        "snd (evaluated E r dc interval results h) = snd (notify E r dc1 (h @ ?upd # gs))"
      by (rule evaluated_written_own [OF Inr])
    have "list_all P gs"
      using call_rule_gauges [OF assms(1), of "request_of dc1"] gs(1) assms(4) [OF Inr] by simp
    moreover obtain t where "snd (notify E r dc1 (h @ ?upd # gs)) = (h @ ?upd # gs) @ t" "list_all P t"
      using notify_rule [OF assms(1,2)] assms(4) [OF Inr] by (blast elim: adds_onlyE)
    ultimately show ?thesis
      using gs(2) upd by (intro exI [of _ "?upd # gs @ t"]) simp
  qed
qed

lemma not_ready_rule:
  "call_rule own P \<Longrightarrow> own (request_of dc) \<Longrightarrow> P (CallStatusUpdate (not_ready E h dc reason cause))"
  by (erule call_rule_write) (simp add: not_ready_keeps)

lemma deleted_rule:
  assumes "call_rule own P" "own n"
  obtains gs where "Recorder_Delete m (nn_name n) (nn_namespace n) h = ((), h @ gs)" "list_all P gs"
  using call_rule_gauges [OF assms, of "[CallGaugeDelete [(''driftcheck'', nn_name n), (''namespace'', nn_namespace n)]]"]
  by (cases m) (auto simp: Recorder_Delete_Some)

lemma perform_rule:
  assumes "call_rule own P" "notifier_ok r" "own req" "\<And>dc. verdict_about v dc \<Longrightarrow> own (request_of dc)"
    and "\<And>dc h results d. verdict_about v dc \<Longrightarrow>
      kl_StatusUpdate (e_kube E) h (evaluated_status E h dc results) = Inr d \<Longrightarrow>
      own (request_of d) \<and> (\<forall>n \<in> set (secret_refs d). P (CallGetSecret n))"
  shows "\<exists>t. snd (perform E r req v h) = h @ t \<and> list_all P t"
proof (cases v)
  case Gone
  then show ?thesis
    using deleted_rule [OF assms(1,3), of "r_Metrics r" h] by (metis perform.simps(1) snd_conv)
next
  case (Permanent dc reason cause)
  then have own: "own (request_of dc)"
    using assms(4) by simp
  obtain gs where "Recorder_Delete (r_Metrics r) (dc_name dc) (dc_namespace dc) h = ((), h @ gs)" "list_all P gs"
    using deleted_rule [OF assms(1) own, of "r_Metrics r" h] by auto
  then show ?thesis
    using Permanent not_ready_rule [OF assms(1) own]
    by (simp add: permanentFail_def markNotReady_calls split: sum.split)
next
  case (Transient dc err)
  then show ?thesis
    using not_ready_rule [OF assms(1) assms(4)] by (simp add: markNotReady_calls)
next
  case (Compared dc results)
  then have "adds_only P (evaluated E r dc (effective_interval dc) results)"
    by (intro evaluated_rule [OF assms(1,2)] assms(4,5)) simp_all
  then show ?thesis
    using Compared by (auto elim: adds_onlyE)
qed simp

lemma Reconcile_call_rule:
  assumes "call_rule own P" "wiring_ok E r" "own req"
    and "\<And>dc. kl_GetDriftCheck (e_kube E) h req = Inr dc \<Longrightarrow>
      own (request_of dc) \<and> (\<forall>n \<in> set (source_refs dc). P (CallGetSecret n))"
    and "\<And>dc k results d. kl_GetDriftCheck (e_kube E) h req = Inr dc \<Longrightarrow>
      kl_StatusUpdate (e_kube E) k (evaluated_status E k dc results) = Inr d \<Longrightarrow>
      own (request_of d) \<and> (\<forall>n \<in> set (secret_refs d). P (CallGetSecret n))"
  shows "\<exists>t. snd (Reconcile E r req h) = h @ t \<and> list_all P t"
proof -
  obtain v h1 where d: "decide E r req h = (v, h1)"
    by fastforce
  have "adds_only P (buildSource E r dc)" if "kl_GetDriftCheck (e_kube E) h req = Inr dc" for dc
    using assms(4) [OF that] by (intro adds_only_buildSource_rule [OF assms(1)]) blast
  moreover have "P (CallGetDriftCheck req)"
    using assms(3) by (intro call_ruleD [OF assms(1)]) simp_all
  ultimately obtain t where t: "h1 = h @ t" "list_all P t"
    using decide_adds [OF assms(2) d, of P] call_rule_source [OF assms(1)] by blast
  have "notifier_ok r"
    using assms(2) by (simp add: wiring_ok_def)
  then obtain u where "snd (perform E r req v h1) = h1 @ u" "list_all P u"
    using perform_rule [OF assms(1) _ assms(3), of r v E h1] assms(4,5) decide_read [OF d] by metis
  then show ?thesis
    using d t by (simp add: Reconcile_perform)
qed

end
