(* ===== verification/Isolation.thy ===== *)
theory Isolation
  imports Run_Rule
begin

text \<open>
  DriftChecks do not interfere: a run for one of them writes, measures and announces nothing about
  another. Names are taken apart as \<open>internal/controller\<close> uses them, in status updates, labels of
  gauges, events and notifications.
\<close>

text \<open>The API server returns the DriftCheck that was asked for, and an update returns what it updated.\<close>

definition names_kept :: "kube_lib \<Rightarrow> bool" where
  "names_kept k \<longleftrightarrow>
     (\<forall>h n dc. kl_GetDriftCheck k h n = Inr dc \<longrightarrow> request_of dc = n)
     \<and> (\<forall>h d d'. kl_StatusUpdate k h d = Inr d' \<longrightarrow> request_of d' = request_of d)"

text \<open>A call about \<open>n\<close> alone, if not a Secret read, which is about no DriftCheck.\<close>

abbreviation about :: "NamespacedName \<Rightarrow> call \<Rightarrow> bool" where
  "about n \<equiv> concerns (\<lambda>m. m = n)"

lemma about_rule: "call_rule (\<lambda>m. m = n) (about n)"
  by (simp add: call_rule_def)

lemma Reconcile_about:
  assumes "wiring_ok E r" "names_kept (e_kube E)"
  obtains t where "snd (Reconcile E r n h) = h @ t" "list_all (about n) t"
proof -
  have "\<exists>t. snd (Reconcile E r n h) = h @ t \<and> list_all (about n) t"
  proof (rule Reconcile_call_rule [OF about_rule assms(1)])
    fix dc
    assume dc: "kl_GetDriftCheck (e_kube E) h n = Inr dc"
    then have named: "request_of dc = n"
      using assms(2) by (simp add: names_kept_def)
    then show "request_of dc = n \<and> (\<forall>m \<in> set (source_refs dc). about n (CallGetSecret m))"
      by simp
    fix k results d
    assume "kl_StatusUpdate (e_kube E) k (evaluated_status E k dc results) = Inr d"
    then have "request_of d = request_of (evaluated_status E k dc results)"
      using assms(2) unfolding names_kept_def by blast
    then show "request_of d = n \<and> (\<forall>m \<in> set (secret_refs d). about n (CallGetSecret m))"
      using named by (simp add: evaluated_status_keeps)
  qed simp
  then show ?thesis
    using that by blast
qed

lemma about_gauge:
  assumes "m \<noteq> n" "about n c"
  shows "gauge_values (h @ [c]) [nn_name m, nn_namespace m, s] = gauge_values h [nn_name m, nn_namespace m, s]"
proof -
  have "nn_name m \<noteq> nn_name n \<or> nn_namespace m \<noteq> nn_namespace n"
    using assms(1) by (cases m; cases n) auto
  then show ?thesis
    using assms(2) by (cases c)
      (auto simp: registry.view_Set registry.view_Delete registry.view_other matches_labels_def gauge_label_names_def)
qed

lemma about_gauges:
  assumes "m \<noteq> n" "list_all (about n) t"
  shows "gauge_values (h @ t) [nn_name m, nn_namespace m, s] = gauge_values h [nn_name m, nn_namespace m, s]"
  using assms(2)
proof (induction t rule: rev_induct)
  case (snoc c t)
  then show ?case
    using about_gauge [OF assms(1), of c "h @ t" s] by simp
qed simp

text \<open>
  C6: DriftChecks do not interfere. A run for the DriftCheck \<open>n\<close> updates no status but that of \<open>n\<close>, sends
  no notification and records no event about another one, and leaves every gauge of every other
  DriftCheck as it was, whatever the source holds and whichever way the run ends.
\<close>

theorem Reconcile_isolated:
  assumes "wiring_ok E r" "names_kept (e_kube E)"
  shows "\<exists>t. snd (Reconcile E r n h) = h @ t
    \<and> (\<forall>d. CallStatusUpdate d \<in> set t \<longrightarrow> request_of d = n)
    \<and> (\<forall>wh ev. CallSend wh ev \<in> set t \<longrightarrow> \<lparr>nn_namespace = ev_namespace ev, nn_name = ev_name ev\<rparr> = n)
    \<and> (\<forall>m ty reason msg. CallEvent m ty reason msg \<in> set t \<longrightarrow> m = n)
    \<and> (\<forall>m s. m \<noteq> n \<longrightarrow>
         gauge_values (h @ t) [nn_name m, nn_namespace m, s] = gauge_values h [nn_name m, nn_namespace m, s])"
proof -
  obtain t where t: "snd (Reconcile E r n h) = h @ t" "list_all (about n) t"
    by (rule Reconcile_about [OF assms])
  then have "about n c" if "c \<in> set t" for c
    using that by (simp add: list_all_iff)
  then show ?thesis
    using t(1) about_gauges [OF _ t(2)] by (intro exI [of _ t]) fastforce
qed

text \<open>A series of another DriftCheck in the registry before the run.\<close>

theorem Reconcile_isolated_witness:
  "gauge_values (snd (Reconcile ex_env ex_reconciler ex_req [CallGaugeSet [''other'', ''prod'', ''new''] 4]))
     [''other'', ''prod'', ''new''] = Some 4"
proof -
  let ?h = "[CallGaugeSet [''other'', ''prod'', ''new''] 4]"
  have "names_kept (e_kube ex_env)"
    by (auto simp: names_kept_def ex_env_def ex_kube_def ex_dc_def ex_req_def split: if_splits)
  then obtain t where t: "snd (Reconcile ex_env ex_reconciler ex_req ?h) = ?h @ t"
      "\<forall>m s. m \<noteq> ex_req \<longrightarrow>
         gauge_values (?h @ t) [nn_name m, nn_namespace m, s] = gauge_values ?h [nn_name m, nn_namespace m, s]"
    using Reconcile_isolated [OF ex_wiring, of ex_req ?h] by blast
  have "gauge_values (?h @ t) [''other'', ''prod'', ''new''] = gauge_values ?h [''other'', ''prod'', ''new'']"
    using t(2) [rule_format, of "\<lparr>nn_namespace = ''prod'', nn_name = ''other''\<rparr>"] by (simp add: ex_req_def)
  then show ?thesis
    using t(1) by (simp add: gauge_values_def)
qed

end
