(* ===== verification/Secret_Reads.thy ===== *)
theory Secret_Reads
  imports Run_Rule
begin

text \<open>
  Which Secrets a run reads: those that the spec of its DriftCheck names, for the Git credentials of the
  selected source and for the URLs of webhooks. The rule is for any set of calls that restricts
  Secret reads only, so that it also serves the access rules of \<open>Access_Control\<close>.
\<close>

subsection \<open>The Secret reads of a run\<close>

text \<open>\<open>secret_rule P\<close>: only a Secret read can violate \<open>P\<close>.\<close>

definition secret_rule :: "(call \<Rightarrow> bool) \<Rightarrow> bool" where
  "secret_rule P \<longleftrightarrow> (\<forall>c. \<not> reads_secret c \<longrightarrow> P c)"

lemma secret_call_rule: "secret_rule P \<Longrightarrow> call_rule (\<lambda>n. True) P"
  by (simp add: secret_rule_def call_rule_def)

lemma Reconcile_rule:
  assumes "secret_rule P" "wiring_ok E r"
    and "\<And>dc n. kl_GetDriftCheck (e_kube E) h req = Inr dc \<Longrightarrow> n \<in> set (source_refs dc) \<Longrightarrow> P (CallGetSecret n)"
    and "\<And>dc k results d n. kl_GetDriftCheck (e_kube E) h req = Inr dc \<Longrightarrow>
      kl_StatusUpdate (e_kube E) k (evaluated_status E k dc results) = Inr d \<Longrightarrow>
      n \<in> set (secret_refs d) \<Longrightarrow> P (CallGetSecret n)"
  shows "\<exists>t. snd (Reconcile E r req h) = h @ t \<and> list_all P t"
  by (rule Reconcile_call_rule [OF secret_call_rule [OF assms(1)] assms(2)]) (use assms(3,4) in blast)+

subsection \<open>Only what the spec names\<close>

text \<open>
  \<open>names_only ns c\<close>: if \<open>c\<close> reads a Secret, it is one of \<open>ns\<close>.
\<close>

fun names_only :: "NamespacedName list \<Rightarrow> call \<Rightarrow> bool" where
  "names_only ns (CallGetSecret n) \<longleftrightarrow> n \<in> set ns"
| "names_only ns _ \<longleftrightarrow> True"

lemma names_only_rule: "secret_rule (names_only ns)"
  unfolding secret_rule_def
proof (intro allI impI)
  fix c
  assume "\<not> reads_secret c"
  then show "names_only ns c"
    by (cases c) simp_all
qed

lemma secrets_in_rule: "secret_rule (secrets_in ns)"
  unfolding secret_rule_def
proof (intro allI impI)
  fix c
  assume "\<not> reads_secret c"
  then show "secrets_in ns c"
    by (cases c) simp_all
qed

text \<open>A status update changes neither the name nor the spec of what is stored.\<close>

definition updates_status_only :: "kube_lib \<Rightarrow> bool" where
  "updates_status_only k \<longleftrightarrow>
     (\<forall>h d d'. kl_StatusUpdate k h d = Inr d' \<longrightarrow>
        dc_spec d' = dc_spec d \<and> dc_namespace d' = dc_namespace d \<and> dc_name d' = dc_name d)"

text \<open>
  C8: A run reads no Secret but those that the spec of its DriftCheck names, the credentials of the
  selected source and the URLs of the webhooks, and all of them in the DriftCheck's own namespace:
  neither another block of the spec nor another namespace can be reached.
\<close>

theorem Reconcile_reads_named_secrets:
  assumes "wiring_ok E r" "updates_status_only (e_kube E)" "kl_GetDriftCheck (e_kube E) h req = Inr dc"
  shows "\<exists>t. snd (Reconcile E r req h) = h @ t \<and> list_all (names_only (secret_refs dc)) t
    \<and> (\<forall>n \<in> set (secret_refs dc). nn_namespace n = dc_namespace dc)"
proof -
  have "secret_refs d = secret_refs dc"
    if "kl_StatusUpdate (e_kube E) k (evaluated_status E k dc results) = Inr d" for k results d
    using that assms(2) unfolding updates_status_only_def
    by (intro secret_refs_spec) (simp_all add: evaluated_status_keeps)
  then have "\<exists>t. snd (Reconcile E r req h) = h @ t \<and> list_all (names_only (secret_refs dc)) t"
    using assms(3) by (intro Reconcile_rule [OF names_only_rule assms(1)]) (auto simp: secret_refs_def)
  then show ?thesis
    using secret_refs_namespace by blast
qed

text \<open>In the example the webhook's URL is in a Secret.\<close>

definition ex_secret_env :: env where
  "ex_secret_env = ex_env\<lparr>e_kube := ex_kube\<lparr>kl_GetDriftCheck := \<lambda>h n. Inr (ex_dc\<lparr>dc_spec := (dc_spec ex_dc)
     \<lparr>spec_notify := Some \<lparr>ns_webhooks = [ex_webhook\<lparr>wh_urlSecretRef :=
        Some \<lparr>skr_name = ''hook'', skr_key = ''url''\<rparr>\<rparr>]\<rparr>\<rparr>\<rparr>)\<rparr>\<rparr>"

theorem Reconcile_reads_named_secrets_witness:
  "list_all (names_only [\<lparr>nn_namespace = ''prod'', nn_name = ''hook''\<rparr>])
     (snd (Reconcile ex_secret_env ex_reconciler ex_req []))"
proof -
  have "wiring_ok ex_secret_env ex_reconciler" "updates_status_only (e_kube ex_secret_env)"
    using ex_wiring
    by (auto simp: wiring_ok_def engine_ok_def ex_secret_env_def updates_status_only_def ex_kube_def)
  then have "\<exists>t. snd (Reconcile ex_secret_env ex_reconciler ex_req []) = [] @ t
      \<and> list_all (names_only [\<lparr>nn_namespace = ''prod'', nn_name = ''hook''\<rparr>]) t"
    using Reconcile_reads_named_secrets [of ex_secret_env ex_reconciler "[]" ex_req]
    by (simp add: ex_secret_env_def secret_refs_def source_refs_def source_auth_def webhook_refs_def
        dc_webhooks_def ex_dc_def ex_source_def)
  then show ?thesis
    by simp
qed

end
