(* ===== verification/Run_Bounds.thy ===== *)
theory Run_Bounds
  imports Secret_Reads
begin

text \<open>
  How much one run does at most: status writes, gauges, notifications and events are counted along the
  structure of \<open>Reconcile\<close>, once for any kind of call.
\<close>

subsection \<open>Counting calls\<close>

definition at_most :: "(call \<Rightarrow> bool) \<Rightarrow> nat \<Rightarrow> 'a io \<Rightarrow> bool" where
  "at_most f k m \<longleftrightarrow> (\<forall>h. \<exists>t. snd (m h) = h @ t \<and> length (filter f t) \<le> k)"

lemma at_mostI: "(\<And>h. \<exists>t. snd (m h) = h @ t \<and> length (filter f t) \<le> k) \<Longrightarrow> at_most f k m"
  by (simp add: at_most_def)

lemma at_mostE:
  assumes "at_most f k m" "m h = (x, h1)"
  obtains t where "h1 = h @ t" "length (filter f t) \<le> k"
  using assms unfolding at_most_def by (metis snd_conv)

lemma at_most_none: "adds_only (\<lambda>c. \<not> f c) m \<Longrightarrow> at_most f k m"
  by (rule at_mostI) (auto elim!: adds_onlyE simp: list_all_iff filter_empty_conv [THEN iffD2])

lemma at_most_mono: "at_most f k m \<Longrightarrow> k \<le> l \<Longrightarrow> at_most f l m"
  unfolding at_most_def by (meson le_trans)

lemma at_most_outside: "at_most f (if f c then 1 else 0) (outside c a)"
  by (simp add: at_most_def outside_def)

lemma at_most_entering:
  assumes "adds_only (\<lambda>c. \<not> f c) m"
  shows "at_most f (if f c then 1 else 0) (entering c m)"
proof (rule at_mostI)
  fix h
  obtain t where "snd (m (h @ [c])) = (h @ [c]) @ t" "list_all (\<lambda>c. \<not> f c) t"
    using assms by (rule adds_onlyE)
  then show "\<exists>t. snd (entering c m h) = h @ t \<and> length (filter f t) \<le> (if f c then 1 else 0)"
    by (intro exI [of _ "c # t"]) (simp add: entering_def list_all_filter_none)
qed

lemma at_most_try_bind:
  assumes "adds_only (\<lambda>c. \<not> f c) m" "\<And>x. at_most f k (l x)"
  shows "at_most f k (try_bind m l)"
proof (rule at_mostI)
  fix h
  obtain res h1 where m: "m h = (res, h1)"
    by fastforce
  then obtain t where t: "h1 = h @ t" "filter f t = []"
    by (rule adds_only_snd [OF assms(1)]) (simp add: list_all_filter_none)
  show "\<exists>t. snd (try_bind m l h) = h @ t \<and> length (filter f t) \<le> k"
  proof (cases res)
    case (Inl e)
    then show ?thesis
      using m t by (simp add: try_bind_def)
  next
    case (Inr x)
    obtain y h2 where l: "l x h1 = (y, h2)"
      by fastforce
    then obtain u where "h2 = h1 @ u" "length (filter f u) \<le> k"
      using assms(2) by (rule_tac at_mostE)
    then show ?thesis
      using m t l Inr by (intro exI [of _ "t @ u"]) (simp add: try_bind_def)
  qed
qed

subsection \<open>A kind of call\<close>

text \<open>
  \<open>f\<close> counts visible calls that are not a notifier's: \<open>s\<close> for a status write, \<open>g\<close> for a gauge, \<open>w\<close> for
  the attempt on one webhook, which is a send and perhaps an event.
\<close>

locale call_count =
  fixes f :: "call \<Rightarrow> bool" and s g w :: nat
  assumes status: "f (CallStatusUpdate d) \<Longrightarrow> 1 \<le> s"
    and gauge: "gauge_call c \<Longrightarrow> f c \<Longrightarrow> 1 \<le> g"
    and send: "f (CallSend wh ev) \<Longrightarrow> 1 \<le> w"
    and event: "f (CallEvent n ty reason msg) \<Longrightarrow> 1 \<le> w"
    and send_or_event: "f (CallSend wh ev) \<Longrightarrow> \<not> f (CallEvent n ty reason msg)"
    and not_visible: "\<not> visible c \<Longrightarrow> \<not> f c"
    and not_delivery: "delivery_call c \<Longrightarrow> \<not> f c"
begin

lemma deliver_count:
  assumes "notifier send"
  shows "at_most f (if \<exists>wh ev. f (CallSend wh ev) then 1 else 0) (deliver E dc send ev wh)"
  unfolding deliver_def Let_def
proof (rule at_most_try_bind)
  show "adds_only (\<lambda>c. \<not> f c) (resolveWebhookURL E (dc_namespace dc) wh)"
    by (rule adds_only_resolveWebhookURL) (simp add: not_visible)
  fix url
  let ?wh = "\<lparr>webhook_type = wh_type wh, webhook_url = url\<rparr>"
  have "adds_only (\<lambda>c. \<not> f c) (send ?wh ev)"
    by (rule adds_only_mono [OF notifier.send_calls [OF assms]]) (rule not_delivery)
  then show "at_most f (if \<exists>wh ev. f (CallSend wh ev) then 1 else 0) (entering (CallSend ?wh ev) (send ?wh ev))"
    by (rule at_most_mono [OF at_most_entering]) auto
qed

text \<open>The calls of one attempt: those of the delivery, and the event that reports its failure.\<close>

lemma attempt_count:
  assumes "length (filter f t1) \<le> (if \<exists>wh ev. f (CallSend wh ev) then 1 else 0)"
    and "length t2 \<le> 1" "\<forall>c \<in> set t2. event_call c"
  shows "length (filter f (t1 @ t2)) \<le> w"
proof (cases "\<exists>wh ev. f (CallSend wh ev)")
  case True
  then have "\<not> f c" if "event_call c" for c
    using that send_or_event by (cases c) auto
  then have "filter f t2 = []"
    using assms(3) by (simp add: filter_empty_conv)
  moreover have "1 \<le> w"
    using True send by blast
  ultimately show ?thesis
    using assms(1) True by simp
next
  case False
  have "length (filter f t2) \<le> w"
  proof (cases "filter f t2")
    case (Cons c cs)
    then have "c \<in> set (filter f t2)"
      by simp
    then have "event_call c" "f c"
      using assms(3) by auto
    then have "1 \<le> w"
      using event by (cases c) auto
    then show ?thesis
      using assms(2) length_filter_le [of f t2] by linarith
  qed simp
  then show ?thesis
    using assms(1) False by simp
qed

lemma notify_loop_count:
  assumes "notifier send"
  shows "at_most f (length whs * w) (notify_loop E r dc send ev whs failed)"
proof (induction whs arbitrary: failed)
  case Nil
  show ?case
    by (rule at_mostI) simp
next
  case (Cons wh whs)
  show ?case
  proof (rule at_mostI)
    fix h
    obtain res h1 where d: "deliver E dc send ev wh h = (res, h1)"
      by fastforce
    obtain t1 where t1: "h1 = h @ t1" "length (filter f t1) \<le> (if \<exists>wh ev. f (CallSend wh ev) then 1 else 0)"
      by (rule at_mostE [OF deliver_count [OF assms] d])
    define h2 where "h2 = (case res of Inl err \<Rightarrow> snd (notify_failed r dc err h1) | Inr _ \<Rightarrow> h1)"
    obtain t2 where t2: "h2 = h1 @ t2" "length t2 \<le> 1" "\<forall>c \<in> set t2. event_call c"
      by (cases res; cases "r_Recorder r")
        (auto simp: h2_def notify_failed_def record_event_def outside_def)
    have t12: "length (filter f (t1 @ t2)) \<le> w"
      by (rule attempt_count [OF t1(2) t2(2,3)])
    obtain y h3 where l: "notify_loop E r dc send ev whs (failed \<or> isl res) h2 = (y, h3)"
      by fastforce
    then obtain t3 where t3: "h3 = h2 @ t3" "length (filter f t3) \<le> length whs * w"
      by (rule at_mostE [OF Cons.IH])
    have "snd (notify_loop E r dc send ev (wh # whs) failed h) = h @ t1 @ t2 @ t3"
      unfolding notify_loop_Cons d Let_def prod.case using t1(1) t2(1) t3(1) l by (simp add: h2_def)
    then show "\<exists>t. snd (notify_loop E r dc send ev (wh # whs) failed h) = h @ t
        \<and> length (filter f t) \<le> length (wh # whs) * w"
      using t12 t3(2) by (intro exI [of _ "t1 @ t2 @ t3"]) simp
  qed
qed

lemma status_count: "length (filter f [CallStatusUpdate d]) \<le> s"
  using status [of d] by simp

lemma gauge_count: "list_all gauge_call gs \<Longrightarrow> length gs \<le> k \<Longrightarrow> length (filter f gs) \<le> k * g"
proof (cases "filter f gs")
  case (Cons c cs)
  assume gs: "list_all gauge_call gs" "length gs \<le> k"
  have "c \<in> set (filter f gs)"
    using Cons by simp
  then have "1 \<le> g"
    using gauge gs(1) by (auto simp: list_all_iff)
  then have "length gs \<le> length gs * g"
    by simp
  also have "length gs * g \<le> k * g"
    using gs(2) by simp
  finally show ?thesis
    using length_filter_le [of f gs] by linarith
qed simp

lemma notify_count:
  assumes "notifier_ok r"
  shows "at_most f (length (dc_webhooks dc) * w + s) (notify E r dc)"
proof (rule at_mostI)
  fix h
  show "\<exists>t. snd (notify E r dc h) = h @ t \<and> length (filter f t) \<le> length (dc_webhooks dc) * w + s"
  proof (cases "notification_due dc")
    case True
    obtain failed h1 where l: "notify_run E r dc h = (failed, h1)"
      by fastforce
    then obtain t where t: "h1 = h @ t" "length (filter f t) \<le> length (dc_webhooks dc) * w"
      by (rule at_mostE [OF notify_loop_count [OF notifier_or_default_ok [OF assms]]])
    let ?u = "CallStatusUpdate (set_notified (fingerprint dc) dc)"
    show ?thesis
      using l t status_count [of "set_notified (fingerprint dc) dc"]
      by (intro exI [of _ "if failed then t else t @ [?u]"])
        (simp add: notify_due [OF True] client_StatusUpdate_def outside_def del: filter.simps)
  qed (simp add: notify_not_due)
qed

lemma evaluated_count:
  assumes "notifier_ok r"
    and "\<And>d h. kl_StatusUpdate (e_kube E) h (evaluated_status E h dc results) = Inr d \<Longrightarrow> length (dc_webhooks d) \<le> k"
  shows "\<exists>t. snd (evaluated E r dc interval results h) = h @ t \<and> length (filter f t) \<le> 2 * s + 4 * g + k * w"
proof (cases "kl_StatusUpdate (e_kube E) h (evaluated_status E h dc results)")
  case (Inl err)
  then show ?thesis
    using status_count [of "evaluated_status E h dc results"] by (simp add: evaluated_unwritten del: filter.simps)
next
  case (Inr dc1)
  let ?upd = "CallStatusUpdate (evaluated_status E h dc results)" and ?s = "st_summary (dc_status dc1)"
  obtain gs where gs: "snd (RecordDrift (r_Metrics r) (dc_name dc1) (dc_namespace dc1)
      (sum_changed ?s) (sum_new ?s) (sum_deleted ?s) (sum_unchanged ?s) (h @ [?upd])) = (h @ [?upd]) @ gs"
      "list_all gauge_call gs" "length gs \<le> 4"
    by (cases "r_Metrics r") (simp_all add: RecordDrift_Some)
  obtain res h3 where n: "notify E r dc1 ((h @ [?upd]) @ gs) = (res, h3)"
    by fastforce
  then obtain t where t: "h3 = ((h @ [?upd]) @ gs) @ t" "length (filter f t) \<le> length (dc_webhooks dc1) * w + s"
    by (rule at_mostE [OF notify_count [OF assms(1)]])
  have "length (dc_webhooks dc1) * w \<le> k * w"
    using assms(2) [OF Inr] by simp
  then have "length (filter f ([?upd] @ gs @ t)) \<le> 2 * s + 4 * g + k * w"
    using t(2) status_count [of "evaluated_status E h dc results"] gauge_count [OF gs(2,3)]
    unfolding filter_append length_append by linarith
  moreover have "snd (evaluated E r dc interval results h) = h @ [?upd] @ gs @ t"
    using evaluated_written [OF Inr, of r interval] n t(1) gs(1) by (cases res) simp_all
  ultimately show ?thesis
    by blast
qed

lemma failed_count:
  "\<exists>t. snd (permanentFail E r dc interval reason cause h) = h @ t \<and> length (filter f t) \<le> s + g"
proof -
  obtain gs where gs: "Recorder_Delete (r_Metrics r) (dc_name dc) (dc_namespace dc) h = ((), h @ gs)"
      "list_all gauge_call gs" "length gs \<le> 1"
    by (cases "r_Metrics r") (simp_all add: Recorder_Delete_Some)
  let ?d = "not_ready E (h @ gs) dc reason cause"
  have "length (filter f (gs @ [CallStatusUpdate ?d])) \<le> s + g"
    using gauge_count [OF gs(2,3)] status_count [of ?d] unfolding filter_append length_append by linarith
  then show ?thesis
    using gs(1) by (intro exI [of _ "gs @ [CallStatusUpdate ?d]"])
      (simp add: permanentFail_def markNotReady_calls split: sum.split)
qed

lemma perform_count:
  assumes "notifier_ok r"
    and "\<And>dc h results d. verdict_about v dc \<Longrightarrow>
      kl_StatusUpdate (e_kube E) h (evaluated_status E h dc results) = Inr d \<Longrightarrow> length (dc_webhooks d) \<le> k"
  shows "\<exists>t. snd (perform E r req v h) = h @ t \<and> length (filter f t) \<le> 2 * s + 4 * g + k * w"
proof (cases v)
  case Gone
  obtain gs where "Recorder_Delete (r_Metrics r) (nn_name req) (nn_namespace req) h = ((), h @ gs)"
      "list_all gauge_call gs" "length gs \<le> 1"
    by (cases "r_Metrics r") (simp_all add: Recorder_Delete_Some)
  then show ?thesis
    using Gone gauge_count [of gs 1] by fastforce
next
  case (Permanent dc reason cause)
  obtain t where t: "snd (permanentFail E r dc (effective_interval dc) reason cause h) = h @ t"
      "length (filter f t) \<le> s + g"
    using failed_count by blast
  then show ?thesis
    using Permanent by (intro exI [of _ t]) simp
next
  case (Transient dc err)
  then show ?thesis
    using status_count [of "not_ready E h dc ''CompareError'' err"]
    by (simp add: markNotReady_calls del: filter.simps)
next
  case (Compared dc results)
  then show ?thesis
    using evaluated_count [OF assms(1), of E dc results k] assms(2) [of dc] by simp
qed simp

lemma Reconcile_count:
  assumes "wiring_ok E r"
    and "\<And>dc h' results d. kl_GetDriftCheck (e_kube E) h req = Inr dc \<Longrightarrow>
      kl_StatusUpdate (e_kube E) h' (evaluated_status E h' dc results) = Inr d \<Longrightarrow> length (dc_webhooks d) \<le> k"
  shows "\<exists>t. snd (Reconcile E r req h) = h @ t \<and> length (filter f t) \<le> 2 * s + 4 * g + k * w"
proof -
  obtain v h1 where d: "decide E r req h = (v, h1)"
    by fastforce
  obtain t where t: "h1 = h @ t" "list_all (\<lambda>c. \<not> visible c) t"
    using decide_quiet [OF assms(1) d] by blast
  have "filter f t = []"
    by (rule list_all_filter_none [OF t(2)]) (use not_visible in blast)
  moreover have "notifier_ok r"
    using assms(1) by (simp add: wiring_ok_def)
  then obtain u where "snd (perform E r req v h1) = h1 @ u" "length (filter f u) \<le> 2 * s + 4 * g + k * w"
    using perform_count [of r v E k req h1] assms(2) decide_read [OF d] by blast
  ultimately show ?thesis
    using d t(1) by (intro exI [of _ "t @ u"]) (simp add: Reconcile_perform)
qed

end

text \<open>The four kinds of calls.\<close>

lemma call_kinds:
  "delivery_call c \<Longrightarrow> \<not> status_call c \<and> \<not> gauge_call c \<and> \<not> send_call c \<and> \<not> event_call c"
  "\<not> visible c \<Longrightarrow> \<not> status_call c \<and> \<not> gauge_call c \<and> \<not> send_call c \<and> \<not> event_call c"
  "gauge_call c \<Longrightarrow> \<not> status_call c \<and> \<not> send_call c \<and> \<not> event_call c"
  by (cases c; simp)+

interpretation status_writes: call_count status_call 1 0 0
  by unfold_locales (simp_all add: call_kinds)

interpretation gauges: call_count gauge_call 0 1 0
  by unfold_locales (simp_all add: call_kinds)

interpretation sends: call_count send_call 0 0 1
  by unfold_locales (simp_all add: call_kinds)

interpretation events: call_count event_call 0 0 1
  by unfold_locales (simp_all add: call_kinds)

text \<open>
  C22: The work of one run is bounded by its DriftCheck. A run writes the status at most twice, touches at
  most four gauges, and sends at most one notification and records at most one event per configured
  webhook, however often deliveries fail and whatever the source and the cluster hold.
\<close>

theorem Reconcile_bounded:
  assumes "wiring_ok E r" "updates_status_only (e_kube E)" "kl_GetDriftCheck (e_kube E) h n = Inr dc"
  shows "\<exists>t. snd (Reconcile E r n h) = h @ t
    \<and> length (filter status_call t) \<le> 2 \<and> length (filter gauge_call t) \<le> 4
    \<and> length (filter send_call t) \<le> length (dc_webhooks dc)
    \<and> length (filter event_call t) \<le> length (dc_webhooks dc)"
proof -
  have webhooks: "length (dc_webhooks d) \<le> length (dc_webhooks dc)"
    if "kl_GetDriftCheck (e_kube E) h n = Inr dc'"
      "kl_StatusUpdate (e_kube E) k (evaluated_status E k dc' results) = Inr d" for dc' k results d
  proof -
    have "dc_spec d = dc_spec dc"
      using that assms(2,3) evaluated_status_keeps(2) unfolding updates_status_only_def
      by (metis sum.inject(2))
    then show ?thesis
      by (simp add: dc_webhooks_def)
  qed
  have "\<exists>t. snd (Reconcile E r n h) = h @ t
      \<and> length (filter status_call t) \<le> 2 * 1 + 4 * 0 + length (dc_webhooks dc) * 0"
    by (rule status_writes.Reconcile_count [OF assms(1)]) (erule (1) webhooks)
  moreover have "\<exists>t. snd (Reconcile E r n h) = h @ t
      \<and> length (filter gauge_call t) \<le> 2 * 0 + 4 * 1 + length (dc_webhooks dc) * 0"
    by (rule gauges.Reconcile_count [OF assms(1)]) (erule (1) webhooks)
  moreover have "\<exists>t. snd (Reconcile E r n h) = h @ t
      \<and> length (filter send_call t) \<le> 2 * 0 + 4 * 0 + length (dc_webhooks dc) * 1"
    by (rule sends.Reconcile_count [OF assms(1)]) (erule (1) webhooks)
  moreover have "\<exists>t. snd (Reconcile E r n h) = h @ t
      \<and> length (filter event_call t) \<le> 2 * 0 + 4 * 0 + length (dc_webhooks dc) * 1"
    by (rule events.Reconcile_count [OF assms(1)]) (erule (1) webhooks)
  ultimately show ?thesis
    by auto
qed

theorem Reconcile_bounded_witness:
  "length (filter send_call (snd (Reconcile ex_env ex_reconciler ex_req []))) \<le> 1"
proof -
  have "updates_status_only (e_kube ex_env)" "dc_webhooks ex_dc = [ex_webhook]"
    by (simp_all add: updates_status_only_def ex_env_def ex_kube_def ex_dc_def dc_webhooks_def)
  then show ?thesis
    using Reconcile_bounded [OF ex_wiring, of "[]" ex_req ex_dc] by (auto simp: ex_get)
qed

end
