(* ===== verification/Admission.thy ===== *)
theory Admission
  imports Secret_Reads
begin

text \<open>
  What the API server lets into the cluster: the validation markers of \<open>api/v1alpha1/types.go\<close>, which
  are generated into \<open>config/crd/bases\<close>, as a check of the manifest that a user writes, with the
  defaults it fills in, and what this check gives the reconciler. A record whose field is required
  has the field; what a manifest may leave out is an \<open>option\<close>.
\<close>

subsection \<open>Manifests\<close>

text \<open>Only where the rules or the defaults depend on presence does a manifest differ from the Go value.\<close>

record WebhookManifest =
  wm_type :: "string option"
  wm_url :: "string option"
  wm_urlSecretRef :: "SecretKeyRef option"

record SpecManifest =
  sm_source :: Source
  sm_target :: "Target option"
  sm_interval :: "go_int option"
  sm_notify :: "WebhookManifest list option"

subsection \<open>Validation\<close>

text \<open>\<open>MinLength=1\<close>\<close>

definition nonempty :: "string \<Rightarrow> bool" where
  "nonempty s \<longleftrightarrow> 1 \<le> length s"

lemma nonempty_iff [simp]: "nonempty s \<longleftrightarrow> s \<noteq> []"
  by (cases s) (simp_all add: nonempty_def)

definition enum_SourceType :: "string list" where
  "enum_SourceType = [''Git'', ''ConfigMap'', ''Helm'', ''Kustomize'']"

definition enum_GitAuthType :: "string list" where
  "enum_GitAuthType = [''Basic'', ''Bearer'', ''SSH'']"

definition enum_WebhookType :: "string list" where
  "enum_WebhookType = [''Slack'', ''Generic'']"

definition valid_GitAuth :: "GitAuthSpec \<Rightarrow> bool" where
  "valid_GitAuth a \<longleftrightarrow> gas_type a \<in> set enum_GitAuthType \<and> nonempty (lsr_name (gas_secretRef a))"

definition valid_GitSource :: "GitSourceSpec \<Rightarrow> bool" where
  "valid_GitSource g \<longleftrightarrow> nonempty (gss_url g) \<and> pred_option valid_GitAuth (gss_auth g)"

definition valid_ConfigMapSource :: "ConfigMapSource \<Rightarrow> bool" where
  "valid_ConfigMapSource c \<longleftrightarrow> nonempty (cms_name c)"

definition valid_HelmSource :: "HelmSourceSpec \<Rightarrow> bool" where
  "valid_HelmSource h \<longleftrightarrow> valid_GitSource (hss_git h)"

definition valid_KustomizeSource :: "KustomizeSourceSpec \<Rightarrow> bool" where
  "valid_KustomizeSource k \<longleftrightarrow> valid_GitSource (kss_git k)"

text \<open>The four rules \<open>self.type != 'T' || has (self.t)\<close>.\<close>

definition source_rules :: "Source \<Rightarrow> bool" where
  "source_rules s \<longleftrightarrow>
     (src_type s \<noteq> ''ConfigMap'' \<or> src_configMap s \<noteq> None)
     \<and> (src_type s \<noteq> ''Git'' \<or> src_git s \<noteq> None)
     \<and> (src_type s \<noteq> ''Helm'' \<or> src_helm s \<noteq> None)
     \<and> (src_type s \<noteq> ''Kustomize'' \<or> src_kustomize s \<noteq> None)"

definition valid_Source :: "Source \<Rightarrow> bool" where
  "valid_Source s \<longleftrightarrow>
     src_type s \<in> set enum_SourceType
     \<and> pred_option valid_GitSource (src_git s) \<and> pred_option valid_ConfigMapSource (src_configMap s)
     \<and> pred_option valid_HelmSource (src_helm s) \<and> pred_option valid_KustomizeSource (src_kustomize s)
     \<and> source_rules s"

definition valid_SecretKeyRef :: "SecretKeyRef \<Rightarrow> bool" where
  "valid_SecretKeyRef r \<longleftrightarrow> nonempty (skr_name r) \<and> nonempty (skr_key r)"

text \<open>The rule \<open>has (self.url) || has (self.urlSecretRef)\<close>: presence, not content.\<close>

definition webhook_rule :: "WebhookManifest \<Rightarrow> bool" where
  "webhook_rule w \<longleftrightarrow> wm_url w \<noteq> None \<or> wm_urlSecretRef w \<noteq> None"

definition valid_Webhook :: "WebhookManifest \<Rightarrow> bool" where
  "valid_Webhook w \<longleftrightarrow>
     pred_option (\<lambda>t. t \<in> set enum_WebhookType) (wm_type w)
     \<and> pred_option valid_SecretKeyRef (wm_urlSecretRef w) \<and> webhook_rule w"

definition valid_NotifySpec :: "WebhookManifest list \<Rightarrow> bool" where
  "valid_NotifySpec ws \<longleftrightarrow> 1 \<le> length ws \<and> list_all valid_Webhook ws"

definition valid_spec :: "SpecManifest \<Rightarrow> bool" where
  "valid_spec m \<longleftrightarrow> valid_Source (sm_source m) \<and> pred_option valid_NotifySpec (sm_notify m)"

subsection \<open>Defaults and decoding\<close>

definition webhook_of :: "WebhookManifest \<Rightarrow> WebhookSpec" where
  "webhook_of w =
     \<lparr>wh_type = (case wm_type w of None \<Rightarrow> ''Generic'' | Some t \<Rightarrow> t),
      wh_url = (case wm_url w of None \<Rightarrow> [] | Some u \<Rightarrow> u), wh_urlSecretRef = wm_urlSecretRef w\<rparr>"

text \<open>The default interval is \<open>"5m"\<close>, in nanoseconds.\<close>

definition spec_of :: "SpecManifest \<Rightarrow> DriftCheckSpec" where
  "spec_of m =
     \<lparr>spec_source = sm_source m,
      spec_target = (case sm_target m of None \<Rightarrow> \<lparr>tgt_namespaces = [], tgt_labelSelector = None\<rparr>
                     | Some t \<Rightarrow> t),
      spec_interval = (case sm_interval m of None \<Rightarrow> 300000000000 | Some d \<Rightarrow> d),
      spec_notify = map_option (\<lambda>ws. \<lparr>ns_webhooks = map webhook_of ws\<rparr>) (sm_notify m)\<rparr>"

text \<open>\<open>spec\<close> is not a required field of a DriftCheck; without it no default below it applies.\<close>

definition spec_zero :: DriftCheckSpec where
  "spec_zero =
     \<lparr>spec_source = \<lparr>src_type = [], src_git = None, src_configMap = None, src_helm = None,
                     src_kustomize = None\<rparr>,
      spec_target = \<lparr>tgt_namespaces = [], tgt_labelSelector = None\<rparr>, spec_interval = 0,
      spec_notify = None\<rparr>"

definition admit :: "SpecManifest option \<Rightarrow> DriftCheckSpec option" where
  "admit m =
     (case m of
        None \<Rightarrow> Some spec_zero
      | Some sm \<Rightarrow> if valid_spec sm then Some (spec_of sm) else None)"

lemma admit_Some:
  assumes "admit (Some m) = Some spec"
  shows "valid_Source (spec_source spec)" "spec_source spec = sm_source m"
    "spec_notify spec = map_option (\<lambda>ws. \<lparr>ns_webhooks = map webhook_of ws\<rparr>) (sm_notify m)"
    "valid_spec m"
  using assms by (auto simp: admit_def spec_of_def valid_spec_def split: if_splits)

subsection \<open>What a source refers to\<close>

text \<open>A Secret has the keys that \<open>types.go\<close> documents for its type, and they are not blank.\<close>

definition credentials_complete :: "Secret \<Rightarrow> string \<Rightarrow> bool" where
  "credentials_complete sec ty \<longleftrightarrow>
     (if ty = ''Basic'' then TrimSpace (secret_value sec ''username'') \<noteq> []
        \<and> TrimRight_CRLF (secret_value sec ''password'') \<noteq> []
      else if ty = ''Bearer'' then TrimRight_CRLF (secret_value sec ''bearerToken'') \<noteq> []
      else ty = ''SSH'' \<and> TrimSpace (secret_value sec ''identity'') \<noteq> []
        \<and> TrimSpace (secret_value sec ''known_hosts'') \<noteq> [])"

definition has_manifests :: "ConfigMap \<Rightarrow> string \<Rightarrow> bool" where
  "has_manifests cm key \<longleftrightarrow>
     (if key = [] then TrimSpace (bytes_Join (cm_docs cm (cm_keys cm)) manifest_separator) \<noteq> []
      else \<exists>v. cm_get cm key = Some v \<and> TrimSpace v \<noteq> [])"

text \<open>What the spec refers to is there, in the answers of the API server after \<open>h\<close>.\<close>

definition references_found :: "kube_lib \<Rightarrow> DriftCheck \<Rightarrow> history \<Rightarrow> bool" where
  "references_found k dc h \<longleftrightarrow>
     (let s = spec_source (dc_spec dc) in
      (src_type s = ''ConfigMap'' \<longrightarrow>
         (\<exists>c cm. src_configMap s = Some c
            \<and> kl_GetConfigMap k h \<lparr>nn_namespace = or_else (cms_namespace c) (dc_namespace dc),
                nn_name = cms_name c\<rparr> = Inr cm
            \<and> has_manifests cm (cms_key c)))
      \<and> (\<forall>a. source_auth s = Some a \<longrightarrow>
         (\<exists>sec. kl_GetSecret k h \<lparr>nn_namespace = dc_namespace dc, nn_name = lsr_name (gas_secretRef a)\<rparr>
              = Inr sec
            \<and> credentials_complete sec (gas_type a))))"

lemma configMapManifests_has: "(\<exists>out. configMapManifests cm key = Inr out) \<longleftrightarrow> has_manifests cm key"
  by (auto simp: configMapManifests_def has_manifests_def Let_def split: option.split)

lemma git_auth_of_secret_complete:
  "(\<exists>a. git_auth_of_secret n sec ty = Inr a) \<longleftrightarrow> credentials_complete sec ty"
  by (auto simp: git_auth_of_secret_def credentials_complete_def requireStr_def requireSecret_def
      secret_keys go_simps Let_def)

lemma resolveGitAuth_success:
  "(\<exists>auth h'. resolveGitAuth E ns spec h = (Inr auth, h')) \<longleftrightarrow>
     (\<forall>a. spec = Some a \<longrightarrow>
        (\<exists>sec. kl_GetSecret (e_kube E) h \<lparr>nn_namespace = ns, nn_name = lsr_name (gas_secretRef a)\<rparr> = Inr sec
           \<and> credentials_complete sec (gas_type a)))"
proof (cases spec)
  case None
  then show ?thesis
    by (simp add: resolveGitAuth_def give_def)
next
  case (Some a)
  let ?n = "\<lparr>nn_namespace = ns, nn_name = lsr_name (gas_secretRef a)\<rparr>"
  show ?thesis
    unfolding Some git_auth_of_secret_complete [of "ns_name ns (lsr_name (gas_secretRef a))", symmetric]
    by (cases "kl_GetSecret (e_kube E) h ?n")
      (auto simp: resolveGitAuth_def io_defs pure_def client_GetSecret_def Let_def split: sum.splits)
qed

lemma try_bind_give_success:
  "(\<exists>y h'. try_bind m (\<lambda>x. give (f x)) h = (Inr y, h')) \<longleftrightarrow> (\<exists>x h'. m h = (Inr x, h'))"
  by (auto simp: try_bind_def give_def split: prod.split sum.split)

lemma buildSource_ConfigMap_success:
  assumes "src_type (spec_source (dc_spec dc)) = ''ConfigMap''"
    and "src_configMap (spec_source (dc_spec dc)) = Some c"
  shows "(\<exists>src h'. buildSource E r dc h = (Inr src, h')) \<longleftrightarrow>
    (\<exists>cm. kl_GetConfigMap (e_kube E) h \<lparr>nn_namespace = or_else (cms_namespace c) (dc_namespace dc),
        nn_name = cms_name c\<rparr> = Inr cm \<and> has_manifests cm (cms_key c))"
proof -
  let ?n = "\<lparr>nn_namespace = or_else (cms_namespace c) (dc_namespace dc), nn_name = cms_name c\<rparr>"
  show ?thesis
    unfolding configMapManifests_has [symmetric] using assms
    by (cases "kl_GetConfigMap (e_kube E) h ?n")
      (auto simp: buildSource_def io_defs pure_def client_GetConfigMap_def go_simps Let_def
        split: sum.splits)
qed

text \<open>
  With the rules of the schema, the only way to fail is a reference: no block is missing, no URL is
  empty and no type is unknown.
\<close>

lemma admitted_source:
  assumes "valid_Source (spec_source (dc_spec dc))"
  shows "(\<exists>src h'. buildSource E r dc h = (Inr src, h')) \<longleftrightarrow> references_found (e_kube E) dc h"
proof -
  let ?s = "spec_source (dc_spec dc)"
  have "src_type ?s \<in> set enum_SourceType" "source_rules ?s"
    using assms by (simp_all add: valid_Source_def)
  then consider (cm) c where "src_type ?s = ''ConfigMap''" "src_configMap ?s = Some c"
    | (git) g where "src_type ?s = ''Git''" "src_git ?s = Some g"
    | (helm) g where "src_type ?s = ''Helm''" "src_helm ?s = Some g"
    | (kustomize) g where "src_type ?s = ''Kustomize''" "src_kustomize ?s = Some g"
    by (auto simp: enum_SourceType_def source_rules_def)
  then show ?thesis
  proof cases
    case cm
    then show ?thesis
      unfolding buildSource_ConfigMap_success [OF cm]
      by (simp add: references_found_def source_auth_def Let_def)
  next
    case git
    then have "gss_url g \<noteq> []"
      using assms by (simp add: valid_Source_def valid_GitSource_def)
    then show ?thesis
      using git by (simp add: buildSource_def try_bind_give_success resolveGitAuth_success
          references_found_def source_auth_def go_simps Let_def)
  next
    case helm
    then have "gss_url (hss_git g) \<noteq> []"
      using assms by (simp add: valid_Source_def valid_HelmSource_def valid_GitSource_def)
    then show ?thesis
      using helm by (simp add: buildSource_def try_bind_give_success resolveGitAuth_success
          references_found_def source_auth_def go_simps Let_def)
  next
    case kustomize
    then have "gss_url (kss_git g) \<noteq> []"
      using assms by (simp add: valid_Source_def valid_KustomizeSource_def valid_GitSource_def)
    then show ?thesis
      using kustomize by (simp add: buildSource_def try_bind_give_success resolveGitAuth_success
          references_found_def source_auth_def go_simps Let_def)
  qed
qed

subsection \<open>What an admitted DriftCheck can fail with\<close>

lemma evaluate_source_error:
  assumes "r_Fetcher r \<noteq> None"
  shows "(\<exists>cause h'. evaluate E r dc h = (Permanent dc ''SourceError'' cause, h')) \<longleftrightarrow>
    \<not> (\<exists>src h'. buildSource E r dc h = (Inr src, h'))"
proof -
  obtain res h1 where b: "buildSource E r dc h = (res, h1)"
    by fastforce
  have "verdict_of_run k dc run \<noteq> Permanent dc ''SourceError'' cause" for k run cause
    by (simp add: verdict_of_run_def split: sum.split)
  then show ?thesis
    using assms b
    by (cases res) (auto simp: evaluate_def Let_def split: option.splits sum.splits prod.splits)
qed

text \<open>
  A DriftCheck may be created without a spec; it is then reported as one of an unknown source type,
  and never compared.
\<close>

lemma admitted_without_spec:
  assumes "admit None = Some (dc_spec dc)" "r_Fetcher r \<noteq> None"
  shows "evaluate E r dc h = (Permanent dc ''SourceError'' (Errorf ''unknown source type \"\"''), h)"
proof -
  have "go_quote [] = ''\"\"''"
    by code_simp
  moreover have "dc_spec dc = spec_zero"
    using assms(1) by (simp add: admit_def)
  then have "src_type (spec_source (dc_spec dc)) = []"
    by (simp add: spec_zero_def)
  ultimately show ?thesis
    using assms(2) by (auto simp: evaluate_def buildSource_def fail_def go_simps Let_def)
qed

text \<open>
  C9: The schema and the reconciler fit together, but for a missing spec. A run for a DriftCheck that the
  API server admitted, by a reconciler that has a fetcher, ends in \<open>SourceError\<close> exactly when the
  DriftCheck has no spec, or when what the spec refers to cannot be had at that moment: reading the
  ConfigMap or the Secret fails, for whatever reason, or it lacks the manifests or the documented keys
  for its type. Every other rejection of \<open>buildSource\<close> is unreachable.
\<close>

theorem admitted_fails_by_reference_only:
  assumes "admit m = Some (dc_spec dc)" "kl_GetDriftCheck (e_kube E) h n = Inr dc"
    and "r_Fetcher r \<noteq> None"
  shows "(\<exists>cause h'. decide E r n h = (Permanent dc ''SourceError'' cause, h')) \<longleftrightarrow>
    m = None \<or> \<not> references_found (e_kube E) dc (h @ [CallGetDriftCheck n])"
proof (cases m)
  case None
  then show ?thesis
    using admitted_without_spec [OF _ assms(3)] assms(1) unfolding decide_evaluate [OF assms(2)] by simp
next
  case (Some sm)
  then show ?thesis
    unfolding decide_evaluate [OF assms(2)] evaluate_source_error [OF assms(3)]
    using admitted_source [OF admit_Some(1)] assms(1) by simp
qed

definition ex_manifest_spec :: SpecManifest where
  "ex_manifest_spec =
     \<lparr>sm_source = ex_source, sm_target = None, sm_interval = Some 60000000000,
      sm_notify = Some [\<lparr>wm_type = Some ''Slack'', wm_url = Some ''http://hook'', wm_urlSecretRef = None\<rparr>]\<rparr>"

lemma ex_admitted: "admit (Some ex_manifest_spec) = Some (dc_spec ex_dc)"
  by (simp add: admit_def ex_manifest_spec_def valid_spec_def valid_Source_def ex_source_def
      enum_SourceType_def source_rules_def valid_ConfigMapSource_def valid_NotifySpec_def
      valid_Webhook_def enum_WebhookType_def webhook_rule_def spec_of_def webhook_of_def ex_dc_def
      ex_webhook_def)

theorem admitted_fails_by_reference_only_witness:
  "references_found ex_kube ex_dc [CallGetDriftCheck ex_req]
   \<and> \<not> (\<exists>cause h'. decide ex_env ex_reconciler ex_req [] = (Permanent ex_dc ''SourceError'' cause, h'))"
proof -
  have "r_Fetcher ex_reconciler \<noteq> None"
    by (simp add: ex_reconciler_def)
  from admitted_fails_by_reference_only [OF ex_admitted ex_get this, of "[]"] show ?thesis
    by (simp add: ex_compared ex_kube_env)
qed

subsection \<open>A webhook that cannot be resolved\<close>

lemma deliveries_failed:
  assumes "wh \<in> set whs" "\<And>h. isl (fst (deliver E dc send ev wh h))"
  shows "\<not> list_all (\<lambda>x. \<not> isl x) (deliveries E r dc send ev whs h)"
  using assms(1)
proof (induction whs arbitrary: h)
  case (Cons w whs)
  then show ?case
    using assms(2) [of h] by (auto split: prod.split)
qed simp

text \<open>
  C17: The rule for webhooks checks presence only. A webhook with an empty \<open>url\<close> and no
  \<open>urlSecretRef\<close> is admitted, and defeats the deduplication of its DriftCheck: no notification is ever
  recorded as delivered, so that every run sends the same event again to every other webhook whose
  URL can be resolved, be it inline or in a Secret.
\<close>

theorem empty_url_defeats_deduplication:
  assumes "admit (Some m) = Some (dc_spec dc)" "sm_notify m = Some ws"
    and "w \<in> set ws" "wm_url w = Some []" "wm_urlSecretRef w = None"
    and "notification_due dc" "notifier_ok r"
  shows "\<exists>t. notify E r dc h = (Inr dc, h @ t) \<and> filter status_call t = []
    \<and> (\<forall>wh \<in> set (dc_webhooks dc). \<forall>url. url_resolves E (dc_namespace dc) wh h url \<longrightarrow>
         send_at (dc_event dc) wh url \<in> set t)"
proof -
  let ?ds = "deliveries E r dc (notifier_or_default E r) (dc_event dc) (dc_webhooks dc) h"
  have "webhook_of w \<in> set (dc_webhooks dc)"
    using assms(2,3) by (simp add: dc_webhooks_def admit_Some(3) [OF assms(1)])
  moreover have "isl (fst (deliver E dc send ev (webhook_of w) k))" for send ev k
    using assms(4,5) by (simp add: deliver_def resolveWebhookURL_def webhook_of_def io_defs)
  ultimately have failed: "\<not> list_all (\<lambda>x. \<not> isl x) ?ds"
    by (rule deliveries_failed)
  obtain t where t: "snd (notify E r dc h) = h @ t" "filter status_call t = []"
    using notify_due_calls [OF assms(6,7), of E h] failed by auto
  moreover have "fst (notify E r dc h) = Inr dc"
    by (rule notify_undelivered [OF assms(6) failed])
  ultimately show ?thesis
    using notify_due_sends [OF assms(6,7) t(1)] by (intro exI [of _ t]) (simp add: prod_eq_iff)
qed

text \<open>Beside the webhook without a URL, one whose URL is in a Secret.\<close>

definition ex_secret_webhook :: WebhookManifest where
  "ex_secret_webhook = \<lparr>wm_type = Some ''Slack'', wm_url = None,
     wm_urlSecretRef = Some \<lparr>skr_name = ''hook'', skr_key = ''url''\<rparr>\<rparr>"

definition ex_secret_env :: env where
  "ex_secret_env = ex_env\<lparr>e_kube := (e_kube ex_env)\<lparr>kl_GetSecret :=
     (\<lambda>h n. Inr \<lparr>sec_data = [(''url'', ''http://hook'')]\<rparr>)\<rparr>\<rparr>"

definition ex_empty_url :: SpecManifest where
  "ex_empty_url = ex_manifest_spec\<lparr>sm_notify := Some
     [\<lparr>wm_type = None, wm_url = Some [], wm_urlSecretRef = None\<rparr>, ex_secret_webhook]\<rparr>"

theorem empty_url_defeats_deduplication_witness:
  "\<exists>dc t. notification_due dc \<and> notify ex_secret_env ex_reconciler dc [] = (Inr dc, t)
     \<and> send_at (dc_event dc) (webhook_of ex_secret_webhook) ''http://hook'' \<in> set t"
proof -
  let ?w = "\<lparr>wm_type = None, wm_url = Some [], wm_urlSecretRef = None\<rparr>"
  define dc where "dc = ex_drifted\<lparr>dc_spec := spec_of ex_empty_url\<rparr>"
  have "admit (Some ex_empty_url) = Some (dc_spec dc)"
    using ex_admitted
    by (auto simp: dc_def admit_def ex_empty_url_def ex_manifest_spec_def valid_spec_def valid_NotifySpec_def
        valid_Webhook_def enum_WebhookType_def webhook_rule_def ex_secret_webhook_def valid_SecretKeyRef_def
        nonempty_def split: if_splits)
  moreover have "sm_notify ex_empty_url = Some [?w, ex_secret_webhook]"
    by (simp add: ex_empty_url_def)
  moreover from this have hooks: "dc_webhooks dc = [webhook_of ?w, webhook_of ex_secret_webhook]"
    by (simp add: dc_def dc_webhooks_def spec_of_def)
  moreover from this have due: "notification_due dc"
    using ex_drifted_due
    by (simp add: dc_def notification_due_def dc_webhooks_def split: option.splits)
  ultimately obtain t where t: "notify ex_secret_env ex_reconciler dc [] = (Inr dc, t)"
      "\<forall>wh \<in> set (dc_webhooks dc). \<forall>url. url_resolves ex_secret_env (dc_namespace dc) wh [] url \<longrightarrow>
         send_at (dc_event dc) wh url \<in> set t"
    using empty_url_defeats_deduplication [of ex_empty_url dc _ ?w ex_reconciler ex_secret_env "[]"]
      ex_reconciler_notifier by fastforce
  have trimmed: "TrimSpace ''http://hook'' = ''http://hook''"
    by code_simp
  have "url_resolves ex_secret_env (dc_namespace dc) (webhook_of ex_secret_webhook) [] ''http://hook''"
    using trimmed by (simp add: url_resolves_def resolveWebhookURL_def webhook_of_def ex_secret_webhook_def
        ex_secret_env_def client_GetSecret_def io_defs go_simps Let_def)
  then show ?thesis
    using due t hooks by (intro exI [of _ dc] exI [of _ t]) simp
qed

end
