(* ===== verification/JSON_Text.thy ===== *)
theory JSON_Text
  imports Notify_Sender
begin

text \<open>
  The reading side of the JSON strings that \<open>internal/notify/notify.go\<close> sends. \<open>json_read\<close> is the
  string grammar of RFC 8259 as a receiver applies it: it consumes a string body up to its closing
  quote and decodes the escapes. It is the reference against which the escaping is judged: a name
  taken from the cluster cannot end its string early, and the receiver reads it back.
\<close>

definition hex_value :: "char \<Rightarrow> nat" where
  "hex_value c = (let n = of_char c :: nat in if n < 58 then n - 48 else n - 87)"

text \<open>The UTF-8 encoding of a code point of the basic plane.\<close>

definition utf8_encode :: "nat \<Rightarrow> bytes" where
  "utf8_encode n =
     (if n < 0x80 then [char_of n]
      else if n < 0x800 then [char_of (0xC0 + n div 64), char_of (0x80 + n mod 64)]
      else [char_of (0xE0 + n div 4096), char_of (0x80 + n div 64 mod 64), char_of (0x80 + n mod 64)])"

definition unescape :: "char \<Rightarrow> char option" where
  "unescape d =
     (let n = of_char d :: nat in
      if n = 34 \<or> n = 92 \<or> n = 47 then Some d
      else if d = CHR ''b'' then Some (char_of (8::nat))
      else if d = CHR ''f'' then Some (char_of (12::nat))
      else if d = CHR ''n'' then Some (char_of (10::nat))
      else if d = CHR ''r'' then Some (char_of (13::nat))
      else if d = CHR ''t'' then Some (char_of (9::nat)) else None)"

definition prepend :: "bytes \<Rightarrow> (bytes \<times> bytes) option \<Rightarrow> (bytes \<times> bytes) option" where
  "prepend p r = map_option (\<lambda>(s, rest). (p @ s, rest)) r"

lemma prepend_prepend [simp]: "prepend p (prepend q r) = prepend (p @ q) r"
  by (cases r) (auto simp: prepend_def)

lemma prepend_Nil [simp]: "prepend [] r = r"
  by (cases r) (auto simp: prepend_def)

lemma prepend_Some [simp]: "prepend p (Some (s, rest)) = Some (p @ s, rest)"
  by (simp add: prepend_def)

fun json_read_escape :: "char \<Rightarrow> bytes \<Rightarrow> (bytes \<times> bytes) option" where
  "json_read_escape d ds =
     (if d = CHR ''u'' then
        (case ds of
           a # b # c # e # es \<Rightarrow>
             Some (utf8_encode (4096 * hex_value a + 256 * hex_value b + 16 * hex_value c
                                + hex_value e), es)
         | _ \<Rightarrow> None)
      else map_option (\<lambda>x. ([x], ds)) (unescape d))"

lemma json_read_escape_length:
  "json_read_escape d ds = Some (p, es) \<Longrightarrow> length es \<le> length ds"
  by (auto split: if_splits list.splits)

declare json_read_escape.simps [simp del]

function json_read :: "bytes \<Rightarrow> (bytes \<times> bytes) option" where
  "json_read [] = None"
| "json_read (c # cs) =
     (if of_char c = (34::nat) then Some ([], cs)
      else if of_char c = (92::nat) then
        (case cs of
           [] \<Rightarrow> None
         | d # ds \<Rightarrow>
             (case json_read_escape d ds of
                None \<Rightarrow> None
              | Some (p, es) \<Rightarrow> prepend p (json_read es)))
      else if of_char c < (32::nat) then None
      else prepend [c] (json_read cs))"
  by pat_completeness auto
termination
  by (relation "measure length") (auto dest!: json_read_escape_length)

declare json_read.simps(2) [simp del]

lemma json_read_escaped:
  assumes "json_read_escape d ds = Some (p, es)"
  shows "json_read (char_of (92::nat) # d # ds) = prepend p (json_read es)"
  using assms by (simp add: json_read.simps)

lemma json_read_plain:
  assumes "(of_char c :: nat) \<notin> {34, 92}" "32 \<le> (of_char c :: nat)"
  shows "json_read (c # cs) = prepend [c] (json_read cs)"
  using assms by (simp add: json_read.simps)

lemma json_read_high:
  assumes "\<forall>c \<in> set xs. 128 \<le> (of_char c :: nat)"
  shows "json_read (xs @ rest) = prepend xs (json_read rest)"
  using assms by (induction xs) (simp_all add: json_read_plain)

lemma hex_value_nibble [simp]: "d < 16 \<Longrightarrow> hex_value (hex_nibble d) = d"
  by (auto simp: hex_value_def hex_nibble_def)

lemma json_read_u:
  "json_read (char_of (92::nat) # CHR ''u'' # a # b # c # e # rest) =
     prepend (utf8_encode (4096 * hex_value a + 256 * hex_value b + 16 * hex_value c + hex_value e))
       (json_read rest)"
  by (rule json_read_escaped) (simp add: json_read_escape.simps)

lemma json_read_hex:
  assumes "n < 65536"
  shows "json_read (char_of (92::nat) # CHR ''u'' # hex_nibble (n div 4096)
           # hex_nibble (n div 256 mod 16) # hex_nibble (n div 16 mod 16) # hex_nibble (n mod 16)
           # rest) = prepend (utf8_encode n) (json_read rest)"
proof -
  have digits: "n div 4096 < 16"
    using assms by (simp add: less_mult_imp_div_less)
  have mod: "m mod 16 < 16" for m :: nat
    by simp
  have sum: "4096 * (n div 4096) + 256 * (n div 256 mod 16) + 16 * (n div 16 mod 16) + n mod 16 = n"
  proof -
    have step: "16 * (k div 16) + k mod 16 = k" for k :: nat
      by (metis mult_div_mod_eq)
    have "n div 16 div 16 = n div 256" "n div 256 div 16 = n div 4096"
      by (simp_all add: div_mult2_eq [symmetric])
    then show ?thesis
      using step [of n] step [of "n div 16"] step [of "n div 256"] by linarith
  qed
  show ?thesis
    by (simp only: json_read_u hex_value_nibble [OF digits] hex_value_nibble [OF mod] sum)
qed

lemma not_u: "char_of (92::nat) \<noteq> CHR ''u''" "char_of (34::nat) \<noteq> CHR ''u''"
  by (simp_all add: char_of_def)

lemma digit_zero: "char_of (48::nat) = CHR ''0''"
  by (simp add: char_of_def bit_Suc_0_iff)

text \<open>The escape of each ASCII character reads back as the character.\<close>

lemma json_read_ascii:
  assumes "of_char c < (128::nat)"
  shows "json_read (json_escape_ascii c @ rest) = prepend [c] (json_read rest)"
proof -
  define n where "n = (of_char c :: nat)"
  have c: "c = char_of n" and n: "n < 128"
    using assms by (simp_all add: n_def)
  consider "n \<in> {92, 34, 8, 12, 10, 13, 9}" | "n < 32 \<or> n \<in> {60, 62, 38}" "n \<notin> {8, 12, 10, 13, 9}"
    | "32 \<le> n" "n \<notin> {92, 34, 60, 62, 38}"
    by force
  then show ?thesis
  proof cases
    case 1
    then show ?thesis
      by (auto simp: c json_escape_ascii_def Let_def json_read_escape.simps unescape_def
          json_read_escaped not_u)
  next
    case 2
    then have "json_escape_ascii c
        = [char_of (92::nat), CHR ''u'', hex_nibble (n div 4096), hex_nibble (n div 256 mod 16),
           hex_nibble (n div 16 mod 16), hex_nibble (n mod 16)]"
      using n by (auto simp: c json_escape_ascii_def Let_def hex_nibble_def digit_zero)
    then show ?thesis
      using json_read_hex [of n rest] n by (simp add: c utf8_encode_def)
  next
    case 3
    then have "json_escape_ascii c = [c]"
      using n by (simp add: c json_escape_ascii_def Let_def)
    then show ?thesis
      using 3 n by (simp add: c json_read_plain)
  qed
qed

subsection \<open>Round trip\<close>

text \<open>
  A byte string as JSON can carry it: each byte that starts no UTF-8 encoding is replaced by U+FFFD.
\<close>

function utf8_valid :: "bytes \<Rightarrow> bool" where
  "utf8_valid [] = True"
| "utf8_valid (c # cs) =
     (let n = utf8_len (map of_char (c # cs)) in
      if n = 0 then False else utf8_valid (drop n (c # cs)))"
  by pat_completeness auto
termination
  by (relation "measure length") (simp_all add: diff_less)

function to_utf8 :: "bytes \<Rightarrow> bytes" where
  "to_utf8 [] = []"
| "to_utf8 (c # cs) =
     (let n = utf8_len (map of_char (c # cs)) in
      if n = 0 then map char_of [0xEF, 0xBF, 0xBD :: nat] @ to_utf8 cs
      else take n (c # cs) @ to_utf8 (drop n (c # cs)))"
  by pat_completeness auto
termination
  by (relation "measure length") (simp_all add: diff_less)

declare utf8_valid.simps(2) [simp del] to_utf8.simps(2) [simp del]

lemma to_utf8_valid: "utf8_valid s \<Longrightarrow> to_utf8 s = s"
  by (induction s rule: to_utf8.induct) (simp_all add: utf8_valid.simps to_utf8.simps Let_def split: if_splits)

lemma utf8_len_ascii: "b < 128 \<Longrightarrow> utf8_len (b # bs) = 1"
  by (simp add: utf8_len.simps)

lemma utf8_tail_high:
  assumes "n \<le> length bs" "utf8_cont lo hi (hd bs)" "list_all (utf8_cont 0x80 0xBF) (take (n - 1) (tl bs))"
    and "128 \<le> lo" "1 \<le> n" "x \<in> set (take n bs)"
  shows "128 \<le> x"
proof (cases bs)
  case (Cons c cs)
  then have "x = c \<or> x \<in> set (take (n - 1) cs)"
    using assms(5,6) by (cases n) auto
  then show ?thesis
    using assms(2-4) Cons by (auto simp: utf8_cont_def list_all_iff)
qed (use assms in simp)

definition utf8_tail :: "nat list \<Rightarrow> nat \<Rightarrow> nat \<Rightarrow> nat \<Rightarrow> bool" where
  "utf8_tail bs n lo hi \<longleftrightarrow>
     n \<le> length bs \<and> utf8_cont lo hi (hd bs) \<and> list_all (utf8_cont 0x80 0xBF) (take (n - 1) (tl bs))"

lemma utf8_len_cases:
  assumes "128 \<le> b"
  shows "utf8_len (b # bs) = 0 \<or>
    (\<exists>(n, lo, hi) \<in> {(1, 0x80, 0xBF), (2, 0xA0, 0xBF), (2, 0x80, 0x9F), (2, 0x80, 0xBF),
        (3, 0x90, 0xBF), (3, 0x80, 0x8F), (3, 0x80, 0xBF)}.
       utf8_len (b # bs) = Suc n \<and> utf8_tail bs n lo hi)"
  using assms
  unfolding utf8_len.simps(2) Let_def utf8_tail_def [symmetric]
  by simp

lemma utf8_len_high:
  assumes "128 \<le> b" "x \<in> set (take (utf8_len (b # bs)) (b # bs))"
  shows "128 \<le> x"
proof (cases "utf8_len (b # bs) = 0")
  case True
  then show ?thesis
    using assms(2) by simp
next
  case False
  then obtain n lo hi where n: "utf8_len (b # bs) = Suc n" "utf8_tail bs n lo hi" "128 \<le> lo" "1 \<le> n"
    using utf8_len_cases [OF assms(1), of bs] by auto
  then have "x = b \<or> x \<in> set (take n bs)"
    using assms(2) by simp
  then show ?thesis
    using assms(1) n(2-4) utf8_tail_high [of n bs lo hi x] by (auto simp: utf8_tail_def)
qed

lemma json_read_ufffd:
  "json_read (char_of (92::nat) # ''ufffd'' @ rest)
     = prepend (map char_of [0xEF, 0xBF, 0xBD :: nat]) (json_read rest)"
  by (simp add: json_read_u hex_value_def utf8_encode_def)

lemma json_read_separator:
  assumes "w \<in> set line_separators"
  shows "json_read (char_of (92::nat) # ''u202'' @ [hex_nibble (of_char (last w) - 0xA0)] @ rest)
     = prepend w (json_read rest)"
  using assms by (auto simp: line_separators_def json_read_u hex_value_def utf8_encode_def hex_nibble_def)

lemma multibyte_high:
  assumes "128 \<le> (of_char c :: nat)"
  shows "\<forall>x \<in> set (take (utf8_len (map of_char (c # cs))) (c # cs)). 128 \<le> (of_char x :: nat)"
proof
  fix x
  assume "x \<in> set (take (utf8_len (map of_char (c # cs))) (c # cs))"
  then have "(of_char x :: nat) \<in> set (take (utf8_len (map of_char (c # cs))) (map of_char (c # cs)))"
    unfolding take_map set_map by (rule imageI)
  then show "128 \<le> (of_char x :: nat)"
    using utf8_len_high [OF assms] by (simp only: list.map)
qed

lemma json_read_escape_chars:
  "json_read (json_escape s @ char_of (34::nat) # rest) = Some (to_utf8 s, rest)"
proof (induction s rule: json_escape.induct)
  case 1
  show ?case
    by (simp add: json_read.simps)
next
  case (2 c cs)
  let ?n = "utf8_len (map of_char (c # cs))"
  let ?q = "char_of (34::nat) # rest"
  consider "(of_char c :: nat) < 128" | "128 \<le> (of_char c :: nat)" "?n = 0"
    | "128 \<le> (of_char c :: nat)" "?n \<noteq> 0" "take ?n (c # cs) \<in> set line_separators"
    | "128 \<le> (of_char c :: nat)" "?n \<noteq> 0" "take ?n (c # cs) \<notin> set line_separators"
    by linarith
  then show ?case
  proof cases
    case 1
    then have "?n = 1"
      by (simp add: utf8_len_ascii)
    then show ?thesis
      using 1 "2.IH"(1) by (simp add: json_read_ascii to_utf8.simps)
  next
    case 2
    then show ?thesis
      using "2.IH"(2) json_read_ufffd [of "json_escape cs @ ?q"]
      by (simp add: to_utf8.simps)
  next
    case 3
    have "json_escape (c # cs) = char_of (92::nat) # ''u202''
        @ [hex_nibble (of_char (last (take ?n (c # cs))) - 0xA0)] @ json_escape (drop ?n (c # cs))"
      using 3 by (simp add: Let_def)
    moreover have "json_read (json_escape (drop ?n (c # cs)) @ ?q)
        = Some (to_utf8 (drop ?n (c # cs)), rest)"
      using 3 "2.IH"(3) by simp
    moreover have "to_utf8 (c # cs) = take ?n (c # cs) @ to_utf8 (drop ?n (c # cs))"
      using 3(2) by (simp only: to_utf8.simps Let_def if_False)
    ultimately show ?thesis
      using json_read_separator [OF 3(3), of "json_escape (drop ?n (c # cs)) @ ?q"]
      by (simp del: json_escape.simps take_Suc_Cons drop_Suc_Cons list.map)
  next
    case 4
    have "json_escape (c # cs) = take ?n (c # cs) @ json_escape (drop ?n (c # cs))"
      using 4 by (simp add: Let_def)
    moreover have "json_read (json_escape (drop ?n (c # cs)) @ ?q)
        = Some (to_utf8 (drop ?n (c # cs)), rest)"
      using 4 "2.IH"(4) by simp
    moreover have "to_utf8 (c # cs) = take ?n (c # cs) @ to_utf8 (drop ?n (c # cs))"
      using 4(2) by (simp only: to_utf8.simps Let_def if_False)
    moreover have "\<forall>x \<in> set (take ?n (c # cs)). 128 \<le> (of_char x :: nat)"
      by (rule multibyte_high [OF 4(1)])
    ultimately show ?thesis
      using json_read_high [of "take ?n (c # cs)" "json_escape (drop ?n (c # cs)) @ ?q"]
      by (simp del: json_escape.simps take_Suc_Cons drop_Suc_Cons list.map)
  qed
qed

text \<open>
  A string that is sent as JSON reads back at the receiver as itself with invalid UTF-8 replaced,
  and ends where it was meant to end: no name, namespace or kind of a cluster object can close its
  string early and inject JSON of its own.
\<close>

theorem json_string_roundtrip:
  "\<exists>body. json_string s = char_of (34::nat) # body
     \<and> json_read (body @ rest) = Some (to_utf8 s, rest)
     \<and> (utf8_valid s \<longrightarrow> to_utf8 s = s)"
  by (simp add: json_string_def json_read_escape_chars to_utf8_valid)

theorem json_string_roundtrip_witness:
  "\<exists>body. json_string ''a<b'' = char_of (34::nat) # body \<and> json_read (body @ ''}'') = Some (''a<b'', ''}'')"
proof -
  have "utf8_valid ''a<b''"
    by (simp add: utf8_valid.simps utf8_len_ascii)
  then show ?thesis
    using json_string_roundtrip [of "''a<b''" "''}''"] by auto
qed

end
