(* ===== verification/Status_Schema.thy ===== *)
theory Status_Schema
  imports Run_Shape JSON_Text
begin

text \<open>
  The schema of the status: what \<open>config/crd/bases/drift.somaz.io_driftchecks.yaml\<close>, generated from
  \<open>types.go\<close>, lets the API server store of a status, and whether the controller's status writes comply.
\<close>

subsection \<open>Lengths and patterns\<close>

text \<open>\<open>maxLength\<close> counts runes; each byte that is not part of one counts as one.\<close>

function rune_count :: "bytes \<Rightarrow> nat" where
  "rune_count [] = 0"
| "rune_count (c # cs) = Suc (rune_count (drop (utf8_len (map of_char (c # cs)) - 1) cs))"
  by pat_completeness auto
termination
  by (relation "measure length") simp_all

declare rune_count.simps(2) [simp del]

lemma rune_count_length: "rune_count s \<le> length s"
proof (induction s rule: rune_count.induct)
  case (2 c cs)
  then show ?case
    by (simp add: rune_count.simps(2) del: list.map)
qed simp

lemma rune_count_replicate: "of_char c < (128::nat) \<Longrightarrow> rune_count (replicate n c) = n"
  by (induction n) (simp_all add: rune_count.simps(2) utf8_len_ascii)

definition between :: "char \<Rightarrow> char \<Rightarrow> char \<Rightarrow> bool" where
  "between lo hi c \<longleftrightarrow> (of_char lo :: nat) \<le> of_char c \<and> (of_char c :: nat) \<le> of_char hi"

definition letter :: "char \<Rightarrow> bool" where
  "letter c \<longleftrightarrow> between (CHR ''A'') (CHR ''Z'') c \<or> between (CHR ''a'') (CHR ''z'') c"

definition lower_alnum :: "char \<Rightarrow> bool" where
  "lower_alnum c \<longleftrightarrow> between (CHR ''a'') (CHR ''z'') c \<or> between (CHR ''0'') (CHR ''9'') c"

definition alnum :: "char \<Rightarrow> bool" where
  "alnum c \<longleftrightarrow> letter c \<or> between (CHR ''0'') (CHR ''9'') c"

text \<open>\<open>F(M*L)?\<close>, for classes of characters where \<open>L\<close> is within \<open>M\<close>.\<close>

definition first_mid_last :: "(char \<Rightarrow> bool) \<Rightarrow> (char \<Rightarrow> bool) \<Rightarrow> (char \<Rightarrow> bool) \<Rightarrow> string \<Rightarrow> bool" where
  "first_mid_last f m l s \<longleftrightarrow>
     s \<noteq> [] \<and> f (hd s) \<and> (length s = 1 \<or> list_all m (butlast (tl s)) \<and> l (last s))"

text \<open>\<open>^[A-Za-z]([A-Za-z0-9_,:]*[A-Za-z0-9_])?$\<close>\<close>

definition reason_pattern :: "string \<Rightarrow> bool" where
  "reason_pattern = first_mid_last letter (\<lambda>c. alnum c \<or> c \<in> set ''_,:'') (\<lambda>c. alnum c \<or> c = CHR ''_'')"

text \<open>The pattern of condition types: a name, with an optional DNS prefix before a slash.\<close>

definition dns_label :: "string \<Rightarrow> bool" where
  "dns_label = first_mid_last lower_alnum (\<lambda>c. lower_alnum c \<or> c = CHR ''-'') lower_alnum"

fun split_on :: "char \<Rightarrow> string \<Rightarrow> string list" where
  "split_on d [] = [[]]"
| "split_on d (c # cs) =
     (if c = d then [] # split_on d cs
      else (case split_on d cs of [] \<Rightarrow> [[c]] | p # ps \<Rightarrow> (c # p) # ps))"

definition type_name :: "string \<Rightarrow> bool" where
  "type_name = first_mid_last alnum (\<lambda>c. alnum c \<or> c \<in> set ''-_.'') alnum"

definition type_pattern :: "string \<Rightarrow> bool" where
  "type_pattern s \<longleftrightarrow>
     (case split_on (CHR ''/'') s of
        [n] \<Rightarrow> type_name n
      | [p, n] \<Rightarrow> list_all dns_label (split_on (CHR ''.'') p) \<and> type_name n
      | _ \<Rightarrow> False)"

subsection \<open>The schema\<close>

text \<open>A condition, up to the length of its message.\<close>

definition condition_wf :: "Condition \<Rightarrow> bool" where
  "condition_wf c \<longleftrightarrow>
     type_pattern (cond_type c) \<and> rune_count (cond_type c) \<le> 316
     \<and> cond_status c \<in> set [''True'', ''False'', ''Unknown'']
     \<and> 0 \<le> sint (cond_observedGeneration c)
     \<and> cond_lastTransitionTime c \<noteq> None
     \<and> reason_pattern (cond_reason c) \<and> 1 \<le> rune_count (cond_reason c)
     \<and> rune_count (cond_reason c) \<le> 1024"

definition message_max :: nat where
  "message_max = 32768"

definition valid_condition :: "Condition \<Rightarrow> bool" where
  "valid_condition c \<longleftrightarrow> condition_wf c \<and> rune_count (cond_message c) \<le> message_max"

definition enum_DriftStatus :: "string list" where
  "enum_DriftStatus = [''unchanged'', ''changed'', ''new'', ''deleted'']"

definition valid_status :: "DriftCheckStatus \<Rightarrow> bool" where
  "valid_status st \<longleftrightarrow>
     list_all valid_condition (st_conditions st) \<and> distinct (map cond_type (st_conditions st))
     \<and> list_all (\<lambda>d. dr_status d \<in> set enum_DriftStatus) (st_driftedResources st)"

subsection \<open>What is relied on\<close>

text \<open>The API server stores and returns only what the schema allows, and generations are not negative.\<close>

definition enforces_schema :: "kube_lib \<Rightarrow> bool" where
  "enforces_schema k \<longleftrightarrow>
     (\<forall>h n dc. kl_GetDriftCheck k h n = Inr dc \<longrightarrow> valid_status (dc_status dc) \<and> 0 \<le> sint (dc_generation dc))
     \<and> (\<forall>h d d'. kl_StatusUpdate k h d = Inr d' \<longrightarrow>
          valid_status (dc_status d) \<and> valid_status (dc_status d'))"

text \<open>
  \<open>meta.SetStatusCondition\<close>: the condition of that type becomes the given one, with a transition time,
  the others stay, and no type occurs twice.
\<close>

definition same_condition :: "Condition \<Rightarrow> Condition \<Rightarrow> bool" where
  "same_condition c c' \<longleftrightarrow>
     c'\<lparr>cond_lastTransitionTime := None\<rparr> = c\<lparr>cond_lastTransitionTime := None\<rparr>"

definition sets_conditions :: "kube_lib \<Rightarrow> bool" where
  "sets_conditions k \<longleftrightarrow>
     (\<forall>h cs c. let cs' = kl_SetStatusCondition k h cs c in
        (\<exists>c' \<in> set cs'. same_condition c c')
        \<and> (\<forall>c' \<in> set cs'. c' \<in> set cs \<or> same_condition c c')
        \<and> (distinct (map cond_type cs) \<longrightarrow> distinct (map cond_type cs'))
        \<and> ((\<forall>x \<in> set cs. cond_lastTransitionTime x \<noteq> None) \<longrightarrow>
             (\<forall>x \<in> set cs'. cond_lastTransitionTime x \<noteq> None)))"

text \<open>kube-diff's names for what it reports.\<close>

definition drift_names :: "kd_lib \<Rightarrow> bool" where
  "drift_names kd \<longleftrightarrow>
     kd_StatusChanged kd = ''changed'' \<and> kd_StatusNew kd = ''new'' \<and> kd_StatusDeleted kd = ''deleted''"

subsection \<open>The controller's conditions\<close>

lemma ready_wf:
  assumes "reason \<in> set (''DriftEvaluated'' # failure_reasons)" "status \<in> set [''True'', ''False'']"
    and "same_condition (ready_condition status reason message g) c"
    and "0 \<le> sint g" "cond_lastTransitionTime c \<noteq> None"
  shows "condition_wf c" "cond_message c = message" "cond_status c = status"
proof -
  have eq: "cond_type c = ''Ready''" "cond_status c = status" "cond_observedGeneration c = g"
      "cond_reason c = reason" "cond_message c = message"
    using assms(3) by (cases c; simp add: same_condition_def ready_condition_def)+
  have "reason_pattern reason \<and> 1 \<le> length reason \<and> length reason \<le> 1024"
    using assms(1) unfolding failure_reasons_def
    by (auto simp: reason_pattern_def first_mid_last_def alnum_def letter_def between_def)
  moreover have "1 \<le> rune_count s" if "1 \<le> length s" for s
    using that by (cases s) (simp_all add: rune_count.simps)
  moreover have "type_pattern ''Ready''"
    by (simp add: type_pattern_def type_name_def first_mid_last_def alnum_def letter_def between_def)
  ultimately show "condition_wf c"
    using assms(2,4,5) eq rune_count_length [of reason] rune_count_length [of "''Ready''"]
    by (auto simp: condition_wf_def)
  show "cond_message c = message" "cond_status c = status"
    using eq by simp_all
qed

text \<open>A status that breaks no rule but the length of the message of a failure.\<close>

definition valid_but_long :: "DriftCheckStatus \<Rightarrow> bool" where
  "valid_but_long st \<longleftrightarrow>
     list_all (\<lambda>c. condition_wf c \<and> (rune_count (cond_message c) \<le> message_max \<or> cond_status c = ''False''))
       (st_conditions st)
     \<and> distinct (map cond_type (st_conditions st))
     \<and> list_all (\<lambda>d. dr_status d \<in> set enum_DriftStatus) (st_driftedResources st)"

lemma valid_statusD:
  assumes "valid_status st"
  shows "list_all valid_condition (st_conditions st)" "distinct (map cond_type (st_conditions st))"
    "list_all (\<lambda>d. dr_status d \<in> set enum_DriftStatus) (st_driftedResources st)"
    "\<forall>c \<in> set (st_conditions st). cond_lastTransitionTime c \<noteq> None"
  using assms by (auto simp: valid_status_def list_all_iff valid_condition_def condition_wf_def)

lemma set_ready_valid:
  fixes h :: history and message :: string
  assumes "sets_conditions k" "list_all valid_condition cs" "distinct (map cond_type cs)"
    and "reason \<in> set (''DriftEvaluated'' # failure_reasons)" "status \<in> set [''True'', ''False'']" "0 \<le> sint g"
  defines "cs' \<equiv> kl_SetStatusCondition k h cs (ready_condition status reason message g)"
  shows "distinct (map cond_type cs')"
    and "c \<in> set cs' \<Longrightarrow> valid_condition c \<or> condition_wf c \<and> cond_status c = status \<and> cond_message c = message"
proof -
  have old: "\<forall>x \<in> set cs. cond_lastTransitionTime x \<noteq> None"
    using assms(2) by (auto simp: list_all_iff valid_condition_def condition_wf_def)
  have new: "(\<forall>c' \<in> set cs'. c' \<in> set cs \<or> same_condition (ready_condition status reason message g) c')"
      "distinct (map cond_type cs')" "\<forall>x \<in> set cs'. cond_lastTransitionTime x \<noteq> None"
    using assms(1,3) old unfolding sets_conditions_def cs'_def Let_def by blast+
  show "distinct (map cond_type cs')"
    by (rule new)
  show "valid_condition c \<or> condition_wf c \<and> cond_status c = status \<and> cond_message c = message"
    if "c \<in> set cs'"
    using new(1,3) that ready_wf [OF assms(4,5) _ assms(6), of message c] assms(2)
    by (auto simp: list_all_iff)
qed

lemma length_nat_decimal: "n < 10 ^ Suc k \<Longrightarrow> length (nat_decimal n) \<le> Suc k"
proof (induction k arbitrary: n)
  case (Suc k)
  have "n div 10 < 10 ^ Suc k"
    using Suc.prems by (simp add: div_less_iff_less_mult)
  then show ?case
    using Suc.IH [of "n div 10"] by (simp add: nat_decimal.simps [of n])
qed (simp add: nat_decimal.simps)

lemma length_go_decimal: "length (go_decimal w) \<le> 20"
proof -
  have "sint w < 2 ^ 63" "- (2 ^ 63) \<le> sint w"
    using sint_less [of w] sint_greater_eq [of w] by simp_all
  then have "nat (sint w) < 10 ^ Suc 18" "nat (- sint w) < 10 ^ Suc 18"
    by simp_all
  then have "length (nat_decimal (nat (sint w))) \<le> 19" "length (nat_decimal (nat (- sint w))) \<le> 19"
    using length_nat_decimal [of _ 18] by fastforce+
  then show ?thesis
    by (simp add: go_decimal_def int_decimal_def)
qed

lemma evaluated_message_short: "rune_count (evaluated_message s) \<le> message_max"
  using rune_count_length [of "evaluated_message s"] length_go_decimal [of "sum_changed s"]
    length_go_decimal [of "sum_new s"] length_go_decimal [of "sum_deleted s"]
  by (simp add: evaluated_message_def message_max_def)

lemma summarize_names:
  assumes "drift_names kd" "summarize kd results = (drifted, s)"
  shows "list_all (\<lambda>d. dr_status d \<in> set enum_DriftStatus) drifted"
  using assms
  by (auto simp: summarize_classifies list_all_iff drifted_of_result_def result_class_def drift_names_def
      enum_DriftStatus_def split: if_splits)

subsection \<open>The controller's writes\<close>

lemma not_ready_valid:
  assumes "sets_conditions (e_kube E)" "valid_status (dc_status dc)" "0 \<le> sint (dc_generation dc)"
    and "reason \<in> set failure_reasons"
  shows "valid_but_long (dc_status (not_ready E h dc reason cause))"
proof -
  note st = valid_statusD [OF assms(2)]
  let ?d = "not_ready E h dc reason cause"
  have "reason \<in> set (''DriftEvaluated'' # failure_reasons)" "''False'' \<in> set [''True'', ''False'']"
    using assms(4) by simp_all
  note ready = set_ready_valid [OF assms(1) st(1,2) this assms(3), where h = h and message = "err_text cause"]
  have "st_conditions (dc_status ?d) = kl_SetStatusCondition (e_kube E) h (st_conditions (dc_status dc))
      (ready_condition ''False'' reason (err_text cause) (dc_generation dc))"
    "st_driftedResources (dc_status ?d) = st_driftedResources (dc_status dc)"
    by (simp_all add: not_ready_def set_condition_def go_simps)
  moreover have "condition_wf c \<and> (rune_count (cond_message c) \<le> message_max \<or> cond_status c = ''False'')"
    if "c \<in> set (kl_SetStatusCondition (e_kube E) h (st_conditions (dc_status dc))
      (ready_condition ''False'' reason (err_text cause) (dc_generation dc)))" for c
    using ready(2) [OF that] unfolding valid_condition_def by blast
  ultimately show ?thesis
    using st(3) ready(1) by (simp add: valid_but_long_def list_all_iff)
qed

lemma evaluated_valid:
  assumes "sets_conditions (e_kube E)" "valid_status (dc_status dc)" "0 \<le> sint (dc_generation dc)"
    and "drift_names (e_kd E)"
  shows "valid_but_long (dc_status (evaluated_status E h dc results))"
proof -
  obtain drifted s where sum: "summarize (e_kd E) results = (drifted, s)"
    by fastforce
  note st = valid_statusD [OF assms(2)]
  let ?d = "evaluated_status E h dc results"
  have "''DriftEvaluated'' \<in> set (''DriftEvaluated'' # failure_reasons)" "''True'' \<in> set [''True'', ''False'']"
    by simp_all
  note ready = set_ready_valid [OF assms(1) st(1,2) this assms(3), where h = h and message = "evaluated_message s"]
  have "st_conditions (dc_status ?d) = kl_SetStatusCondition (e_kube E) h (st_conditions (dc_status dc))
      (ready_condition ''True'' ''DriftEvaluated'' (evaluated_message s) (dc_generation dc))"
    "st_driftedResources (dc_status ?d) = drifted"
    by (simp_all add: evaluated_status_def sum set_condition_def go_simps Let_def)
  moreover have "condition_wf c \<and> (rune_count (cond_message c) \<le> message_max \<or> cond_status c = ''False'')"
    if "c \<in> set (kl_SetStatusCondition (e_kube E) h (st_conditions (dc_status dc))
      (ready_condition ''True'' ''DriftEvaluated'' (evaluated_message s) (dc_generation dc)))" for c
    using ready(2) [OF that] evaluated_message_short [of s] unfolding valid_condition_def by auto
  ultimately show ?thesis
    using summarize_names [OF assms(4) sum] ready(1) by (simp add: valid_but_long_def list_all_iff)
qed

text \<open>
  C15: The controller writes what the schema allows. Over the whole life of the process, every status
  write has conditions of distinct types with a legal type, status, reason and generation and with a
  transition time, and drift names of the enumeration; and no message is longer than allowed but that
  of a failure.
\<close>

theorem controller_status_writes_valid:
  assumes "enforces_schema (e_kube E)" "sets_conditions (e_kube E)" "drift_names (e_kd E)"
    and "wiring_ok E r" "loop_runs E r controller_start s" "ct_history s = a @ CallStatusUpdate d # b"
  shows "valid_but_long (dc_status d)"
proof -
  obtain n h a' b' where run: "snd (Reconcile E r n h) = h @ a' @ CallStatusUpdate d # b'"
    by (rule loop_call_origin [OF assms(4-6)])
  from Reconcile_writes [OF assms(4) run] show ?thesis
  proof (elim disjE exE conjE)
    fix dc
    assume "kl_GetDriftCheck (e_kube E) h n = Inr dc" and d: "verdict_write E dc d"
    then have "valid_status (dc_status dc)" "0 \<le> sint (dc_generation dc)"
      using assms(1) unfolding enforces_schema_def by blast+
    then show ?thesis
      using d not_ready_valid [OF assms(2)] evaluated_valid [OF assms(2) _ _ assms(3)]
      unfolding verdict_write_def by blast
  next
    fix h' d0 dc1
    assume "kl_StatusUpdate (e_kube E) h' d0 = Inr dc1" and d: "d = set_notified (fingerprint dc1) dc1"
    then have "valid_status (dc_status dc1)"
      using assms(1) unfolding enforces_schema_def by blast
    then show ?thesis
      by (auto simp: d valid_but_long_def valid_status_def valid_condition_def set_notified_def list_all_iff)
  qed
qed

subsection \<open>An example\<close>

text \<open>A server that enforces the schema, and an engine that fails with an error of 40000 bytes.\<close>

definition schema_kube :: kube_lib where
  "schema_kube = ex_kube\<lparr>
     kl_SetStatusCondition := \<lambda>h cs c. filter (\<lambda>d. cond_type d \<noteq> cond_type c) cs
       @ [c\<lparr>cond_lastTransitionTime := Some 0\<rparr>],
     kl_StatusUpdate := \<lambda>h d.
       if valid_status (dc_status d) then Inr d else Inl (StatusErr ''Invalid'' ''too long'')\<rparr>"

definition schema_env :: env where
  "schema_env = ex_env\<lparr>e_kube := schema_kube\<rparr>"

definition long_error :: error where
  "long_error = LibErr (replicate 40000 (CHR ''x''))"

definition long_env :: env where
  "long_env = schema_env\<lparr>e_kd := ex_kd\<lparr>kd_Run := \<lambda>load f. fail long_error\<rparr>\<rparr>"

lemma ex_status_valid: "valid_status ex_status"
  by (simp add: valid_status_def ex_status_def)

lemma schema_kube_enforces: "enforces_schema schema_kube"
  using ex_status_valid
  by (auto simp: enforces_schema_def schema_kube_def ex_kube_def ex_dc_def split: if_splits)

lemma schema_kube_sets: "sets_conditions schema_kube"
  by (auto simp: sets_conditions_def same_condition_def schema_kube_def Let_def distinct_map inj_on_def)

lemma schema_finds: "finds_example schema_kube"
  by (simp add: finds_example_def schema_kube_def ex_kube_def)

lemma schema_wiring: "wiring_ok schema_env ex_reconciler" "wiring_ok long_env ex_reconciler"
  using ex_wiring by (auto simp: wiring_ok_def engine_ok_def schema_env_def long_env_def intro!: quiet)

lemma schema_compared:
  "\<exists>h1. decide schema_env ex_reconciler ex_req [] = (Compared ex_dc [ex_result ex_manifest], h1)"
proof -
  have "finds_example (e_kube schema_env)"
    using schema_finds by (simp add: schema_env_def)
  from ex_run_decide [OF this] show ?thesis
    by (simp add: verdict_of_run_def) (simp add: schema_env_def ex_env_def ex_kd_def io_defs BytesSource_Load_def)
qed

lemma long_transient:
  "\<exists>h1. decide long_env ex_reconciler ex_req [] = (Transient ex_dc long_error, h1)"
proof -
  have "finds_example (e_kube long_env)"
    using schema_finds by (simp add: schema_env_def long_env_def)
  from ex_run_decide [OF this] show ?thesis
    by (simp add: verdict_of_run_def)
      (simp add: long_env_def schema_env_def schema_kube_def ex_kube_def fail_def long_error_def
        del: source_Load.simps)
qed

theorem controller_status_writes_valid_witness:
  "\<exists>a d b. snd (Reconcile schema_env ex_reconciler ex_req []) = a @ CallStatusUpdate d # b
     \<and> valid_but_long (dc_status d)"
proof -
  let ?t = "after_run schema_env ex_reconciler ex_req [] ex_observed"
  obtain h1 where "decide schema_env ex_reconciler ex_req [] = (Compared ex_dc [ex_result ex_manifest], h1)"
    using schema_compared by blast
  then obtain d b where run: "snd (Reconcile schema_env ex_reconciler ex_req []) = h1 @ CallStatusUpdate d # b"
    using evaluated_calls [OF ex_reconciler_notifier, where E = schema_env and h = h1 and dc = ex_dc
        and interval = "effective_interval ex_dc" and results = "[ex_result ex_manifest]"]
    by (auto simp: Reconcile_perform)
  then have "ct_history ?t = h1 @ CallStatusUpdate d # b"
    by (simp add: ex_observed_def)
  moreover have "enforces_schema (e_kube schema_env)" "sets_conditions (e_kube schema_env)"
      "drift_names (e_kd schema_env)"
    using schema_kube_enforces schema_kube_sets
    by (simp_all add: schema_env_def ex_env_def drift_names_def ex_kd_def)
  ultimately have "valid_but_long (dc_status d)"
    using controller_status_writes_valid [OF _ _ _ schema_wiring(1) ex_first_run] by blast
  then show ?thesis
    using run by blast
qed

subsection \<open>A failure that is too long to report\<close>

text \<open>
  C16: A failure with a long message is never reported. The message of the condition is the error's text
  and is not cut, so with more runes than the schema allows the only status write of the run is
  rejected: \<open>Ready\<close> keeps its old value, \<open>True\<close> included, and the run returns an error on every retry.
\<close>

theorem long_failure_never_recorded:
  assumes "enforces_schema (e_kube E)" "sets_conditions (e_kube E)"
    and "decide E r n h = (v, h1)" "v = Permanent dc reason cause \<or> v = Transient dc cause"
    and "message_max < rune_count (err_text cause)"
  shows "\<exists>gs d err res. Reconcile E r n h = ((CtrlResult_zero, Some res), h1 @ gs @ [CallStatusUpdate d])
    \<and> list_all gauge_call gs \<and> kl_StatusUpdate (e_kube E) (h1 @ gs) d = Inl err"
proof -
  have rejected: "\<exists>err. kl_StatusUpdate (e_kube E) k (not_ready E k' dc reason cause) = Inl err" for k k' reason
  proof -
    let ?d = "not_ready E k' dc reason cause"
    obtain c where c: "c \<in> set (st_conditions (dc_status ?d))"
        "same_condition (ready_condition ConditionFalse reason (err_text cause) (dc_generation dc)) c"
      using assms(2) unfolding sets_conditions_def not_ready_def set_condition_def Let_def by fastforce
    from c(2) have "cond_message c = err_text cause"
      by (cases c) (simp add: same_condition_def ready_condition_def)
    then have "\<not> valid_condition c"
      using assms(5) by (simp add: valid_condition_def)
    then have "\<not> valid_status (dc_status ?d)"
      using c(1) by (auto simp: valid_status_def list_all_iff)
    then show ?thesis
      using assms(1) unfolding enforces_schema_def
      by (cases "kl_StatusUpdate (e_kube E) k ?d") blast+
  qed
  from assms(4) show ?thesis
  proof
    assume v: "v = Permanent dc reason cause"
    obtain gs where gs: "Recorder_Delete (r_Metrics r) (dc_name dc) (dc_namespace dc) h1 = ((), h1 @ gs)"
        "list_all gauge_call gs"
      by (rule Recorder_Delete_gauges)
    obtain err where "kl_StatusUpdate (e_kube E) (h1 @ gs) (not_ready E (h1 @ gs) dc reason cause) = Inl err"
      using rejected by blast
    then show ?thesis
      using assms(3) gs by (simp add: v Reconcile_perform permanentFail_def markNotReady_calls)
  next
    assume v: "v = Transient dc cause"
    obtain err where "kl_StatusUpdate (e_kube E) h1 (not_ready E h1 dc ''CompareError'' cause) = Inl err"
      using rejected by blast
    then show ?thesis
      using assms(3) by (intro exI [of _ "[]"]) (simp add: v Reconcile_perform markNotReady_calls)
  qed
qed

theorem long_failure_never_recorded_witness:
  "\<exists>h1 gs d err res. Reconcile long_env ex_reconciler ex_req []
      = ((CtrlResult_zero, Some res), h1 @ gs @ [CallStatusUpdate d])
    \<and> kl_StatusUpdate (e_kube long_env) (h1 @ gs) d = Inl err"
proof -
  obtain h1 where "decide long_env ex_reconciler ex_req [] = (Transient ex_dc long_error, h1)"
    using long_transient by blast
  moreover have "enforces_schema (e_kube long_env)" "sets_conditions (e_kube long_env)"
    using schema_kube_enforces schema_kube_sets by (simp_all add: long_env_def schema_env_def)
  moreover have "rune_count (err_text long_error) = 40000"
    unfolding long_error_def err_text.simps by (rule rune_count_replicate) simp
  then have "message_max < rune_count (err_text long_error)"
    by (simp add: message_max_def)
  ultimately show ?thesis
    using long_failure_never_recorded by blast
qed

end
