(* ===== verification/Go_Flags.thy ===== *)
theory Go_Flags
  imports Prelude
begin

text \<open>
  The standard library's \<open>flag\<close> package as \<open>cmd/main.go\<close> uses it: flags bound to variables, and
  \<open>Parse\<close>, which consumes the command line from the left and stops at the first argument that is not
  a flag. The variables are the components of a state \<open>'c\<close>.
\<close>

text \<open>
  A flag sets a string or a boolean variable; the flags of a library are only known by whether they
  are boolean and which values they accept.
\<close>

datatype 'c flag =
    StringVar "string \<Rightarrow> 'c \<Rightarrow> 'c"
  | BoolVar "bool \<Rightarrow> 'c \<Rightarrow> 'c"
  | ForeignFlag bool "string \<Rightarrow> bool"

datatype 'c parsed =
    Parsed 'c "string list"
  | BadFlags string
  | HelpAsked

text \<open>\<open>strconv.ParseBool\<close>\<close>

definition ParseBool :: "string \<Rightarrow> bool option" where
  "ParseBool s =
     (if s \<in> {''1'', ''t'', ''T'', ''true'', ''TRUE'', ''True''} then Some True
      else if s \<in> {''0'', ''f'', ''F'', ''false'', ''FALSE'', ''False''} then Some False
      else None)"

fun is_bool_flag :: "'c flag \<Rightarrow> bool" where
  "is_bool_flag (StringVar f) = False"
| "is_bool_flag (BoolVar f) = True"
| "is_bool_flag (ForeignFlag b ok) = b"

text \<open>\<open>Value.Set\<close>: the new variables, or nothing when the value is refused.\<close>

fun set_flag :: "'c flag \<Rightarrow> string \<Rightarrow> 'c \<Rightarrow> 'c option" where
  "set_flag (StringVar f) v c = Some (f v c)"
| "set_flag (BoolVar f) v c = (case ParseBool v of None \<Rightarrow> None | Some b \<Rightarrow> Some (f b c))"
| "set_flag (ForeignFlag b ok) v c = (if ok v then Some c else None)"

text \<open>What follows the one or two dashes of an argument.\<close>

definition flag_body :: "string \<Rightarrow> string" where
  "flag_body s = (if s ! 1 = CHR ''-'' then drop 2 s else drop 1 s)"

text \<open>A name up to its first \<open>=\<close>, and the value behind it if there is one.\<close>

definition flag_name :: "string \<Rightarrow> string" where
  "flag_name b = takeWhile (\<lambda>c. c \<noteq> CHR ''='') b"

definition flag_value :: "string \<Rightarrow> string option" where
  "flag_value b = (case dropWhile (\<lambda>c. c \<noteq> CHR ''='') b of [] \<Rightarrow> None | _ # v \<Rightarrow> Some v)"

text \<open>\<open>FlagSet.Parse\<close> with \<open>parseOne\<close>: one flag, or a flag and its value, per round.\<close>

fun parse_flags :: "(string \<Rightarrow> 'c flag option) \<Rightarrow> 'c \<Rightarrow> string list \<Rightarrow> 'c parsed" where
  "parse_flags formal c [] = Parsed c []"
| "parse_flags formal c (s # args) =
     (if length s < 2 \<or> s ! 0 \<noteq> CHR ''-'' then Parsed c (s # args)
      else if s = ''--'' then Parsed c args
      else
        let b = flag_body s; name = flag_name b in
        if b = [] \<or> b ! 0 = CHR ''-'' \<or> b ! 0 = CHR ''='' then BadFlags (''bad flag syntax: '' @ s)
        else
          (case formal name of
             None \<Rightarrow>
               if name = ''help'' \<or> name = ''h'' then HelpAsked
               else BadFlags (''flag provided but not defined: -'' @ name)
           | Some fl \<Rightarrow>
               (case flag_value b of
                  Some v \<Rightarrow>
                    (case set_flag fl v c of
                       None \<Rightarrow> BadFlags (''invalid value for flag -'' @ name)
                     | Some c' \<Rightarrow> parse_flags formal c' args)
                | None \<Rightarrow>
                    if is_bool_flag fl then
                      (case set_flag fl ''true'' c of
                         None \<Rightarrow> BadFlags (''invalid boolean flag '' @ name)
                       | Some c' \<Rightarrow> parse_flags formal c' args)
                    else
                      (case args of
                         [] \<Rightarrow> BadFlags (''flag needs an argument: -'' @ name)
                       | v # args' \<Rightarrow>
                           (case set_flag fl v c of
                              None \<Rightarrow> BadFlags (''invalid value for flag -'' @ name)
                            | Some c' \<Rightarrow> parse_flags formal c' args')))))"

lemma ParseBool_true: "ParseBool ''true'' = Some True"
  by (simp add: ParseBool_def)

text \<open>An argument that names a flag: what is behind its dashes, split at the first \<open>=\<close>.\<close>

lemma flag_body_dashes:
  assumes "length s \<ge> 2" "s ! 0 = CHR ''-''"
  shows "s = CHR ''-'' # flag_body s \<or> s = CHR ''-'' # CHR ''-'' # flag_body s"
  using assms by (cases s; cases "tl s") (auto simp: flag_body_def)

lemma flag_value_None: "flag_value b = None \<Longrightarrow> b = flag_name b"
  by (auto simp: flag_value_def flag_name_def eq_commute [of b] takeWhile_eq_all_conv split: list.splits)

lemma flag_value_Some:
  assumes "flag_value b = Some v"
  shows "b = flag_name b @ CHR ''='' # v"
proof -
  obtain x where x: "dropWhile (\<lambda>c. c \<noteq> CHR ''='') b = x # v"
    using assms by (auto simp: flag_value_def split: list.splits)
  then have "x = CHR ''=''"
    using hd_dropWhile [of "\<lambda>c. c \<noteq> CHR ''=''" b] by simp
  then show ?thesis
    using takeWhile_dropWhile_id [of "\<lambda>c. c \<noteq> CHR ''=''" b] x by (simp add: flag_name_def)
qed

text \<open>
  \<open>sets s name v\<close>: the argument \<open>s\<close> sets the flag \<open>name\<close> to the text \<open>v\<close>; without a value that is the
  text \<open>true\<close>.
\<close>

definition sets :: "string \<Rightarrow> string \<Rightarrow> string \<Rightarrow> bool" where
  "sets s name v \<longleftrightarrow>
     (\<exists>d \<in> {''-'', ''--''}. s = d @ name \<and> v = ''true'' \<or> s = d @ name @ CHR ''='' # v)"

text \<open>One round of \<open>Parse\<close>: it ends, or one flag is set and fewer arguments are left.\<close>

lemma parse_flags_round:
  assumes "parse_flags formal c (s # args) = Parsed c' rest"
  obtains (stop) "c' = c"
    | (flag) name fl v c1 args1 where "formal name = Some fl" "set_flag fl v c = Some c1"
      "parse_flags formal c1 args1 = Parsed c' rest" "set args1 \<subseteq> set args" "length args1 \<le> length args"
      "is_bool_flag fl \<Longrightarrow> sets s name v"
proof (cases "length s < 2 \<or> s ! 0 \<noteq> CHR ''-'' \<or> s = ''--''")
  case True
  then show ?thesis
    using assms stop by (auto split: if_splits)
next
  case False
  let ?b = "flag_body s"
  have dashes: "s = ''-'' @ ?b \<or> s = ''--'' @ ?b"
    using flag_body_dashes [of s] False by auto
  obtain fl where fl: "formal (flag_name ?b) = Some fl"
    using assms False by (auto simp: Let_def split: option.splits if_splits)
  show ?thesis
  proof (cases "flag_value ?b")
    case (Some v)
    then obtain c1 where "set_flag fl v c = Some c1" "parse_flags formal c1 args = Parsed c' rest"
      using assms False fl by (auto simp: Let_def split: option.splits if_splits)
    moreover have "sets s (flag_name ?b) v"
      using dashes flag_value_Some [OF Some] unfolding sets_def by force
    ultimately show ?thesis
      using flag [OF fl] by blast
  next
    case None
    show ?thesis
    proof (cases "is_bool_flag fl")
      case True
      then obtain c1 where "set_flag fl ''true'' c = Some c1" "parse_flags formal c1 args = Parsed c' rest"
        using assms False fl None by (auto simp: Let_def split: option.splits if_splits)
      moreover have "sets s (flag_name ?b) ''true''"
        using dashes flag_value_None [OF None] unfolding sets_def by force
      ultimately show ?thesis
        using flag [OF fl] by blast
    next
      case b: False
      then obtain v args1 c1 where "args = v # args1" "set_flag fl v c = Some c1"
          "parse_flags formal c1 args1 = Parsed c' rest"
        using assms False fl None by (auto simp: Let_def split: option.splits if_splits list.splits)
      then show ?thesis
        using flag [OF fl, of v c1 args1] b by auto
    qed
  qed
qed

text \<open>A variable that no other flag touches changes only when an argument says so.\<close>

lemma parse_flags_bool_var:
  fixes get :: "'c \<Rightarrow> bool"
  assumes "formal n = Some (BoolVar upd)" "\<And>v c. get (upd v c) = v"
    and others: "\<And>m fl v c c'. formal m = Some fl \<Longrightarrow> m \<noteq> n \<Longrightarrow> set_flag fl v c = Some c' \<Longrightarrow> get c' = get c"
    and "parse_flags formal c args = Parsed c' rest" "get c' \<noteq> get c"
  shows "\<exists>s \<in> set args. \<exists>v. sets s n v \<and> ParseBool v = Some (get c')"
  using assms(4,5)
proof (induction args arbitrary: c rule: length_induct)
  case (1 args)
  then obtain s as where args: "args = s # as"
    by (cases args) auto
  from 1(2) [unfolded args] show ?case
  proof (cases rule: parse_flags_round)
    case stop
    then show ?thesis
      using 1(3) by simp
  next
    case (flag m fl v c1 as1)
    show ?thesis
    proof (cases "get c1 = get c'")
      case True
      then have "get c1 \<noteq> get c"
        using 1(3) by simp
      then have "m = n"
        using others flag(1,2) by blast
      then have fl: "fl = BoolVar upd"
        using flag(1) assms(1) by simp
      then have "ParseBool v = Some (get c1)"
        using flag(2) assms(2) by (auto split: option.splits)
      then show ?thesis
        using flag(6) fl True \<open>m = n\<close> args by auto
    next
      case False
      have "\<exists>s \<in> set as1. \<exists>v. sets s n v \<and> ParseBool v = Some (get c')"
        using 1(1) flag(3,5) False args by (metis le_imp_less_Suc length_Cons)
      then show ?thesis
        using flag(4) args by auto
    qed
  qed
qed

end
