(* ===== verification/Manager.thy ===== *)
theory Manager
  imports Controller_Loop Go_Flags
begin

text \<open>
  The process: \<open>cmd/main.go\<close> with the API group of \<open>api/v1alpha1/groupversion_info.go\<close> and the registration
  of the gauges in \<open>internal/metrics/metrics.go\<close>. The controller runtime and the cluster client are a
  record of parameters; a run of \<open>main\<close> yields the calls it makes to them and how it ends.
\<close>

subsection \<open>The scheme\<close>

record GroupVersion =
  gv_group :: string
  gv_version :: string

definition GroupVersion_v1alpha1 :: GroupVersion where
  "GroupVersion_v1alpha1 = \<lparr>gv_group = ''drift.somaz.io'', gv_version = ''v1alpha1''\<rparr>"

text \<open>\<open>scheme.Builder\<close>: a group version and the kinds registered with it, in order.\<close>

record SchemeBuilder =
  sb_GroupVersion :: GroupVersion
  sb_kinds :: "string list"

definition SchemeBuilder_new :: SchemeBuilder where
  "SchemeBuilder_new = \<lparr>sb_GroupVersion = GroupVersion_v1alpha1, sb_kinds = []\<rparr>"

text \<open>The \<open>init\<close> function of \<open>types.go\<close>.\<close>

definition types_init :: "SchemeBuilder \<Rightarrow> SchemeBuilder" where
  "types_init b = b\<lparr>sb_kinds := sb_kinds b @ [''DriftCheck'', ''DriftCheckList'']\<rparr>"

text \<open>A scheme: the kinds it knows, each with its group version.\<close>

type_synonym scheme = "(GroupVersion \<times> string) list"

subsection \<open>The gauges\<close>

record gauge_opts =
  go_Name :: string
  go_Help :: string

definition driftedResources :: "gauge_opts \<times> string list" where
  "driftedResources =
     (\<lparr>go_Name = ''kube_drift_resources'',
       go_Help = ''Number of resources per drift status for a DriftCheck (changed, new, deleted, unchanged).''\<rparr>,
      gauge_label_names)"

subsection \<open>Settings\<close>

record settings =
  metricsAddr :: string
  probeAddr :: string
  enableLeaderElection :: bool
  secureMetrics :: bool
  enableHTTP2 :: bool

definition default_settings :: settings where
  "default_settings =
     \<lparr>metricsAddr = '':8443'', probeAddr = '':8081'', enableLeaderElection = False,
      secureMetrics = True, enableHTTP2 = False\<rparr>"

definition program_flags :: "string \<Rightarrow> settings flag option" where
  "program_flags = map_of
     [(''metrics-bind-address'', StringVar (\<lambda>v c. c\<lparr>metricsAddr := v\<rparr>)),
      (''health-probe-bind-address'', StringVar (\<lambda>v c. c\<lparr>probeAddr := v\<rparr>)),
      (''leader-elect'', BoolVar (\<lambda>v c. c\<lparr>enableLeaderElection := v\<rparr>)),
      (''metrics-secure'', BoolVar (\<lambda>v c. c\<lparr>secureMetrics := v\<rparr>)),
      (''enable-http2'', BoolVar (\<lambda>v c. c\<lparr>enableHTTP2 := v\<rparr>))]"

text \<open>
  The flags of the command line: the program's own, and those that libraries define (\<open>zap\<close>, the
  kubeconfig), given by whether they are boolean and which values they accept.
\<close>

definition formal_flags :: "(string \<Rightarrow> (bool \<times> (string \<Rightarrow> bool)) option) \<Rightarrow> string \<Rightarrow> settings flag option" where
  "formal_flags lib name =
     (case program_flags name of
        Some f \<Rightarrow> Some f
      | None \<Rightarrow> map_option (\<lambda>(b, ok). ForeignFlag b ok) (lib name))"

subsection \<open>Options of the manager\<close>

record tls_config =
  NextProtos :: "string list"

datatype filter_provider =
    WithAuthenticationAndAuthorization

record metrics_options =
  BindAddress :: string
  SecureServing :: bool
  TLSOpts :: "(tls_config \<Rightarrow> tls_config) list"
  FilterProvider :: "filter_provider option"

record manager_options =
  opt_Scheme :: scheme
  opt_Metrics :: metrics_options
  opt_HealthProbeBindAddress :: string
  opt_LeaderElection :: bool
  opt_LeaderElectionID :: string
  opt_Client_Cache_DisableFor :: "(string \<times> string) list"

definition tls_options :: "settings \<Rightarrow> (tls_config \<Rightarrow> tls_config) list" where
  "tls_options c =
     (let opts = [] in
      if \<not> enableHTTP2 c then opts @ [\<lambda>t. t\<lparr>NextProtos := [''http/1.1'']\<rparr>] else opts)"

definition metrics_server_options :: "settings \<Rightarrow> metrics_options" where
  "metrics_server_options c =
     (let o1 = \<lparr>BindAddress = metricsAddr c, SecureServing = secureMetrics c, TLSOpts = tls_options c,
                FilterProvider = None\<rparr> in
      if secureMetrics c then o1\<lparr>FilterProvider := Some WithAuthenticationAndAuthorization\<rparr> else o1)"

text \<open>The options for the client are left at their zero values.\<close>

definition options_of :: "settings \<Rightarrow> scheme \<Rightarrow> manager_options" where
  "options_of c sch =
     \<lparr>opt_Scheme = sch, opt_Metrics = metrics_server_options c,
      opt_HealthProbeBindAddress = probeAddr c, opt_LeaderElection = enableLeaderElection c,
      opt_LeaderElectionID = ''kube-drift.somaz.io'', opt_Client_Cache_DisableFor = []\<rparr>"

text \<open>The TLS configuration of the metrics server: the options are applied in turn.\<close>

definition served_tls :: "metrics_options \<Rightarrow> tls_config \<Rightarrow> tls_config" where
  "served_tls o1 t = fold (\<lambda>f. f) (TLSOpts o1) t"

subsection \<open>The manager\<close>

text \<open>A REST configuration and a manager are opaque handles.\<close>

record 'm manager_lib =
  ml_flags :: "string \<Rightarrow> (bool \<times> (string \<Rightarrow> bool)) option"
  ml_MustRegister :: "gauge_opts \<times> string list \<Rightarrow> error + unit"
  ml_clientgo_AddToScheme :: "scheme \<Rightarrow> error + scheme"
  ml_Builder_AddToScheme :: "SchemeBuilder \<Rightarrow> scheme \<Rightarrow> error + scheme"
  ml_GetConfig :: "error + string"
  ml_NewManager :: "string \<Rightarrow> manager_options \<Rightarrow> error + 'm"
  ml_mgr_GetConfig :: "'m \<Rightarrow> string"
  ml_NewFetcherFromConfig :: "string \<Rightarrow> error + fetcher"
  ml_Complete :: "'m \<Rightarrow> controller_spec \<Rightarrow> Reconciler \<Rightarrow> error + unit"
  ml_AddHealthzCheck :: "'m \<Rightarrow> string \<Rightarrow> error + unit"
  ml_AddReadyzCheck :: "'m \<Rightarrow> string \<Rightarrow> error + unit"
  ml_Start :: "'m \<Rightarrow> error + unit"

datatype main_call =
    MNewManager manager_options
  | MNewFetcher string
  | MComplete controller_spec Reconciler
  | MAddHealthz string
  | MAddReadyz string
  | MStart

text \<open>\<open>main\<close> returns, calls \<open>os.Exit\<close>, or \<open>init\<close> panicked before it.\<close>

datatype ending =
    MainReturned
  | Exit nat
  | InitPanic error

text \<open>\<open>x, err := c; if err != nil { os.Exit (1) }\<close>\<close>

definition stage :: "main_call \<Rightarrow> error + 'a \<Rightarrow> ('a \<Rightarrow> main_call list \<times> ending) \<Rightarrow> main_call list \<times> ending" where
  "stage c res k =
     (case res of
        Inl err \<Rightarrow> ([c], Exit 1)
      | Inr x \<Rightarrow> (case k x of (cs, e) \<Rightarrow> (c # cs, e)))"

definition reconciler_of :: "env \<Rightarrow> fetcher \<Rightarrow> Reconciler" where
  "reconciler_of E fetcher =
     \<lparr>r_Fetcher = Some fetcher, r_Metrics = NewRecorder, r_GitCloner = None,
      r_Notifier = Some (Sender_Send (e_http E) NewSender), r_Recorder = Some ()\<rparr>"

text \<open>The \<open>init\<close> function of \<open>metrics.go\<close>; \<open>MustRegister\<close> panics on an error.\<close>

definition metrics_init :: "'m manager_lib \<Rightarrow> error + unit" where
  "metrics_init ml = ml_MustRegister ml driftedResources"

definition AddToScheme :: "'m manager_lib \<Rightarrow> scheme \<Rightarrow> error + scheme" where
  "AddToScheme ml = ml_Builder_AddToScheme ml (types_init SchemeBuilder_new)"

text \<open>The \<open>init\<close> function of \<open>main.go\<close>; \<open>Must\<close> panics on an error.\<close>

definition main_scheme :: "'m manager_lib \<Rightarrow> error + scheme" where
  "main_scheme ml =
     (case ml_clientgo_AddToScheme ml [] of
        Inl err \<Rightarrow> Inl err
      | Inr sch \<Rightarrow> AddToScheme ml sch)"

definition run_manager :: "env \<Rightarrow> 'm manager_lib \<Rightarrow> settings \<Rightarrow> scheme \<Rightarrow> main_call list \<times> ending" where
  "run_manager E ml c sch =
     (let options = options_of c sch in
      case ml_GetConfig ml of
        Inl err \<Rightarrow> ([], Exit 1)
      | Inr cfg \<Rightarrow>
          stage (MNewManager options) (ml_NewManager ml cfg options) (\<lambda>mgr.
          stage (MNewFetcher (ml_mgr_GetConfig ml mgr)) (ml_NewFetcherFromConfig ml (ml_mgr_GetConfig ml mgr)) (\<lambda>fetcher.
          stage (MComplete SetupWithManager (reconciler_of E fetcher))
            (ml_Complete ml mgr SetupWithManager (reconciler_of E fetcher)) (\<lambda>_.
          stage (MAddHealthz ''healthz'') (ml_AddHealthzCheck ml mgr ''healthz'') (\<lambda>_.
          stage (MAddReadyz ''readyz'') (ml_AddReadyzCheck ml mgr ''readyz'') (\<lambda>_.
          stage MStart (ml_Start ml mgr) (\<lambda>_. ([], MainReturned))))))))"

text \<open>
  The process with the arguments \<open>args\<close>: the packages are initialised, imported ones first; then the
  command line (\<open>-h\<close> exits with 0,
  an error in it with 2), and the manager.
\<close>

definition initialise :: "'m manager_lib \<Rightarrow> error + scheme" where
  "initialise ml =
     (case metrics_init ml of
        Inl err \<Rightarrow> Inl err
      | Inr _ \<Rightarrow> main_scheme ml)"

definition process :: "env \<Rightarrow> 'm manager_lib \<Rightarrow> string list \<Rightarrow> main_call list \<times> ending" where
  "process E ml args =
     (case initialise ml of
        Inl err \<Rightarrow> ([], InitPanic err)
      | Inr sch \<Rightarrow>
          (case parse_flags (formal_flags (ml_flags ml)) default_settings args of
             HelpAsked \<Rightarrow> ([], Exit 0)
           | BadFlags msg \<Rightarrow> ([], Exit 2)
           | Parsed c rest \<Rightarrow> run_manager E ml c sch))"

subsection \<open>The metrics endpoint\<close>

lemma program_flags_simps:
  "program_flags ''metrics-secure'' = Some (BoolVar (\<lambda>v c. c\<lparr>secureMetrics := v\<rparr>))"
  "program_flags ''enable-http2'' = Some (BoolVar (\<lambda>v c. c\<lparr>enableHTTP2 := v\<rparr>))"
  by (simp_all add: program_flags_def)

lemma program_flags_cases:
  assumes "formal_flags lib m = Some fl" "set_flag fl v c = Some c'"
  shows "m \<noteq> ''metrics-secure'' \<Longrightarrow> secureMetrics c' = secureMetrics c"
    and "m \<noteq> ''enable-http2'' \<Longrightarrow> enableHTTP2 c' = enableHTTP2 c"
  using assms by (auto simp: formal_flags_def program_flags_def split: if_splits option.splits)

lemma parsed_secure:
  assumes "parse_flags (formal_flags lib) default_settings args = Parsed c rest" "\<not> secureMetrics c"
  shows "\<exists>s \<in> set args. \<exists>v. sets s ''metrics-secure'' v \<and> ParseBool v = Some False"
  using parse_flags_bool_var [where get = secureMetrics and n = "''metrics-secure''"
      and formal = "formal_flags lib" and upd = "\<lambda>v c. c\<lparr>secureMetrics := v\<rparr>", OF _ _ _ assms(1)]
    program_flags_cases(1) [of lib] assms(2)
  by (simp add: formal_flags_def program_flags_simps default_settings_def)

lemma parsed_http2:
  assumes "parse_flags (formal_flags lib) default_settings args = Parsed c rest" "enableHTTP2 c"
  shows "\<exists>s \<in> set args. \<exists>v. sets s ''enable-http2'' v \<and> ParseBool v = Some True"
  using parse_flags_bool_var [where get = enableHTTP2 and n = "''enable-http2''"
      and formal = "formal_flags lib" and upd = "\<lambda>v c. c\<lparr>enableHTTP2 := v\<rparr>", OF _ _ _ assms(1)]
    program_flags_cases(2) [of lib] assms(2)
  by (simp add: formal_flags_def program_flags_simps default_settings_def)

text \<open>Every call of the process comes from the manager's stages, with the settings that were parsed.\<close>

lemma process_calls:
  assumes "c \<in> set (fst (process E ml args))"
  obtains cfg rest sch where "initialise ml = Inr sch"
    "parse_flags (formal_flags (ml_flags ml)) default_settings args = Parsed cfg rest"
    "c \<in> set (fst (run_manager E ml cfg sch))"
  using assms by (auto simp: process_def split: sum.splits parsed.splits)

lemma stage_calls: "c \<in> set (fst (stage c0 res k)) \<longleftrightarrow> c = c0 \<or> (\<exists>x. res = Inr x \<and> c \<in> set (fst (k x)))"
  by (auto simp: stage_def split: sum.split prod.split)

lemma run_manager_options:
  "MNewManager o1 \<in> set (fst (run_manager E ml cfg sch)) \<Longrightarrow> o1 = options_of cfg sch"
  by (auto simp: run_manager_def stage_calls Let_def split: sum.splits)

lemma run_manager_reconciler:
  "MComplete spec r \<in> set (fst (run_manager E ml cfg sch)) \<Longrightarrow>
   spec = SetupWithManager \<and> (\<exists>config f. ml_NewFetcherFromConfig ml config = Inr f \<and> r = reconciler_of E f)"
  by (auto simp: run_manager_def stage_calls Let_def split: sum.splits)

text \<open>
  C25: The metrics endpoint is protected unless the command line says otherwise. Whatever the arguments
  are, a manager that serves metrics without authentication and authorization was given
  \<open>metrics-secure\<close> with a false value, and one that speaks HTTP/2 was given \<open>enable-http2\<close>.
\<close>
theorem metrics_secure_by_default:
  assumes "MNewManager o1 \<in> set (fst (process E ml args))"
  shows "(SecureServing (opt_Metrics o1) \<and> FilterProvider (opt_Metrics o1) = Some WithAuthenticationAndAuthorization
          \<or> (\<exists>s \<in> set args. \<exists>v. sets s ''metrics-secure'' v \<and> ParseBool v = Some False))
    \<and> ((\<forall>t. NextProtos (served_tls (opt_Metrics o1) t) = [''http/1.1''])
          \<or> (\<exists>s \<in> set args. \<exists>v. sets s ''enable-http2'' v \<and> ParseBool v = Some True))"
proof -
  obtain cfg rest sch where p: "parse_flags (formal_flags (ml_flags ml)) default_settings args = Parsed cfg rest"
    and "o1 = options_of cfg sch"
    using assms run_manager_options by (elim process_calls) blast
  then have "opt_Metrics o1 = metrics_server_options cfg"
    by (simp add: options_of_def)
  then show ?thesis
    using parsed_secure [OF p] parsed_http2 [OF p]
    by (auto simp: metrics_server_options_def served_tls_def tls_options_def Let_def)
qed

subsection \<open>The reconciler that is registered\<close>

lemma reconciler_of_wiring:
  assumes "engine_ok E" "\<And>a k ns n. adds_only source_call (f a k ns n)"
  shows "wiring_ok E (reconciler_of E f)"
proof -
  have "notifier (Sender_Send (e_http E) NewSender)"
    by (rule http_sender.notifier_axioms)
  then show ?thesis
    using assms by (simp add: wiring_ok_def reconciler_of_def notifier_ok_def fetcher_ok_def clone_ok_def)
qed

text \<open>
  C27: The process wires its reconciler completely. What it registers is set up with the watch of
  \<open>SetupWithManager\<close>, meets the contract every property of a run relies on, records metrics, and has a
  fetcher, so that no DriftCheck ever fails with \<open>NoFetcher\<close>.
\<close>
theorem main_wires_reconciler:
  assumes "MComplete spec r \<in> set (fst (process E ml args))" "engine_ok E"
    and "\<forall>config f. ml_NewFetcherFromConfig ml config = Inr f \<longrightarrow>
      (\<forall>a k ns n. adds_only source_call (f a k ns n))"
  shows "spec = SetupWithManager \<and> wiring_ok E r \<and> r_Metrics r \<noteq> None
    \<and> (\<forall>req h dc reason cause h1. decide E r req h = (Permanent dc reason cause, h1) \<longrightarrow>
         reason \<noteq> ''NoFetcher'')"
proof -
  obtain config f where f: "ml_NewFetcherFromConfig ml config = Inr f" "r = reconciler_of E f"
      "spec = SetupWithManager"
    using assms(1) run_manager_reconciler by (elim process_calls) blast
  have "reason \<noteq> ''NoFetcher''" if "decide E r req h = (Permanent dc reason cause, h1)" for req h dc reason cause h1
  proof (cases "kl_GetDriftCheck (e_kube E) h req")
    case (Inl e)
    then show ?thesis
      using that by (auto simp: decide_def client_GetDriftCheck_def outside_def split: if_splits)
  next
    case (Inr d)
    then have "evaluate E r d (h @ [CallGetDriftCheck req]) = (Permanent dc reason cause, h1)"
      using that by (simp add: decide_evaluate)
    then show ?thesis
    proof (cases rule: evaluate_cases)
      case no_fetcher
      then show ?thesis
        by (simp add: f(2) reconciler_of_def)
    next
      case (ran run)
      then show ?thesis
        by (cases rule: verdict_of_run_cases [where run = run and k = "e_kube E" and dc = d]) simp_all
    qed simp_all
  qed
  moreover have "wiring_ok E r"
    using reconciler_of_wiring [OF assms(2)] assms(3) f by blast
  ultimately show ?thesis
    using f by (auto simp: reconciler_of_def NewRecorder_def)
qed

subsection \<open>The stages in order\<close>

text \<open>
  What the process sets out to do once it is configured, and whether a call of it succeeds. The
  manager and the fetcher in later calls are those that the earlier ones return.
\<close>

definition the_manager :: "'m manager_lib \<Rightarrow> settings \<Rightarrow> scheme \<Rightarrow> 'm" where
  "the_manager ml c sch = projr (ml_NewManager ml (projr (ml_GetConfig ml)) (options_of c sch))"

definition main_plan :: "env \<Rightarrow> 'm manager_lib \<Rightarrow> settings \<Rightarrow> scheme \<Rightarrow> main_call list" where
  "main_plan E ml c sch =
     (let config = ml_mgr_GetConfig ml (the_manager ml c sch) in
      [MNewManager (options_of c sch), MNewFetcher config,
       MComplete SetupWithManager (reconciler_of E (projr (ml_NewFetcherFromConfig ml config))),
       MAddHealthz ''healthz'', MAddReadyz ''readyz'', MStart])"

fun succeeds :: "'m manager_lib \<Rightarrow> 'm \<Rightarrow> main_call \<Rightarrow> bool" where
  "succeeds ml mgr (MNewManager opts) \<longleftrightarrow> \<not> isl (ml_NewManager ml (projr (ml_GetConfig ml)) opts)"
| "succeeds ml mgr (MNewFetcher config) \<longleftrightarrow> \<not> isl (ml_NewFetcherFromConfig ml config)"
| "succeeds ml mgr (MComplete spec r) \<longleftrightarrow> \<not> isl (ml_Complete ml mgr spec r)"
| "succeeds ml mgr (MAddHealthz n) \<longleftrightarrow> \<not> isl (ml_AddHealthzCheck ml mgr n)"
| "succeeds ml mgr (MAddReadyz n) \<longleftrightarrow> \<not> isl (ml_AddReadyzCheck ml mgr n)"
| "succeeds ml mgr MStart \<longleftrightarrow> \<not> isl (ml_Start ml mgr)"

lemma run_manager_stages:
  assumes "ml_GetConfig ml = Inr config"
  shows "run_manager E ml c sch =
    (let ok = succeeds ml (the_manager ml c sch); p = main_plan E ml c sch in
     (take (Suc (length (takeWhile ok p))) p, if list_all ok p then MainReturned else Exit 1))"
  using assms
  by (simp add: run_manager_def main_plan_def the_manager_def stage_def Let_def isl_def split: sum.split)

lemma take_while_all:
  assumes "xs \<noteq> []"
  shows "\<exists>rest. xs = take (Suc (length (takeWhile P xs))) xs @ rest"
    "list_all P (butlast (take (Suc (length (takeWhile P xs))) xs))"
    "P (last (take (Suc (length (takeWhile P xs))) xs)) \<longleftrightarrow> list_all P xs"
    "list_all P xs \<Longrightarrow> take (Suc (length (takeWhile P xs))) xs = xs"
proof -
  show "\<exists>rest. xs = take (Suc (length (takeWhile P xs))) xs @ rest"
    by (metis append_take_drop_id)
  show "list_all P (butlast (take (Suc (length (takeWhile P xs))) xs))"
    "P (last (take (Suc (length (takeWhile P xs))) xs)) \<longleftrightarrow> list_all P xs"
    using assms by (induction xs) (auto simp: list_all_iff)
  assume "list_all P xs"
  then have all: "takeWhile P xs = xs"
    by (simp add: list_all_iff)
  show "take (Suc (length (takeWhile P xs))) xs = xs"
    unfolding all by simp
qed

text \<open>
  C39: The process goes through its stages in order and stops at the first failure. If it makes any call
  at all, then packages, command line and cluster configuration were in order; its calls are a
  beginning of the plan: manager, fetcher, controller, health check, readiness check, start; every call
  but the last succeeded; and either the last one succeeded as well, then it is the end of the plan
  and \<open>main\<close> returns, or it failed, and the process exits with 1.
\<close>
theorem process_stages:
  assumes "process E ml args = (cs, e)" "cs \<noteq> []"
  shows "\<exists>c rest sch tl. initialise ml = Inr sch
    \<and> parse_flags (formal_flags (ml_flags ml)) default_settings args = Parsed c rest
    \<and> \<not> isl (ml_GetConfig ml) \<and> main_plan E ml c sch = cs @ tl
    \<and> list_all (succeeds ml (the_manager ml c sch)) (butlast cs)
    \<and> (if succeeds ml (the_manager ml c sch) (last cs) then tl = [] \<and> e = MainReturned else e = Exit 1)"
proof -
  obtain c rest sch where p: "initialise ml = Inr sch"
      "parse_flags (formal_flags (ml_flags ml)) default_settings args = Parsed c rest"
      "run_manager E ml c sch = (cs, e)"
    using assms by (auto simp: process_def split: sum.splits parsed.splits)
  obtain config where config: "ml_GetConfig ml = Inr config"
    using p(3) assms(2) by (cases "ml_GetConfig ml") (simp_all add: run_manager_def Let_def)
  let ?p = "main_plan E ml c sch" and ?ok = "succeeds ml (the_manager ml c sch)"
  have "?p \<noteq> []"
    by (simp add: main_plan_def Let_def)
  note w = take_while_all [OF this, of ?ok]
  have run: "cs = take (Suc (length (takeWhile ?ok ?p))) ?p" "e = (if list_all ?ok ?p then MainReturned else Exit 1)"
    using p(3) unfolding run_manager_stages [OF config] Let_def by simp_all
  obtain tl where tl: "?p = cs @ tl"
    using w(1) unfolding run(1) [symmetric] by blast
  have ok: "list_all ?ok (butlast cs)" "?ok (last cs) \<longleftrightarrow> list_all ?ok ?p"
    unfolding run(1) by (rule w(2), rule w(3))
  have "tl = []" if "list_all ?ok ?p"
    using w(4) [OF that] tl unfolding run(1) by (metis append_self_conv)
  then have "if ?ok (last cs) then tl = [] \<and> e = MainReturned else e = Exit 1"
    using run(2) ok(2) by simp
  with p(1,2) config tl ok(1) show ?thesis
    by (intro exI [of _ c] exI [of _ rest] exI [of _ sch] exI [of _ tl] conjI) simp_all
qed

text \<open>Before the first call, only a panic, the command line or the cluster configuration ends the process.\<close>

lemma process_without_calls:
  assumes "process E ml args = ([], e)"
  shows "(\<exists>err. initialise ml = Inl err \<and> e = InitPanic err)
    \<or> e = Exit 0 \<and> parse_flags (formal_flags (ml_flags ml)) default_settings args = HelpAsked
    \<or> e = Exit 2 \<and> (\<exists>msg. parse_flags (formal_flags (ml_flags ml)) default_settings args = BadFlags msg)
    \<or> e = Exit 1 \<and> isl (ml_GetConfig ml)"
  using assms
  by (auto simp: process_def run_manager_def stage_def Let_def split: sum.splits parsed.splits prod.splits)

subsection \<open>An instance\<close>

definition ex_manager :: "nat manager_lib" where
  "ex_manager =
     \<lparr>ml_flags = (\<lambda>n. if n = ''zap-devel'' then Some (True, \<lambda>v. case ParseBool v of None \<Rightarrow> False | Some b \<Rightarrow> True) else None),
      ml_MustRegister = (\<lambda>g. Inr ()), ml_clientgo_AddToScheme = (\<lambda>s. Inr s),
      ml_Builder_AddToScheme = (\<lambda>b s. Inr (s @ map (\<lambda>k. (sb_GroupVersion b, k)) (sb_kinds b))),
      ml_GetConfig = Inr ''in-cluster'', ml_NewManager = (\<lambda>c o1. Inr 1), ml_mgr_GetConfig = (\<lambda>m. ''in-cluster''),
      ml_NewFetcherFromConfig = (\<lambda>c. Inr (\<lambda>a k ns n. give VNil)),
      ml_Complete = (\<lambda>m s r. Inr ()), ml_AddHealthzCheck = (\<lambda>m n. Inr ()),
      ml_AddReadyzCheck = (\<lambda>m n. Inr ()), ml_Start = (\<lambda>m. Inr ())\<rparr>"

abbreviation ex_scheme :: scheme where
  "ex_scheme \<equiv> map (\<lambda>k. (GroupVersion_v1alpha1, k)) [''DriftCheck'', ''DriftCheckList'']"

lemma ex_main_scheme: "main_scheme ex_manager = Inr ex_scheme"
  by (simp add: main_scheme_def AddToScheme_def ex_manager_def types_init_def SchemeBuilder_new_def)

lemma ex_initialise: "initialise ex_manager = Inr ex_scheme"
  unfolding initialise_def ex_main_scheme by (simp add: metrics_init_def ex_manager_def)

lemma ex_process:
  assumes "parse_flags (formal_flags (ml_flags ex_manager)) default_settings args = Parsed cfg rest"
  shows "fst (process E ex_manager args)
      = [MNewManager (options_of cfg ex_scheme), MNewFetcher ''in-cluster'',
         MComplete SetupWithManager (reconciler_of E (\<lambda>a k ns n. give VNil)),
         MAddHealthz ''healthz'', MAddReadyz ''readyz'', MStart]"
  unfolding process_def ex_initialise
  by (simp add: assms run_manager_def stage_def Let_def) (simp add: ex_manager_def stage_def)

theorem metrics_secure_by_default_witness:
  "\<exists>s \<in> set [''--zap-devel'', ''-metrics-secure=f'']. \<exists>v. sets s ''metrics-secure'' v \<and> ParseBool v = Some False"
proof -
  have "parse_flags (formal_flags (ml_flags ex_manager)) default_settings
      [''--zap-devel'', ''-metrics-secure=f''] = Parsed (default_settings\<lparr>secureMetrics := False\<rparr>) []"
    by (simp add: formal_flags_def program_flags_def ex_manager_def flag_body_def flag_name_def
        flag_value_def ParseBool_def)
  note run = ex_process [OF this]
  let ?o = "options_of (default_settings\<lparr>secureMetrics := False\<rparr>) ex_scheme"
  have "MNewManager ?o \<in> set (fst (process ex_env ex_manager [''--zap-devel'', ''-metrics-secure=f'']))"
    unfolding run by simp
  moreover have "\<not> SecureServing (opt_Metrics ?o)"
    by (simp add: options_of_def metrics_server_options_def Let_def)
  ultimately show ?thesis
    using metrics_secure_by_default [of ?o ex_env ex_manager] by blast
qed

theorem main_wires_reconciler_witness:
  "\<exists>spec r. spec = SetupWithManager \<and> wiring_ok ex_env r \<and> r_Metrics r \<noteq> None"
proof -
  have "parse_flags (formal_flags (ml_flags ex_manager)) default_settings [] = Parsed default_settings []"
    by simp
  from ex_process [OF this]
  have "MComplete SetupWithManager (reconciler_of ex_env (\<lambda>a k ns n. give VNil))
      \<in> set (fst (process ex_env ex_manager []))"
    by simp
  moreover have "engine_ok ex_env"
    using ex_wiring by (simp add: wiring_ok_def)
  moreover have "\<forall>config f. ml_NewFetcherFromConfig ex_manager config = Inr f \<longrightarrow>
      (\<forall>a k ns n. adds_only source_call (f a k ns n))"
    by (auto simp: ex_manager_def intro!: quiet)
  ultimately have "wiring_ok ex_env (reconciler_of ex_env (\<lambda>a k ns n. give VNil))
      \<and> r_Metrics (reconciler_of ex_env (\<lambda>a k ns n. give VNil)) \<noteq> None"
    by (rule main_wires_reconciler [THEN conjunct2, THEN conj_assoc [THEN iffD2], THEN conjunct1])
  then show ?thesis
    by blast
qed

text \<open>A readiness check that cannot be added: the manager is never started.\<close>

definition ex_unready :: "nat manager_lib" where
  "ex_unready = ex_manager\<lparr>ml_AddReadyzCheck := \<lambda>m n. Inl (LibErr ''duplicate'')\<rparr>"

theorem process_stages_witness:
  "\<exists>cs. process ex_env ex_unready [] = (cs, Exit 1) \<and> last cs = MAddReadyz ''readyz'' \<and> MStart \<notin> set cs"
proof -
  obtain cs e where p: "process ex_env ex_unready [] = (cs, e)"
    by fastforce
  have i: "initialise ex_unready = Inr ex_scheme"
    by (simp add: initialise_def main_scheme_def AddToScheme_def metrics_init_def ex_unready_def
        ex_manager_def types_init_def SchemeBuilder_new_def)
  have "process ex_env ex_unready [] = run_manager ex_env ex_unready default_settings ex_scheme"
    using i by (simp add: process_def)
  then have cs: "cs \<noteq> []" "last cs = MAddReadyz ''readyz''" "MStart \<notin> set cs"
    using p by (auto simp: run_manager_def stage_def Let_def ex_unready_def ex_manager_def)
  obtain c sch where "if succeeds ex_unready (the_manager ex_unready c sch) (last cs)
      then e = MainReturned else e = Exit 1"
    using process_stages [OF p cs(1)] by (auto split: if_splits)
  then have "e = Exit 1"
    using cs(2) by (simp add: ex_unready_def)
  then show ?thesis
    using p cs by blast
qed

end
