(* ===== verification/Access_Control.thy ===== *)
theory Access_Control
  imports Manager Admission
begin

text \<open>
  Whether the process may make the calls it makes: the role that the markers above \<open>Reconcile\<close> generate
  (\<open>config/rbac/role.yaml\<close>, and the same rules in the Helm chart), against the requests that the client
  of the manager sends for the calls of a run. Live objects are read by kube-diff's fetcher with a
  client of its own, for which the comment on \<open>Reconcile\<close> asks for further rights.
\<close>

subsection \<open>The role\<close>

record PolicyRule =
  pol_apiGroups :: "string list"
  pol_resources :: "string list"
  pol_verbs :: "string list"

abbreviation drift_group :: string where
  "drift_group \<equiv> ''drift.somaz.io''"

definition manager_role :: "PolicyRule list" where
  "manager_role =
     [\<lparr>pol_apiGroups = [drift_group], pol_resources = [''driftchecks''],
       pol_verbs = [''get'', ''list'', ''watch'', ''create'', ''update'', ''patch'', ''delete'']\<rparr>,
      \<lparr>pol_apiGroups = [drift_group], pol_resources = [''driftchecks/status''],
       pol_verbs = [''get'', ''update'', ''patch'']\<rparr>,
      \<lparr>pol_apiGroups = [drift_group], pol_resources = [''driftchecks/finalizers''],
       pol_verbs = [''update'']\<rparr>,
      \<lparr>pol_apiGroups = [''''], pol_resources = [''configmaps''],
       pol_verbs = [''get'', ''list'', ''watch'']\<rparr>,
      \<lparr>pol_apiGroups = [''''], pol_resources = [''secrets''], pol_verbs = [''get'']\<rparr>,
      \<lparr>pol_apiGroups = [''''], pol_resources = [''events''], pol_verbs = [''create'', ''patch'']\<rparr>]"

record api_request =
  rq_group :: string
  rq_resource :: string
  rq_verb :: string

text \<open>A role covers a request if one rule has its group, its resource and its verb.\<close>

definition covers :: "PolicyRule list \<Rightarrow> api_request \<Rightarrow> bool" where
  "covers rules q \<longleftrightarrow>
     list_ex (\<lambda>p. rq_group q \<in> set (pol_apiGroups p) \<and> rq_resource q \<in> set (pol_resources p)
                \<and> rq_verb q \<in> set (pol_verbs p)) rules"

subsection \<open>The requests of the client\<close>

text \<open>
  Which requests a call becomes is up to the controller runtime, a parameter \<open>reqs\<close>. It documents that
  \<open>Get\<close> on a kind is answered from a cache that lists and watches the kind, unless
  \<open>Client.Cache.DisableFor\<close> names it; then it is a live \<open>get\<close>. Writes are always live. The event
  recorder creates events and patches repeated ones. Other calls do not go through the client.
\<close>

definition request :: "string \<Rightarrow> string \<Rightarrow> string \<Rightarrow> api_request" where
  "request g res verb = \<lparr>rq_group = g, rq_resource = res, rq_verb = verb\<rparr>"

definition reads_kind :: "manager_options \<Rightarrow> string \<Rightarrow> string \<Rightarrow> api_request list \<Rightarrow> bool" where
  "reads_kind o1 g res qs \<longleftrightarrow>
     qs \<noteq> [] \<and> set qs \<subseteq> request g res `
       (if (g, res) \<in> set (opt_Client_Cache_DisableFor o1) then {''get''} else {''list'', ''watch''})"

fun documented :: "manager_options \<Rightarrow> call \<Rightarrow> api_request list \<Rightarrow> bool" where
  "documented o1 (CallGetDriftCheck n) qs \<longleftrightarrow> reads_kind o1 drift_group ''driftchecks'' qs"
| "documented o1 (CallGetConfigMap n) qs \<longleftrightarrow> reads_kind o1 '''' ''configmaps'' qs"
| "documented o1 (CallGetSecret n) qs \<longleftrightarrow> reads_kind o1 '''' ''secrets'' qs"
| "documented o1 (CallStatusUpdate d) qs \<longleftrightarrow> qs = [request drift_group ''driftchecks/status'' ''update'']"
| "documented o1 (CallEvent n ty reason msg) qs \<longleftrightarrow> set qs \<subseteq> request '''' ''events'' ` {''create'', ''patch''}"
| "documented o1 _ qs \<longleftrightarrow> qs = []"

type_synonym client = "manager_options \<Rightarrow> call \<Rightarrow> api_request list"

definition documented_client :: "client \<Rightarrow> bool" where
  "documented_client reqs \<longleftrightarrow> (\<forall>o1 c. documented o1 c (reqs o1 c))"

definition permitted :: "client \<Rightarrow> manager_options \<Rightarrow> call \<Rightarrow> bool" where
  "permitted reqs o1 c \<longleftrightarrow> list_all (covers manager_role) (reqs o1 c)"

lemma role_simps:
  "covers manager_role (request drift_group ''driftchecks'' ''list'')"
  "covers manager_role (request drift_group ''driftchecks'' ''watch'')"
  "covers manager_role (request '''' ''configmaps'' ''list'')"
  "covers manager_role (request '''' ''configmaps'' ''watch'')"
  "covers manager_role (request drift_group ''driftchecks/status'' ''update'')"
  "covers manager_role (request '''' ''events'' ''create'')"
  "covers manager_role (request '''' ''events'' ''patch'')"
  "\<not> covers manager_role (request '''' ''secrets'' ''list'')"
  "\<not> covers manager_role (request '''' ''secrets'' ''watch'')"
  by (simp_all add: covers_def manager_role_def request_def)

lemma documented_covered:
  assumes "documented o1 c qs" "opt_Client_Cache_DisableFor o1 = []" "\<not> reads_secret c" "q \<in> set qs"
  shows "covers manager_role q"
  using assms by (cases c) (auto simp: reads_kind_def role_simps simp del: subset_insert_iff)

lemma documented_permitted:
  assumes "documented_client reqs" "opt_Client_Cache_DisableFor o1 = []" "\<not> reads_secret c"
  shows "permitted reqs o1 c"
  using documented_covered [OF _ assms(2,3)] assms(1)
  unfolding permitted_def list_all_iff documented_client_def by blast

lemma secret_read_refused:
  assumes "documented_client reqs" "opt_Client_Cache_DisableFor o1 = []"
  shows "reqs o1 (CallGetSecret n) \<noteq> []"
    and "list_all (\<lambda>q. \<not> covers manager_role q) (reqs o1 (CallGetSecret n))"
proof -
  have "documented o1 (CallGetSecret n) (reqs o1 (CallGetSecret n))"
    using assms(1) by (simp add: documented_client_def)
  then show "reqs o1 (CallGetSecret n) \<noteq> []"
      "list_all (\<lambda>q. \<not> covers manager_role q) (reqs o1 (CallGetSecret n))"
    using assms(2) by (auto simp: reads_kind_def list_all_iff role_simps)
qed

lemma process_options:
  assumes "MNewManager o1 \<in> set (fst (process E ml args))"
  shows "opt_Client_Cache_DisableFor o1 = []"
proof -
  obtain cfg sch where "o1 = options_of cfg sch"
    using assms run_manager_options by (elim process_calls) blast
  then show ?thesis
    by (simp add: options_of_def)
qed

lemma permitted_rule:
  "documented_client reqs \<Longrightarrow> opt_Client_Cache_DisableFor o1 = [] \<Longrightarrow> secret_rule (permitted reqs o1)"
  by (simp add: secret_rule_def documented_permitted)

subsection \<open>What the role covers\<close>

text \<open>
  C26: The role covers every call of the controller that is not about Secrets. In a cluster whose
  DriftChecks name no Secret, each request that the manager's client sends, over the whole life of the
  process and with any command line, is covered.
\<close>

theorem role_covers_runs_without_secrets:
  assumes "MNewManager o1 \<in> set (fst (process E ml args))" "wiring_ok E r"
    and "updates_status_only (e_kube E)"
    and "\<forall>h n dc. kl_GetDriftCheck (e_kube E) h n = Inr dc \<longrightarrow> secret_refs dc = []"
    and "loop_runs E r controller_start s" "c \<in> set (ct_history s)" "documented_client reqs"
  shows "permitted reqs o1 c"
proof -
  obtain a b where "ct_history s = a @ c # b"
    using assms(6) by (auto simp: in_set_conv_decomp)
  then obtain n h a' b' where run: "snd (Reconcile E r n h) = h @ a' @ c # b'"
    by (rule loop_call_origin [OF assms(2,5)])
  have named: "\<exists>t. snd (Reconcile E r n h) = h @ t \<and> list_all (permitted reqs o1) t"
  proof (rule Reconcile_rule [OF permitted_rule [OF assms(7) process_options [OF assms(1)]] assms(2)], goal_cases)
    case (1 dc m)
    then show ?case
      using assms(4) by (simp add: secret_refs_def)
  next
    case (2 dc k results d m)
    then have "secret_refs d = secret_refs dc"
      using assms(3) unfolding updates_status_only_def
      by (intro secret_refs_spec) (simp_all add: evaluated_status_keeps)
    then show ?case
      using 2 assms(4) by simp
  qed
  then show ?thesis
    using run by auto
qed

lemma ex_options:
  "MNewManager (options_of default_settings ex_scheme) \<in> set (fst (process E ex_manager []))"
proof -
  have "parse_flags (formal_flags (ml_flags ex_manager)) default_settings [] = Parsed default_settings []"
    by simp
  from ex_process [OF this] show ?thesis
    by simp
qed

text \<open>The client that the parameter stands for, as far as it is documented.\<close>

definition ex_reads :: "manager_options \<Rightarrow> string \<Rightarrow> string \<Rightarrow> api_request list" where
  "ex_reads o1 g res =
     (if (g, res) \<in> set (opt_Client_Cache_DisableFor o1) then [request g res ''get'']
      else [request g res ''list'', request g res ''watch''])"

fun ex_client :: client where
  "ex_client o1 (CallGetDriftCheck n) = ex_reads o1 drift_group ''driftchecks''"
| "ex_client o1 (CallGetConfigMap n) = ex_reads o1 '''' ''configmaps''"
| "ex_client o1 (CallGetSecret n) = ex_reads o1 '''' ''secrets''"
| "ex_client o1 (CallStatusUpdate d) = [request drift_group ''driftchecks/status'' ''update'']"
| "ex_client o1 (CallEvent n ty reason msg) = [request '''' ''events'' ''create'', request '''' ''events'' ''patch'']"
| "ex_client o1 _ = []"

lemma ex_reads_kind: "reads_kind o1 g res (ex_reads o1 g res)"
  by (simp add: reads_kind_def ex_reads_def)

lemma ex_client_documented: "documented_client ex_client"
  unfolding documented_client_def
proof (intro allI)
  fix o1 c
  show "documented o1 c (ex_client o1 c)"
    by (cases c) (simp_all add: ex_reads_kind)
qed

theorem role_covers_runs_without_secrets_witness:
  "list_all (permitted ex_client (options_of default_settings ex_scheme)) (snd (Reconcile ex_env ex_reconciler ex_req []))"
proof -
  have "updates_status_only (e_kube ex_env)"
    by (simp add: updates_status_only_def ex_env_def ex_kube_def)
  moreover have "\<forall>h n dc. kl_GetDriftCheck (e_kube ex_env) h n = Inr dc \<longrightarrow> secret_refs dc = []"
    by (simp add: ex_env_def ex_kube_def secret_refs_def source_refs_def source_auth_def dc_webhooks_def
        webhook_refs_def ex_dc_def ex_source_def ex_webhook_def)
  ultimately have "permitted ex_client (options_of default_settings ex_scheme) c"
    if "c \<in> set (snd (Reconcile ex_env ex_reconciler ex_req []))" for c
    using role_covers_runs_without_secrets [OF ex_options ex_wiring _ _ ex_first_run _ ex_client_documented] that
    by (simp add: ex_observed_def)
  then show ?thesis
    by (simp add: list_all_iff)
qed

subsection \<open>What the role does not cover\<close>

lemma resolveGitAuth_history:
  "snd (resolveGitAuth E ns (Some a) h)
   = h @ [CallGetSecret \<lparr>nn_namespace = ns, nn_name = lsr_name (gas_secretRef a)\<rparr>]"
  by (simp add: resolveGitAuth_def io_defs pure_def client_GetSecret_def Let_def split: sum.split)

lemma try_bind_give_history: "snd (try_bind m (\<lambda>x. give (f x)) h) = snd (m h)"
  by (simp add: try_bind_def give_def split: prod.split sum.split)

lemma buildSource_auth_history:
  assumes "valid_Source (spec_source (dc_spec dc))" "source_auth (spec_source (dc_spec dc)) = Some a"
  shows "snd (buildSource E r dc h)
    = h @ [CallGetSecret \<lparr>nn_namespace = dc_namespace dc, nn_name = lsr_name (gas_secretRef a)\<rparr>]"
proof -
  let ?s = "spec_source (dc_spec dc)"
  consider (git) g where "src_type ?s = ''Git''" "src_git ?s = Some g" "gss_auth g = Some a"
    | (helm) g where "src_type ?s = ''Helm''" "src_helm ?s = Some g" "gss_auth (hss_git g) = Some a"
    | (kustomize) g where "src_type ?s = ''Kustomize''" "src_kustomize ?s = Some g" "gss_auth (kss_git g) = Some a"
    using assms(2) by (auto simp: source_auth_def Option.bind_eq_Some_conv split: if_splits)
  then show ?thesis
    using assms(1)
    by cases (auto simp: buildSource_def try_bind_give_history resolveGitAuth_history valid_Source_def
        valid_GitSource_def valid_HelmSource_def valid_KustomizeSource_def go_simps Let_def)
qed

lemma evaluate_after_source:
  assumes "wiring_ok E r" "r_Fetcher r \<noteq> None"
  obtains t where "snd (evaluate E r dc h) = snd (buildSource E r dc h) @ t"
proof -
  obtain f where f: "r_Fetcher r = Some f"
    using assms(2) by blast
  obtain res h1 where b: "buildSource E r dc h = (res, h1)"
    by fastforce
  show ?thesis
  proof (cases "\<exists>src src'. res = Inr src \<and> applyTarget (e_kube E) src (spec_target (dc_spec dc)) = Inr src'")
    case True
    then obtain src src' where s: "res = Inr src" "applyTarget (e_kube E) src (spec_target (dc_spec dc)) = Inr src'"
      by blast
    then have "source_ok src'"
      using b assms(1) buildSource_ok applyTarget_ok by (metis wiring_ok_def)
    then obtain t where "snd (kd_Run (e_kd E) (source_Load E src') f h1) = h1 @ t"
      using adds_only_run [OF assms(1) f] by (metis adds_onlyE)
    then show ?thesis
      using that [of t] f b s
      by (cases "kd_Run (e_kd E) (source_Load E src') f h1") (simp add: evaluate_def)
  next
    case False
    show ?thesis
    proof (cases res)
      case (Inl e)
      then show ?thesis
        using that [of "[]"] f b by (simp add: evaluate_def)
    next
      case (Inr src)
      then obtain e where "applyTarget (e_kube E) src (spec_target (dc_spec dc)) = Inl e"
        using False by (cases "applyTarget (e_kube E) src (spec_target (dc_spec dc))") auto
      then show ?thesis
        using that [of "[]"] f b Inr by (simp add: evaluate_def)
    qed
  qed
qed

text \<open>
  C10: The role does not cover Secrets. The client of the manager reads them through its cache, which
  lists and watches, while the role has \<open>get\<close> only. So the run of any admitted DriftCheck with Git
  credentials starts with a Secret read none of whose requests is covered.
\<close>

theorem secret_reads_not_covered:
  assumes "MNewManager o1 \<in> set (fst (process E ml args))" "wiring_ok E r" "r_Fetcher r \<noteq> None"
    and "kl_GetDriftCheck (e_kube E) h n = Inr dc" "admit (Some m) = Some (dc_spec dc)"
    and "source_auth (spec_source (dc_spec dc)) = Some a" "documented_client reqs"
  shows "\<exists>c t. snd (Reconcile E r n h) = h @ CallGetDriftCheck n # c # t
    \<and> c = CallGetSecret \<lparr>nn_namespace = dc_namespace dc, nn_name = lsr_name (gas_secretRef a)\<rparr>
    \<and> reqs o1 c \<noteq> [] \<and> list_all (\<lambda>q. \<not> covers manager_role q) (reqs o1 c)"
proof -
  let ?c = "CallGetSecret \<lparr>nn_namespace = dc_namespace dc, nn_name = lsr_name (gas_secretRef a)\<rparr>"
  obtain v h1 where d: "decide E r n h = (v, h1)"
    by fastforce
  obtain t where "snd (evaluate E r dc (h @ [CallGetDriftCheck n]))
      = snd (buildSource E r dc (h @ [CallGetDriftCheck n])) @ t"
    by (rule evaluate_after_source [OF assms(2,3)])
  then have "h1 = h @ CallGetDriftCheck n # ?c # t"
    using d buildSource_auth_history [OF admit_Some(1) [OF assms(5)] assms(6)]
    by (simp add: decide_evaluate [OF assms(4)])
  moreover obtain u where "snd (perform E r n v h1) = h1 @ u"
    using perform_rule [of "\<lambda>n. True" "\<lambda>c. True" r n v E h1] assms(2) by (auto simp: call_rule_def wiring_ok_def)
  moreover have "reqs o1 ?c \<noteq> [] \<and> list_all (\<lambda>q. \<not> covers manager_role q) (reqs o1 ?c)"
    using secret_read_refused [OF assms(7) process_options [OF assms(1)]] by blast
  ultimately show ?thesis
    using d by (simp add: Reconcile_perform)
qed

definition ex_git_manifest :: SpecManifest where
  "ex_git_manifest =
     \<lparr>sm_source = \<lparr>src_type = ''Git'',
        src_git = Some \<lparr>gss_url = ''https://git'', gss_ref = [], gss_path = [],
          gss_auth = Some \<lparr>gas_type = ''Bearer'', gas_secretRef = \<lparr>lsr_name = ''git''\<rparr>\<rparr>\<rparr>,
        src_configMap = None, src_helm = None, src_kustomize = None\<rparr>,
      sm_target = None, sm_interval = None, sm_notify = None\<rparr>"

definition ex_git_dc :: DriftCheck where
  "ex_git_dc = ex_dc\<lparr>dc_spec := spec_of ex_git_manifest\<rparr>"

definition ex_git_env :: env where
  "ex_git_env = ex_env\<lparr>e_kube := ex_kube\<lparr>kl_GetDriftCheck := \<lambda>h n. Inr ex_git_dc\<rparr>\<rparr>"

theorem secret_reads_not_covered_witness:
  "\<exists>c t. snd (Reconcile ex_git_env ex_reconciler ex_req []) = CallGetDriftCheck ex_req # c # t
    \<and> c = CallGetSecret \<lparr>nn_namespace = ''prod'', nn_name = ''git''\<rparr>
    \<and> \<not> permitted ex_client (options_of default_settings ex_scheme) c"
proof -
  have "wiring_ok ex_git_env ex_reconciler" "r_Fetcher ex_reconciler \<noteq> None"
    using ex_wiring by (simp_all add: wiring_ok_def engine_ok_def ex_git_env_def ex_reconciler_def)
  moreover have "kl_GetDriftCheck (e_kube ex_git_env) [] ex_req = Inr ex_git_dc"
    by (simp add: ex_git_env_def)
  moreover have "admit (Some ex_git_manifest) = Some (dc_spec ex_git_dc)"
    by (simp add: admit_def ex_git_dc_def valid_spec_def valid_Source_def ex_git_manifest_def
        enum_SourceType_def source_rules_def valid_GitSource_def valid_GitAuth_def enum_GitAuthType_def)
  moreover have "source_auth (spec_source (dc_spec ex_git_dc))
      = Some \<lparr>gas_type = ''Bearer'', gas_secretRef = \<lparr>lsr_name = ''git''\<rparr>\<rparr>"
    by (simp add: ex_git_dc_def spec_of_def ex_git_manifest_def source_auth_def)
  ultimately obtain c t where c: "snd (Reconcile ex_git_env ex_reconciler ex_req []) = [] @ CallGetDriftCheck ex_req # c # t"
      "c = CallGetSecret \<lparr>nn_namespace = dc_namespace ex_git_dc, nn_name = lsr_name (gas_secretRef
         \<lparr>gas_type = ''Bearer'', gas_secretRef = \<lparr>lsr_name = ''git''\<rparr>\<rparr>)\<rparr>"
      "ex_client (options_of default_settings ex_scheme) c \<noteq> []"
      "list_all (\<lambda>q. \<not> covers manager_role q) (ex_client (options_of default_settings ex_scheme) c)"
    using secret_reads_not_covered [OF ex_options _ _ _ _ _ ex_client_documented] by blast
  have "\<not> permitted ex_client (options_of default_settings ex_scheme) c"
    using c(3,4) by (cases "ex_client (options_of default_settings ex_scheme) c") (simp_all add: permitted_def)
  then show ?thesis
    using c(1,2) by (simp add: ex_git_dc_def ex_dc_def)
qed

end
