(* ===== verification/JSON_Document.thy ===== *)
theory JSON_Document
  imports JSON_Text
begin

text \<open>
  A whole JSON document as a receiver reads it: a recursive-descent parser for the documents that
  \<open>marshal\<close> writes, and the round trip of the payloads of \<open>internal/notify/notify.go\<close> through it. The
  parser is fuelled by the length of its input, which is shown to be enough.
\<close>

subsection \<open>Numbers\<close>

definition is_digit :: "char \<Rightarrow> bool" where
  "is_digit c \<longleftrightarrow> 48 \<le> (of_char c :: nat) \<and> (of_char c :: nat) \<le> 57"

lemma nat_decimal_digits: "list_all is_digit (nat_decimal n) \<and> nat_decimal n \<noteq> []"
proof (induction n rule: nat_decimal.induct)
  case (1 n)
  have digit: "is_digit (char_of (48 + d))" if "d < 10" for d :: nat
    using that by (simp add: is_digit_def of_char_of)
  show ?case
    using 1 by (cases "n < 10") (simp_all add: nat_decimal.simps [of n] digit)
qed

text \<open>A number, as the text up to the first byte that is no digit.\<close>

definition json_digits :: "bytes \<Rightarrow> (nat \<times> bytes) option" where
  "json_digits bs =
     (let ds = takeWhile is_digit bs in
      if ds = [] then None else Some (decimal_value ds, dropWhile is_digit bs))"

definition json_number :: "bytes \<Rightarrow> (json \<times> bytes) option" where
  "json_number bs =
     (case bs of
        [] \<Rightarrow> None
      | c # cs \<Rightarrow>
          if c = CHR ''-'' then map_option (\<lambda>(n, r). (JInt (word_of_int (- int n)), r)) (json_digits cs)
          else map_option (\<lambda>(n, r). (JInt (word_of_int (int n)), r)) (json_digits bs))"

text \<open>What may follow a value.\<close>

definition closes :: "bytes \<Rightarrow> bool" where
  "closes rest \<longleftrightarrow> rest = [] \<or> \<not> is_digit (hd rest)"

lemma json_digits_decimal:
  assumes "closes rest"
  shows "json_digits (nat_decimal n @ rest) = Some (n, rest)"
proof -
  have d: "\<forall>c \<in> set (nat_decimal n). is_digit c" "nat_decimal n \<noteq> []"
    using nat_decimal_digits [of n] by (auto simp: list_all_iff)
  have "takeWhile is_digit rest = []" "dropWhile is_digit rest = rest"
    using assms by (cases rest; simp add: closes_def)+
  then show ?thesis
    using d by (simp add: json_digits_def takeWhile_append2 dropWhile_append2)
qed

lemma minus_no_digit: "\<not> is_digit (CHR ''-'')"
  by (simp add: is_digit_def)

lemma json_number_decimal:
  assumes "closes rest"
  shows "json_number (go_decimal w @ rest) = Some (JInt w, rest)"
proof (cases "sint w < 0")
  case True
  then show ?thesis
    by (simp add: go_decimal_def int_decimal_def json_number_def json_digits_decimal [OF assms])
next
  case False
  obtain c cs where n: "nat_decimal (nat (sint w)) = c # cs"
    using nat_decimal_digits [of "nat (sint w)"] by (cases "nat_decimal (nat (sint w))") auto
  have "is_digit c"
    using nat_decimal_digits [of "nat (sint w)"] n by simp
  then have "c \<noteq> CHR ''-''"
    using minus_no_digit by auto
  moreover have "json_digits ((c # cs) @ rest) = Some (nat (sint w), rest)"
    using json_digits_decimal [OF assms, of "nat (sint w)"] by (simp add: n)
  ultimately show ?thesis
    using False by (simp add: go_decimal_def int_decimal_def json_number_def n)
qed

subsection \<open>Documents\<close>

fun json_value :: "nat \<Rightarrow> bytes \<Rightarrow> (json \<times> bytes) option"
  and json_items :: "nat \<Rightarrow> bytes \<Rightarrow> (json list \<times> bytes) option"
  and json_fields :: "nat \<Rightarrow> bytes \<Rightarrow> ((string \<times> json) list \<times> bytes) option"
where
  "json_value 0 bs = None"
| "json_value (Suc n) bs =
     (case bs of
        [] \<Rightarrow> None
      | c # cs \<Rightarrow>
          if c = char_of (34::nat) then map_option (\<lambda>(s, r). (JString s, r)) (json_read cs)
          else if c = CHR ''['' then
            (if cs \<noteq> [] \<and> hd cs = CHR '']'' then Some (JArray [], tl cs)
             else map_option (\<lambda>(js, r). (JArray js, r)) (json_items n cs))
          else if c = CHR ''{'' then
            (if cs \<noteq> [] \<and> hd cs = CHR ''}'' then Some (JObject [], tl cs)
             else map_option (\<lambda>(fs, r). (JObject fs, r)) (json_fields n cs))
          else if take 4 bs = ''true'' then Some (JBool True, drop 4 bs)
          else if take 5 bs = ''false'' then Some (JBool False, drop 5 bs)
          else json_number bs)"
| "json_items 0 bs = None"
| "json_items (Suc n) bs =
     (case json_value n bs of
        None \<Rightarrow> None
      | Some (j, r) \<Rightarrow>
          (case r of
             [] \<Rightarrow> None
           | c # cs \<Rightarrow>
               if c = CHR '','' then map_option (\<lambda>(js, r'). (j # js, r')) (json_items n cs)
               else if c = CHR '']'' then Some ([j], cs)
               else None))"
| "json_fields 0 bs = None"
| "json_fields (Suc n) bs =
     (case bs of
        [] \<Rightarrow> None
      | q # ks \<Rightarrow>
          if q \<noteq> char_of (34::nat) then None
          else
            (case json_read ks of
               None \<Rightarrow> None
             | Some (k, r) \<Rightarrow>
                 if r = [] \<or> hd r \<noteq> CHR '':'' then None
                 else
                   (case json_value n (tl r) of
                      None \<Rightarrow> None
                    | Some (j, r') \<Rightarrow>
                        (case r' of
                           [] \<Rightarrow> None
                         | c # cs \<Rightarrow>
                             if c = CHR '','' then
                               map_option (\<lambda>(fs, r''). ((k, j) # fs, r'')) (json_fields n cs)
                             else if c = CHR ''}'' then Some ([(k, j)], cs)
                             else None))))"

definition json_parse :: "bytes \<Rightarrow> json option" where
  "json_parse bs =
     (case json_value (Suc (length bs)) bs of
        Some (j, []) \<Rightarrow> Some j
      | _ \<Rightarrow> None)"

text \<open>A document as JSON can carry it.\<close>

fun json_utf8 :: "json \<Rightarrow> json" where
  "json_utf8 (JString s) = JString (to_utf8 s)"
| "json_utf8 (JInt i) = JInt i"
| "json_utf8 (JBool b) = JBool b"
| "json_utf8 (JArray js) = JArray (map json_utf8 js)"
| "json_utf8 (JObject fs) = JObject (map (\<lambda>(k, j). (to_utf8 k, json_utf8 j)) fs)"

text \<open>The fuel a document needs.\<close>

fun json_fuel :: "json \<Rightarrow> nat" where
  "json_fuel (JString s) = 1"
| "json_fuel (JInt i) = 1"
| "json_fuel (JBool b) = 1"
| "json_fuel (JArray js) = Suc (sum_list (map (\<lambda>j. Suc (json_fuel j)) js))"
| "json_fuel (JObject fs) = Suc (sum_list (map (\<lambda>(k, j). Suc (json_fuel j)) fs))"

text \<open>The first byte of a value.\<close>

lemma go_decimal_hd: "go_decimal w \<noteq> [] \<and> (hd (go_decimal w) = CHR ''-'' \<or> is_digit (hd (go_decimal w)))"
  using nat_decimal_digits [of "nat (sint w)"]
  by (cases "nat_decimal (nat (sint w))") (auto simp: go_decimal_def int_decimal_def)

lemma no_digits:
  "\<not> is_digit (char_of (34::nat))" "\<not> is_digit (CHR ''['')" "\<not> is_digit (CHR ''{'')" "\<not> is_digit (CHR ''t'')"
  "\<not> is_digit (CHR ''f'')" "\<not> is_digit (CHR '','')" "\<not> is_digit (CHR '']'')" "\<not> is_digit (CHR ''}'')"
  by (simp_all add: is_digit_def of_char_of)

lemma quote_is: "char_of (34::nat) = CHR 0x22"
  by (simp add: char_of_def bit_Suc_0_iff)

abbreviation reads_back :: "json \<Rightarrow> bool" where
  "reads_back j \<equiv> \<forall>rest n. closes rest \<longrightarrow> json_fuel j \<le> n \<longrightarrow>
     json_value n (marshal j @ rest) = Some (json_utf8 j, rest)"

lemma closes_simps [simp]: "closes (CHR '','' # cs)" "closes (CHR '']'' # cs)" "closes (CHR ''}'' # cs)"
  by (simp_all add: closes_def no_digits)

lemma json_items_marshal:
  assumes "\<forall>j \<in> set js. reads_back j" "js \<noteq> []" "sum_list (map (\<lambda>j. Suc (json_fuel j)) js) \<le> m"
  shows "json_items m (bytes_Join (map marshal js) '','' @ CHR '']'' # rest) = Some (map json_utf8 js, rest)"
  using assms
proof (induction js arbitrary: m)
  case (Cons j js)
  obtain k where m: "m = Suc k"
    using Cons.prems(3) by (cases m) auto
  have j: "json_fuel j \<le> k" "sum_list (map (\<lambda>j. Suc (json_fuel j)) js) \<le> k"
    using Cons.prems(3) m by auto
  show ?case
  proof (cases "js = []")
    case True
    then show ?thesis
      using Cons.prems(1) j(1) by (simp add: m)
  next
    case False
    have "json_value k (marshal j @ CHR '','' # bytes_Join (map marshal js) '','' @ CHR '']'' # rest)
        = Some (json_utf8 j, CHR '','' # bytes_Join (map marshal js) '','' @ CHR '']'' # rest)"
      using Cons.prems(1) j(1) by simp
    then show ?thesis
      using Cons.IH [of k] Cons.prems(1) j(2) False by (simp add: m bytes_Join_Cons)
  qed
qed simp

lemma json_string_cons: "json_string s = char_of (34::nat) # json_escape s @ [char_of (34::nat)]"
  by (simp add: json_string_def)

lemma json_fields_marshal:
  assumes "\<forall>(k, j) \<in> set fs. reads_back j" "fs \<noteq> []"
    and "sum_list (map (\<lambda>(k, j). Suc (json_fuel j)) fs) \<le> m"
  shows "json_fields m (bytes_Join (map (\<lambda>(k, j). json_string k @ '':'' @ marshal j) fs) '','' @ CHR ''}'' # rest)
    = Some (map (\<lambda>(k, j). (to_utf8 k, json_utf8 j)) fs, rest)"
  using assms
proof (induction fs arbitrary: m)
  case (Cons f fs)
  obtain key j where f: "f = (key, j)"
    by (cases f)
  obtain k where m: "m = Suc k"
    using Cons.prems(3) by (cases m) (auto simp: f)
  have j: "json_fuel j \<le> k" "sum_list (map (\<lambda>(k, j). Suc (json_fuel j)) fs) \<le> k"
    using Cons.prems(3) m by (auto simp: f)
  let ?more = "bytes_Join (map (\<lambda>(k, j). json_string k @ '':'' @ marshal j) fs) '','' @ CHR ''}'' # rest"
  have key: "json_read (json_escape key @ char_of (34::nat) # r) = Some (to_utf8 key, r)" for r
    by (rule json_read_escape_chars)
  show ?case
  proof (cases "fs = []")
    case True
    have "json_value k (marshal j @ CHR ''}'' # rest) = Some (json_utf8 j, CHR ''}'' # rest)"
      using Cons.prems(1) j(1) by (simp add: f)
    then show ?thesis
      using True key [of "CHR '':'' # marshal j @ CHR ''}'' # rest"] by (simp add: m f json_string_cons)
  next
    case False
    have "json_value k (marshal j @ CHR '','' # ?more) = Some (json_utf8 j, CHR '','' # ?more)"
      using Cons.prems(1) j(1) by (simp add: f)
    then show ?thesis
      using Cons.IH [of k] Cons.prems(1) j(2) False key [of "CHR '':'' # marshal j @ CHR '','' # ?more"]
      by (simp add: m f bytes_Join_Cons json_string_cons)
  qed
qed simp

lemma json_value_digits:
  assumes "bs \<noteq> []" "hd bs = CHR ''-'' \<or> is_digit (hd bs)"
  shows "json_value (Suc n) bs = json_number bs"
proof -
  obtain c cs where bs: "bs = c # cs"
    using assms(1) by (cases bs) auto
  then have "c \<noteq> char_of (34::nat)" "c \<noteq> CHR ''[''" "c \<noteq> CHR ''{''" "c \<noteq> CHR ''t''" "c \<noteq> CHR ''f''"
    using assms(2) no_digits by (auto simp: quote_is)
  then show ?thesis
    by (simp add: bs)
qed

lemma array_reads_back:
  assumes "\<forall>j \<in> set js. reads_back j"
  shows "reads_back (JArray js)"
proof (intro allI impI)
  fix rest :: bytes and n assume n: "json_fuel (JArray js) \<le> n"
  then obtain k where k: "n = Suc k"
    by (cases n) auto
  have first: "bs \<noteq> [] \<and> hd bs = CHR '']'' \<Longrightarrow> json_items k bs = None" for bs
    by (cases k; cases "k - 1") (auto simp: neq_Nil_conv quote_is json_number_def json_digits_def no_digits)
  show "json_value n (marshal (JArray js) @ rest) = Some (json_utf8 (JArray js), rest)"
  proof (cases "js = []")
    case True
    then show ?thesis
      by (simp add: k quote_is)
  next
    case False
    then have i: "json_items k (bytes_Join (map marshal js) '','' @ CHR '']'' # rest) = Some (map json_utf8 js, rest)"
      using json_items_marshal [of js k] assms n by (simp add: k)
    then have "\<not> (bytes_Join (map marshal js) '','' @ CHR '']'' # rest \<noteq> []
        \<and> hd (bytes_Join (map marshal js) '','' @ CHR '']'' # rest) = CHR '']'')"
      using first by fastforce
    then show ?thesis
      using i by (simp add: k quote_is)
  qed
qed

lemma object_reads_back:
  assumes "\<forall>(k, j) \<in> set fs. reads_back j"
  shows "reads_back (JObject fs)"
proof (intro allI impI)
  fix rest :: bytes and n assume n: "json_fuel (JObject fs) \<le> n"
  then obtain k where k: "n = Suc k"
    by (cases n) auto
  let ?bs = "bytes_Join (map (\<lambda>(k, j). json_string k @ '':'' @ marshal j) fs) '','' @ CHR ''}'' # rest"
  have first: "bs \<noteq> [] \<and> hd bs = CHR ''}'' \<Longrightarrow> json_fields k bs = None" for bs
    by (cases k) (auto simp: neq_Nil_conv quote_is)
  show "json_value n (marshal (JObject fs) @ rest) = Some (json_utf8 (JObject fs), rest)"
  proof (cases "fs = []")
    case True
    then show ?thesis
      by (simp add: k quote_is)
  next
    case False
    then have i: "json_fields k ?bs = Some (map (\<lambda>(k, j). (to_utf8 k, json_utf8 j)) fs, rest)"
      using json_fields_marshal [of fs k] assms n by (fastforce simp add: k)
    then have "\<not> (?bs \<noteq> [] \<and> hd ?bs = CHR ''}'')"
      using first by fastforce
    then show ?thesis
      using i by (simp add: k quote_is)
  qed
qed

lemma json_value_marshal: "reads_back j"
proof (induction j rule: marshal.induct)
  case (1 s)
  show ?case
  proof (intro allI impI)
    fix rest :: bytes and n assume "json_fuel (JString s) \<le> n"
    then show "json_value n (marshal (JString s) @ rest) = Some (json_utf8 (JString s), rest)"
      by (cases n) (simp_all add: json_string_cons json_read_escape_chars)
  qed
next
  case (2 i)
  show ?case
  proof (intro allI impI)
    fix rest :: bytes and n assume "closes rest" "json_fuel (JInt i) \<le> n"
    then show "json_value n (marshal (JInt i) @ rest) = Some (json_utf8 (JInt i), rest)"
      using go_decimal_hd [of i] json_number_decimal [of rest i]
      by (cases n) (simp_all add: json_value_digits del: json_value.simps(2))
  qed
next
  case (3 b)
  show ?case
  proof (intro allI impI)
    fix rest :: bytes and n assume "json_fuel (JBool b) \<le> n"
    then show "json_value n (marshal (JBool b) @ rest) = Some (json_utf8 (JBool b), rest)"
      by (cases n) (simp_all add: quote_is)
  qed
next
  case (4 js)
  then show ?case
    by (intro array_reads_back) simp
next
  case (5 fs)
  then show ?case
    by (intro object_reads_back) fastforce
qed

subsection \<open>The fuel is enough\<close>

lemma length_bytes_Join:
  "ds \<noteq> [] \<Longrightarrow> Suc (length (bytes_Join ds [c])) = sum_list (map (\<lambda>d. Suc (length d)) ds)"
proof (induction ds)
  case (Cons d ds)
  then show ?case
    by (cases ds) (simp_all add: bytes_Join_Cons)
qed simp

lemma json_fuel_length: "json_fuel j \<le> length (marshal j)"
proof (induction j rule: marshal.induct)
  case (2 i)
  then show ?case
    using go_decimal_hd [of i] by (cases "go_decimal i") auto
next
  case (4 js)
  have "sum_list (map (\<lambda>j. Suc (json_fuel j)) js) \<le> sum_list (map (\<lambda>j. Suc (length (marshal j))) js)"
    using 4 by (intro sum_list_mono) simp
  then show ?case
    using length_bytes_Join [of "map marshal js" "CHR '',''"]
    by (cases "js = []") (auto simp: comp_def)
next
  case (5 fs)
  have "sum_list (map (\<lambda>f. Suc (json_fuel (snd f))) fs)
      \<le> sum_list (map (\<lambda>f. Suc (length (json_string (fst f) @ '':'' @ marshal (snd f)))) fs)"
    using 5 by (intro sum_list_mono) (fastforce simp: le_SucI trans_le_add2)
  then show ?case
    using length_bytes_Join [of "map (\<lambda>(k, j). json_string k @ '':'' @ marshal j) fs" "CHR '',''"]
    by (cases "fs = []") (auto simp: comp_def case_prod_beta')
qed (simp_all add: json_string_def)

lemma json_parse_marshal: "json_parse (marshal j) = Some (json_utf8 j)"
proof -
  have "json_value (Suc (length (marshal j))) (marshal j @ []) = Some (json_utf8 j, [])"
    using json_value_marshal [of j] json_fuel_length [of j] by (simp only: closes_def le_SucI simp_thms)
  then show ?thesis
    by (simp only: json_parse_def append_Nil2 option.case prod.case list.case)
qed

subsection \<open>The receiver of an event\<close>

text \<open>A receiver's reading of the generic payload: fields by name, absent ones empty.\<close>

definition field :: "json \<Rightarrow> string \<Rightarrow> json option" where
  "field j k = (case j of JObject fs \<Rightarrow> map_of fs k | _ \<Rightarrow> None)"

definition string_field :: "json \<Rightarrow> string \<Rightarrow> string" where
  "string_field j k = (case field j k of Some (JString s) \<Rightarrow> s | _ \<Rightarrow> [])"

definition int_field :: "json \<Rightarrow> string \<Rightarrow> go_int" where
  "int_field j k = (case field j k of Some (JInt i) \<Rightarrow> i | _ \<Rightarrow> 0)"

definition items_field :: "json \<Rightarrow> string \<Rightarrow> json list" where
  "items_field j k = (case field j k of Some (JArray js) \<Rightarrow> js | _ \<Rightarrow> [])"

definition resource_of_json :: "json \<Rightarrow> NResource" where
  "resource_of_json j =
     \<lparr>nr_apiVersion = string_field j ''apiVersion'', nr_kind = string_field j ''kind'',
      nr_name = string_field j ''name'', nr_namespace = string_field j ''namespace'',
      nr_status = string_field j ''status''\<rparr>"

definition summary_of_json :: "json \<Rightarrow> NSummary" where
  "summary_of_json j =
     \<lparr>nsum_changed = int_field j ''changed'', nsum_new = int_field j ''new'',
      nsum_deleted = int_field j ''deleted'', nsum_unchanged = int_field j ''unchanged''\<rparr>"

definition event_of_json :: "json \<Rightarrow> Event" where
  "event_of_json j =
     \<lparr>ev_name = string_field j ''driftCheck'', ev_namespace = string_field j ''namespace'',
      ev_summary = (case field j ''summary'' of Some s \<Rightarrow> summary_of_json s | None \<Rightarrow> summary_of_json (JObject [])),
      ev_drifted = map resource_of_json (items_field j ''drifted''),
      ev_resolved = (case field j ''resolved'' of Some (JBool b) \<Rightarrow> b | _ \<Rightarrow> False)\<rparr>"

text \<open>An event all of whose strings are UTF-8, as the API server guarantees for names and kinds.\<close>

definition resource_utf8 :: "NResource \<Rightarrow> bool" where
  "resource_utf8 r \<longleftrightarrow>
     list_all utf8_valid [nr_apiVersion r, nr_kind r, nr_name r, nr_namespace r, nr_status r]"

definition event_utf8 :: "Event \<Rightarrow> bool" where
  "event_utf8 ev \<longleftrightarrow> utf8_valid (ev_name ev) \<and> utf8_valid (ev_namespace ev) \<and> list_all resource_utf8 (ev_drifted ev)"

lemma utf8_valid_ascii: "list_all (\<lambda>c. of_char c < (128::nat)) s \<Longrightarrow> utf8_valid s"
  by (induction s) (simp_all add: utf8_valid.simps utf8_len_ascii)

lemma to_utf8_keys:
  "to_utf8 ''apiVersion'' = ''apiVersion''" "to_utf8 ''kind'' = ''kind''" "to_utf8 ''name'' = ''name''"
  "to_utf8 ''namespace'' = ''namespace''" "to_utf8 ''status'' = ''status''" "to_utf8 ''changed'' = ''changed''"
  "to_utf8 ''new'' = ''new''" "to_utf8 ''deleted'' = ''deleted''" "to_utf8 ''unchanged'' = ''unchanged''"
  "to_utf8 ''driftCheck'' = ''driftCheck''" "to_utf8 ''resolved'' = ''resolved''"
  "to_utf8 ''summary'' = ''summary''" "to_utf8 ''drifted'' = ''drifted''"
  by (intro to_utf8_valid utf8_valid_ascii; simp)+

lemma resource_of_json_roundtrip:
  "resource_utf8 r \<Longrightarrow> resource_of_json (json_utf8 (json_of_resource r)) = r"
  by (simp add: resource_utf8_def resource_of_json_def json_of_resource_def omitempty_string_def
      string_field_def field_def to_utf8_keys to_utf8_valid)

lemma summary_of_json_roundtrip: "summary_of_json (json_utf8 (json_of_summary s)) = s"
  by (simp add: summary_of_json_def json_of_summary_def int_field_def field_def to_utf8_keys)

lemma event_of_json_roundtrip:
  assumes "event_utf8 ev"
  shows "event_of_json (json_utf8 (json_of_genericBody (genericPayload ev))) = ev"
proof -
  have "map (resource_of_json \<circ> (json_utf8 \<circ> json_of_resource)) (ev_drifted ev) = ev_drifted ev"
    using assms resource_of_json_roundtrip by (intro map_idI) (auto simp: event_utf8_def list_all_iff)
  then show ?thesis
    using assms summary_of_json_roundtrip
    by (cases "ev_drifted ev = []")
      (simp_all add: event_of_json_def json_of_genericBody_def genericPayload_def event_utf8_def
        omitempty_string_def string_field_def items_field_def field_def to_utf8_keys to_utf8_valid)
qed

subsection \<open>Valid UTF-8 is closed under concatenation\<close>

text \<open>
  The text of a Slack message is put together from names, numbers and the two characters outside ASCII,
  so it is valid UTF-8 when the names are.
\<close>

lemma utf8_tail_append: "utf8_tail bs n lo hi \<Longrightarrow> 1 \<le> n \<Longrightarrow> utf8_tail (bs @ cs) n lo hi"
  by (cases bs) (auto simp: utf8_tail_def)

lemma pick_mono:
  assumes "(if c then if p then k else 0 else x) \<noteq> (0::nat)" "p \<Longrightarrow> p'" "x \<noteq> 0 \<Longrightarrow> x' = x"
  shows "(if c then if p' then k else 0 else x') = (if c then if p then k else 0 else x)"
  using assms by (auto split: if_splits)

lemma utf8_len_append: "utf8_len bs \<noteq> 0 \<Longrightarrow> utf8_len (bs @ cs) = utf8_len bs"
proof (cases bs)
  case (Cons b bs')
  assume "utf8_len bs \<noteq> 0"
  then show ?thesis
    unfolding Cons append_Cons utf8_len.simps(2) Let_def utf8_tail_def [symmetric]
    by (cases "b < 0x80", simp, simp only: if_False)
      (elim pick_mono; (rule utf8_tail_append; simp | simp))
qed simp

lemma utf8_len_le: "utf8_len bs \<le> length bs"
proof (cases bs)
  case (Cons b bs')
  then show ?thesis
    using utf8_len_cases [of b bs'] by (cases "b < 128") (auto simp: utf8_len_ascii utf8_tail_def)
qed simp

lemma utf8_valid_append: "utf8_valid s \<Longrightarrow> utf8_valid t \<Longrightarrow> utf8_valid (s @ t)"
proof (induction s rule: utf8_valid.induct)
  case (2 c cs)
  let ?n = "utf8_len (map of_char (c # cs))"
  have n: "?n \<noteq> 0" and valid: "utf8_valid (drop ?n (c # cs))"
    using 2(2) by (simp_all add: utf8_valid.simps(2) Let_def split: if_splits)
  have "utf8_len (map of_char (c # cs @ t)) = ?n"
    using utf8_len_append [OF n, of "map of_char t"] by simp
  moreover have "?n \<le> length (c # cs)"
    using utf8_len_le [of "map of_char (c # cs)"] by simp
  then have "drop ?n (c # cs @ t) = drop ?n (c # cs) @ t"
    using drop_append [of ?n "c # cs" t] by simp
  ultimately show ?case
    using 2(1) [OF refl n valid 2(3)] n by (simp add: utf8_valid.simps(2) Let_def)
qed simp

lemma utf8_valid_concat: "list_all utf8_valid ss \<Longrightarrow> utf8_valid (concat ss)"
  by (induction ss) (simp_all add: utf8_valid_append)

lemma utf8_valid_decimal: "utf8_valid (go_decimal w)"
proof -
  have "list_all (\<lambda>c. of_char c < (128::nat)) (nat_decimal n)" for n
    using nat_decimal_digits [of n] by (auto simp: list_all_iff is_digit_def)
  then show ?thesis
    by (intro utf8_valid_ascii) (simp add: go_decimal_def int_decimal_def)
qed

lemma utf8_valid_dash: "utf8_valid em_dash" "utf8_valid bullet"
  by (simp_all add: em_dash_def bullet_def utf8_valid.simps utf8_len.simps utf8_cont_def)

lemma utf8_valid_literals:
  "utf8_valid '':white_check_mark: DriftCheck *''" "utf8_valid ''*: drift resolved ''"
  "utf8_valid '' all resources match desired state.''" "utf8_valid '':rotating_light: DriftCheck *''"
  "utf8_valid ''*: drift detected ''" "utf8_valid '' ''" "utf8_valid '' changed, ''" "utf8_valid '' new, ''"
  "utf8_valid '' deleted.''" "utf8_valid ''/''" "utf8_valid '' [''" "utf8_valid ''] ''"
  "utf8_valid [char_of (10::nat)]"
  by (intro utf8_valid_ascii; simp)+

lemmas utf8_valid_parts = utf8_valid_append utf8_valid_decimal utf8_valid_dash utf8_valid_literals

lemma qualified_name_utf8: "utf8_valid n \<Longrightarrow> utf8_valid m \<Longrightarrow> utf8_valid (qualified_name n m)"
  unfolding qualified_name_def by (rule if_splits(1) [THEN iffD2]) (intro conjI impI utf8_valid_parts)

lemma slack_line_utf8:
  assumes "resource_utf8 r"
  shows "utf8_valid (slack_line r)"
proof -
  have parts: "utf8_valid (nr_status r)" "utf8_valid (nr_kind r)" "utf8_valid (nr_name r)" "utf8_valid (nr_namespace r)"
    using assms by (simp_all add: resource_utf8_def)
  have "utf8_valid ([char_of (10::nat)] @ bullet @ '' ['' @ nr_status r @ ''] '' @ nr_kind r @ '' ''
      @ qualified_name (nr_namespace r) (nr_name r))"
    by (intro utf8_valid_parts qualified_name_utf8 parts)
  then show ?thesis
    by (simp add: slack_line_def)
qed

lemma slackText_utf8:
  assumes "event_utf8 ev"
  shows "utf8_valid (slackText ev)"
proof -
  have parts: "utf8_valid (ev_name ev)" "utf8_valid (ev_namespace ev)"
      "utf8_valid (concat (map slack_line (ev_drifted ev)))"
    using assms by (auto simp: event_utf8_def list_all_iff slack_line_utf8 intro: utf8_valid_concat)
  show ?thesis
    unfolding slackText_def Let_def
    by (cases "ev_resolved ev"; simp only: if_True if_False)
      (intro utf8_valid_parts qualified_name_utf8 parts)+
qed

subsection \<open>What the receiver reads\<close>

text \<open>
  C24: What a webhook's receiver reads is what was sent, for both types. Parsing the payload as JSON, the
  receiver of a generic webhook, taking the fields by name and absent ones as empty, gets back the whole
  event: name, namespace, summary, whether the drift is resolved, and every drifted resource in order.
  Slack gets an object with the one field \<open>text\<close>, the message byte for byte. Any other type is refused
  before anything is sent.
\<close>
theorem payload_roundtrip:
  assumes "event_utf8 ev"
  shows "case payload t ev of
      Inl err \<Rightarrow> t \<notin> {Slack, Generic, []}
    | Inr body \<Rightarrow> \<exists>j. json_parse body = Some j \<and>
        (if t = Slack then j = JObject [(''text'', JString (slackText ev))]
         else t \<in> {Generic, []} \<and> event_of_json j = ev)"
proof -
  have "to_utf8 ''text'' = ''text''"
    by (intro to_utf8_valid utf8_valid_ascii) simp
  then have "json_utf8 (JObject [(''text'', JString (slackText ev))]) = JObject [(''text'', JString (slackText ev))]"
    using to_utf8_valid [OF slackText_utf8 [OF assms]] by simp
  then show ?thesis
    using event_of_json_roundtrip [OF assms]
    by (simp add: payload_def json_parse_marshal Slack_def Generic_def del: marshal.simps)
qed

definition ex_event :: Event where
  "ex_event =
     \<lparr>ev_name = ''web'', ev_namespace = [],
      ev_summary = \<lparr>nsum_changed = 1, nsum_new = 0, nsum_deleted = 0, nsum_unchanged = 12\<rparr>,
      ev_drifted = [\<lparr>nr_apiVersion = ''v1'', nr_kind = ''ConfigMap'', nr_name = ''a<b'', nr_namespace = ''apps'',
                     nr_status = ''changed''\<rparr>],
      ev_resolved = False\<rparr>"

theorem payload_roundtrip_witness:
  "(\<exists>body j. payload Generic ex_event = Inr body \<and> json_parse body = Some j \<and> event_of_json j = ex_event)
   \<and> (\<exists>body. payload Slack ex_event = Inr body
        \<and> json_parse body = Some (JObject [(''text'', JString (slackText ex_event))]))"
proof -
  have "event_utf8 ex_event"
    by (simp add: event_utf8_def resource_utf8_def ex_event_def utf8_valid_ascii)
  note sent = payload_roundtrip [OF this]
  have "Generic \<noteq> Slack" "payload Generic ex_event \<noteq> Inl err" "payload Slack ex_event \<noteq> Inl err" for err
    by (simp_all add: payload_def Generic_def Slack_def)
  then show ?thesis
    using sent [of Generic] sent [of Slack] by (auto split: sum.splits if_splits)
qed

end
