(* ===== verification/Merge_Heap.thy ===== *)
theory Merge_Heap
  imports Helm_Values
begin

text \<open>
  \<open>mergeValues\<close> of \<open>internal/source/helm.go\<close> as it runs: maps are references to cells that assignments
  change in place, and a nested map of the source becomes part of the destination without a copy.
  The comment on it asks for freshly parsed maps; under that contract the merge on references has
  the result of the merge of values in \<open>Helm_Values\<close>.
\<close>

subsection \<open>Maps as references\<close>

text \<open>A map is nil or the index of a cell. What is not a map is never changed in place.\<close>

type_synonym mref = "nat option"

datatype hvalue =
    HMap mref
  | HLeaf gvalue

type_synonym hmap = "(string \<times> hvalue) list"

type_synonym vheap = "hmap list"

definition entries :: "vheap \<Rightarrow> mref \<Rightarrow> hmap" where
  "entries h r = (case r of None \<Rightarrow> [] | Some a \<Rightarrow> h ! a)"

definition make_map :: "vheap \<Rightarrow> nat \<times> vheap" where
  "make_map h = (length h, h @ [[]])"

definition assign :: "nat \<Rightarrow> string \<Rightarrow> hvalue \<Rightarrow> vheap \<Rightarrow> vheap" where
  "assign a k v h = h[a := AList.update k v (h ! a)]"

text \<open>
  The recursion follows the heap, which may be cyclic, so it has fuel: the depth of the recursion.
  \<open>merge_range\<close> is the loop over the keys of \<open>src\<close>; each key is looked up when its turn comes.
\<close>

fun mergeValues_at :: "nat \<Rightarrow> mref \<Rightarrow> mref \<Rightarrow> vheap \<Rightarrow> (nat \<times> vheap) option"
  and merge_range :: "nat \<Rightarrow> nat \<Rightarrow> mref \<Rightarrow> string list \<Rightarrow> vheap \<Rightarrow> vheap option" where
  "mergeValues_at 0 dst src h = None"
| "mergeValues_at (Suc n) dst src h =
     (case (case dst of None \<Rightarrow> make_map h | Some a \<Rightarrow> (a, h)) of
        (d, h1) \<Rightarrow> map_option (\<lambda>h2. (d, h2)) (merge_range n d src (map fst (entries h1 src)) h1))"
| "merge_range n d src [] h = Some h"
| "merge_range n d src (k # ks) h =
     (case map_of (entries h src) k of
        None \<Rightarrow> merge_range n d src ks h
      | Some (HMap s) \<Rightarrow>
          (case map_of (h ! d) k of
             Some (HMap d') \<Rightarrow>
               (case mergeValues_at n d' s h of
                  None \<Rightarrow> None
                | Some (r, h1) \<Rightarrow> merge_range n d src ks (assign d k (HMap (Some r)) h1))
           | _ \<Rightarrow> merge_range n d src ks (assign d k (HMap s) h))
      | Some (HLeaf g) \<Rightarrow> merge_range n d src ks (assign d k (HLeaf g) h))"

subsection \<open>What a reference holds\<close>

text \<open>
  \<open>holds h v g F\<close>: the reference or leaf \<open>v\<close> holds the value \<open>g\<close> in \<open>h\<close>, a tree whose maps are the cells
  \<open>F\<close>. \<open>G\<close> gives the cells below each key; different keys share none.
\<close>

definition apart :: "(string \<Rightarrow> nat set) \<Rightarrow> vmap \<Rightarrow> bool" where
  "apart G m \<longleftrightarrow> (\<forall>k. k \<notin> fst ` set m \<longrightarrow> G k = {}) \<and> (\<forall>k k'. k \<noteq> k' \<longrightarrow> G k \<inter> G k' = {})"

inductive holds :: "vheap \<Rightarrow> hvalue \<Rightarrow> gvalue \<Rightarrow> nat set \<Rightarrow> bool" for h where
  leaf: "\<not> is_map g \<Longrightarrow> holds h (HLeaf g) g {}"
| nil: "holds h (HMap None) (VMap []) {}"
| cell: "a < length h \<Longrightarrow>
    list_all2 (\<lambda>e f. fst e = fst f \<and> holds h (snd e) (snd f) (G (fst f))) (h ! a) m \<Longrightarrow>
    gomap_wf m \<Longrightarrow> apart G m \<Longrightarrow> (\<forall>k. a \<notin> G k) \<Longrightarrow>
    holds h (HMap (Some a)) (VMap m) (insert a (\<Union>k. G k))"

inductive_cases holds_leafE: "holds h (HLeaf g') g F"
inductive_cases holds_nilE: "holds h (HMap None) g F"
inductive_cases holds_cellE: "holds h (HMap (Some a)) g F"

abbreviation holds_entries :: "vheap \<Rightarrow> (string \<Rightarrow> nat set) \<Rightarrow> hmap \<Rightarrow> vmap \<Rightarrow> bool" where
  "holds_entries h G \<equiv> list_all2 (\<lambda>e f. fst e = fst f \<and> holds h (snd e) (snd f) (G (fst f)))"

lemma holds_map: "holds h (HMap r) g F \<Longrightarrow> \<exists>m. g = VMap m"
  by (cases r) (auto elim: holds_nilE holds_cellE)

lemma holds_bound: "holds h v g F \<Longrightarrow> F \<subseteq> {..<length h}"
proof (induction rule: holds.induct)
  case (cell a G m)
  have "G k \<subseteq> {..<length h}" for k
  proof (cases "k \<in> fst ` set m")
    case True
    then obtain i where i: "i < length m" "fst (m ! i) = k"
      by (auto simp: in_set_conv_nth)
    then show ?thesis
      using list_all2_nthD2 [OF cell.IH i(1)] by auto
  next
    case False
    then show ?thesis
      using cell.hyps by (simp add: apart_def)
  qed
  then show ?case
    using cell.hyps(1) by auto
qed auto

text \<open>Values are not affected by changes elsewhere.\<close>

definition same_but :: "nat set \<Rightarrow> vheap \<Rightarrow> vheap \<Rightarrow> bool" where
  "same_but F h h' \<longleftrightarrow> length h \<le> length h' \<and> (\<forall>a < length h. a \<notin> F \<longrightarrow> h' ! a = h ! a)"

lemma same_but_refl [simp]: "same_but F h h"
  by (simp add: same_but_def)

lemma same_but_trans: "same_but F h h1 \<Longrightarrow> same_but F' h1 h2 \<Longrightarrow> same_but (F \<union> F') h h2"
  by (auto simp: same_but_def)

lemma same_but_mono:
  "same_but F h h' \<Longrightarrow> F \<inter> {..<length h} \<subseteq> F' \<Longrightarrow> same_but F' h h'"
  by (auto simp: same_but_def)

lemma same_but_assign: "same_but {a} h (assign a k v h)"
  by (simp add: same_but_def assign_def)

lemma length_assign [simp]: "length (assign a k v h) = length h"
  by (simp add: assign_def)

lemma holds_frame: "holds h v g F \<Longrightarrow> same_but X h h' \<Longrightarrow> X \<inter> F = {} \<Longrightarrow> holds h' v g F"
proof (induction rule: holds.induct)
  case (cell a G m)
  then have "h' ! a = h ! a" "a < length h'"
    by (auto simp: same_but_def)
  moreover have "holds_entries h' G (h ! a) m"
    using cell.IH
  proof (rule list_all2_mono, intro conjI)
    fix e f
    assume "fst e = fst f \<and> holds h (snd e) (snd f) (G (fst f))
        \<and> (same_but X h h' \<longrightarrow> X \<inter> G (fst f) = {} \<longrightarrow> holds h' (snd e) (snd f) (G (fst f)))"
    then show "holds h' (snd e) (snd f) (G (fst f))"
      using cell.prems by blast
  qed blast
  ultimately show ?case
    using cell.hyps by (intro holds.cell) simp_all
qed (auto intro: holds.intros)

subsection \<open>Entries of a cell\<close>

lemma holds_entries_lookup:
  assumes "holds_entries h G es m" "map_of m k = Some g"
  obtains v where "map_of es k = Some v" "holds h v g (G k)"
proof -
  have "\<exists>v. map_of es k = Some v \<and> holds h v g (G k)"
    using assms by (induction es m rule: list_all2_induct) (auto split: if_splits)
  then show ?thesis
    using that by blast
qed

lemma holds_entries_keys: "holds_entries h G es m \<Longrightarrow> map fst es = map fst m"
  by (induction es m rule: list_all2_induct) simp_all

lemma holds_entries_none:
  assumes "holds_entries h G es m"
  shows "map_of m k = None \<longleftrightarrow> map_of es k = None"
proof -
  have "fst ` set es = fst ` set m"
    using holds_entries_keys [OF assms] by (metis list.set_map)
  then show ?thesis
    by (simp add: map_of_eq_None_iff)
qed

lemma holds_entries_cong:
  assumes "holds_entries h G es m"
    and "\<And>k v g. k \<in> fst ` set m \<Longrightarrow> holds h v g (G k) \<Longrightarrow> holds h' v g (G' k)"
  shows "holds_entries h' G' es m"
  using assms by (induction es m rule: list_all2_induct) auto

text \<open>An assignment replaces the value and the cells of one key.\<close>

lemma holds_entries_update:
  assumes "holds_entries h G es m" "gomap_wf m" "holds h' v g F"
    and "\<And>k' v g. k' \<noteq> k \<Longrightarrow> holds h v g (G k') \<Longrightarrow> holds h' v g (G k')"
  shows "holds_entries h' (G(k := F)) (AList.update k v es) (AList.update k g m)"
  using assms(1,2)
proof (induction es m rule: list_all2_induct)
  case Nil
  then show ?case
    using assms(3) by simp
next
  case (Cons e es f m)
  obtain k' g' where f: "f = (k', g')"
    by (cases f)
  obtain v' where e: "e = (k', v')" "holds h v' g' (G k')"
    using Cons.hyps(1) f by (cases e) simp
  show ?case
  proof (cases "k' = k")
    case True
    then have "k \<notin> fst ` set m"
      using Cons.prems f by simp
    have "holds_entries h' (G(k := F)) es m"
      by (rule holds_entries_cong [OF Cons.hyps(2)]) (use \<open>k \<notin> fst ` set m\<close> assms(4) in auto)
    then show ?thesis
      using True e f assms(3) by simp
  next
    case False
    then show ?thesis
      using Cons.IH Cons.prems e f assms(4) by simp
  qed
qed

lemma gomap_wf_update: "gomap_wf m \<Longrightarrow> gomap_wf (AList.update k v m)"
  using distinct_update [of m k v] by (simp add: gomap_wf_def)

lemma apart_update:
  assumes "apart G m" "\<And>k'. k' \<noteq> k \<Longrightarrow> F \<inter> G k' = {}"
  shows "apart (G(k := F)) (AList.update k g m)"
  using assms unfolding apart_def dom_update by auto

text \<open>A cell that holds a map, with the cells below each key.\<close>

definition node :: "vheap \<Rightarrow> nat \<Rightarrow> vmap \<Rightarrow> (string \<Rightarrow> nat set) \<Rightarrow> bool" where
  "node h d m G \<longleftrightarrow>
     d < length h \<and> holds_entries h G (h ! d) m \<and> gomap_wf m \<and> apart G m \<and> (\<forall>k. d \<notin> G k)"

lemma holds_node: "holds h (HMap (Some d)) (VMap m) F \<longleftrightarrow> (\<exists>G. node h d m G \<and> F = insert d (\<Union>k. G k))"
  unfolding node_def by (auto elim!: holds_cellE intro: holds.cell)

lemma node_bound:
  assumes "node h d m G"
  shows "G k \<subseteq> {..<length h}"
proof -
  have "holds h (HMap (Some d)) (VMap m) (insert d (\<Union>k. G k))"
    using assms holds_node by blast
  from holds_bound [OF this] show ?thesis
    by blast
qed

lemma node_assign:
  assumes "node h d m G" "same_but (G k) h h1" "holds h1 v g F" "d \<notin> F"
    and "\<And>k'. k' \<noteq> k \<Longrightarrow> F \<inter> G k' = {}"
  shows "node (assign d k v h1) d (AList.update k g m) (G(k := F))"
proof -
  have d: "h1 ! d = h ! d" "d < length h1"
    using assms(1,2) by (auto simp: node_def same_but_def)
  have "holds (assign d k v h1) v g F"
    by (rule holds_frame [OF assms(3) same_but_assign]) (use assms(4) in simp)
  moreover have "holds (assign d k v h1) v' g' (G k')" if "k' \<noteq> k" "holds h v' g' (G k')" for k' v' g'
  proof (rule holds_frame [OF that(2) same_but_trans [OF assms(2) same_but_assign]])
    show "(G k \<union> {d}) \<inter> G k' = {}"
      using assms(1) that(1) by (simp add: node_def apart_def Int_Un_distrib2)
  qed
  ultimately have "holds_entries (assign d k v h1) (G(k := F)) (AList.update k v (h ! d)) (AList.update k g m)"
    using assms(1) by (intro holds_entries_update [of h G "h ! d" m]) (simp_all add: node_def)
  moreover have "assign d k v h1 ! d = AList.update k v (h ! d)"
    using d by (simp add: assign_def)
  ultimately show ?thesis
    using assms(1,4,5) d(2) unfolding node_def by (intro conjI) (simp_all add: gomap_wf_update apart_update)
qed

subsection \<open>The merge on references\<close>

text \<open>
  What the merge of \<open>sm\<close>, in the cells \<open>Fs\<close>, into \<open>dm\<close>, in the cells \<open>Fd\<close>, yields: it ends, in the
  destination, with the merged value; it changes cells of the destination only.
\<close>

definition merges :: "nat \<Rightarrow> mref \<Rightarrow> mref \<Rightarrow> vmap \<Rightarrow> vmap \<Rightarrow> nat set \<Rightarrow> nat set \<Rightarrow> vheap \<Rightarrow> bool" where
  "merges n dst src dm sm Fd Fs h \<longleftrightarrow>
     (\<exists>r h' F. mergeValues_at n dst src h = Some (r, h') \<and> (\<forall>a. dst = Some a \<longrightarrow> r = a)
        \<and> holds h' (HMap (Some r)) (VMap (mergeValues dm sm)) F
        \<and> F \<subseteq> Fd \<union> Fs \<union> {length h..} \<and> same_but Fd h h')"

text \<open>One round of the loop: what is assigned, and after which changes.\<close>

lemma merge_round:
  assumes "node h d dm G" "map_of (entries h src) k = Some v" "holds h v g S" "G k \<inter> S = {}"
    and "\<And>d' s a b. v = HMap s \<Longrightarrow> g = VMap b \<Longrightarrow> holds h (HMap d') (VMap a) (G k) \<Longrightarrow>
      merges n d' s a b (G k) S h"
  obtains v1 h1 F where "merge_range n d src (k # ks) h = merge_range n d src ks (assign d k v1 h1)"
    "same_but (G k) h h1" "holds h1 v1 (the (merged_value (map_of dm k) (Some g))) F"
    "F \<subseteq> G k \<union> S \<union> {length h..}"
proof (cases v)
  case (HLeaf g')
  then have "g' = g" "\<not> is_map g" "S = {}"
    using assms(3) by (auto elim: holds_leafE)
  then show ?thesis
    using that [of v h "{}"] assms(2,3) HLeaf by (cases g; cases "map_of dm k") auto
next
  case (HMap s)
  then obtain b where b: "g = VMap b"
    using assms(3) holds_map by blast
  have entries: "holds_entries h G (h ! d) dm"
    using assms(1) by (simp add: node_def)
  have sub: "S \<subseteq> G k \<union> S \<union> {length h..}"
    by blast
  show ?thesis
  proof (cases "map_of dm k")
    case None
    then have "map_of (h ! d) k = None"
      using holds_entries_none [OF entries] by simp
    then show ?thesis
      using that [of v h S] assms(2,3) HMap b None sub by simp
  next
    case (Some g0)
    obtain v0 where v0: "map_of (h ! d) k = Some v0" "holds h v0 g0 (G k)"
      by (rule holds_entries_lookup [OF entries Some])
    show ?thesis
    proof (cases v0)
      case (HLeaf g1)
      then have "\<not> is_map g0"
        using v0(2) by (auto elim: holds_leafE)
      then have "merged_value (map_of dm k) (Some g) = Some g"
        using Some by (cases g0) simp_all
      then show ?thesis
        using that [of v h S] assms(2,3) \<open>v = HMap s\<close> HLeaf v0(1) sub by simp
    next
      case (HMap d')
      then obtain a where a: "g0 = VMap a" "holds h (HMap d') (VMap a) (G k)"
        using v0(2) holds_map by blast
      obtain r h1 F where "mergeValues_at n d' s h = Some (r, h1)"
          "holds h1 (HMap (Some r)) (VMap (mergeValues a b)) F"
          "F \<subseteq> G k \<union> S \<union> {length h..}" "same_but (G k) h h1"
        using assms(5) [OF \<open>v = HMap s\<close> b a(2)] unfolding merges_def by blast
      then show ?thesis
        using that [of "HMap (Some r)" h1 F] assms(2) \<open>v = HMap s\<close> HMap v0(1) Some a(1) b by simp
    qed
  qed
qed

definition merges_below :: "nat \<Rightarrow> gvalue \<Rightarrow> bool" where
  "merges_below n g \<longleftrightarrow>
     (\<forall>b h d s a F Fs. g = VMap b \<longrightarrow> holds h (HMap d) (VMap a) F \<longrightarrow> holds h (HMap s) (VMap b) Fs \<longrightarrow>
        F \<inter> Fs = {} \<longrightarrow> merges n d s a b F Fs h)"

text \<open>
  The loop between two rounds: the entries \<open>pre\<close> of the source are merged, \<open>es\<close> are not; what \<open>es\<close> hold,
  in the cells \<open>S\<close>, is \<open>sm\<close> and shares nothing with the destination, whose entries hold the cells \<open>G\<close>.
\<close>

definition ranging ::
    "vheap \<Rightarrow> nat \<Rightarrow> mref \<Rightarrow> hmap \<Rightarrow> hmap \<Rightarrow> vmap \<Rightarrow> (string \<Rightarrow> nat set) \<Rightarrow> (string \<Rightarrow> nat set) \<Rightarrow> bool" where
  "ranging h d src pre es sm G S \<longleftrightarrow>
     entries h src = pre @ es \<and> distinct (map fst (pre @ es)) \<and> holds_entries h S es sm \<and> apart S sm
     \<and> (\<forall>k. S k \<subseteq> {..<length h}) \<and> (\<forall>k k'. G k \<inter> S k' = {}) \<and> (\<forall>k. d \<notin> S k)
     \<and> (\<forall>s. src = Some s \<longrightarrow> s < length h \<and> s \<noteq> d \<and> (\<forall>k. s \<notin> G k \<and> s \<notin> S k))"

lemma ranging_keys:
  assumes "ranging h d src pre ((k, v) # es) ((k, g) # sm) G S"
  shows "k \<notin> fst ` set sm" "map_of (entries h src) k = Some v"
proof -
  have keys: "k \<notin> fst ` set es" "k \<notin> fst ` set pre" "holds_entries h S es sm"
    using assms by (auto simp: ranging_def)
  show "k \<notin> fst ` set sm"
    using keys(1) holds_entries_keys [OF keys(3)] by (metis list.set_map)
  show "map_of (entries h src) k = Some v"
    using assms keys(2) by (simp add: ranging_def map_add_def map_of_eq_None_iff [THEN iffD2])
qed

lemma ranging_step:
  assumes "ranging h d src pre ((k, v) # es) ((k, g) # sm) G S"
    and "same_but (insert d (G k)) h h'" "F \<subseteq> G k \<union> S k \<union> {length h..}"
  shows "ranging h' d src (pre @ [(k, v)]) es sm (G(k := F)) (S(k := {}))"
proof -
  note r = assms(1) [unfolded ranging_def]
  have len: "length h \<le> length h'"
    using assms(2) by (simp add: same_but_def)
  have "F \<inter> S k' = {}" if "k' \<noteq> k" for k'
  proof -
    have "S k \<inter> S k' = {}" "S k' \<subseteq> {..<length h}" "G k \<inter> S k' = {}"
      using r that by (simp_all add: apart_def)
    then show ?thesis
      using assms(3) by fastforce
  qed
  moreover have "entries h' src = entries h src"
    using r assms(2) by (cases src) (simp_all add: entries_def same_but_def)
  moreover have "holds_entries h' (S(k := {})) es sm"
  proof (rule holds_entries_cong)
    show "holds_entries h S es sm"
      using r by simp
    fix k' v' g'
    assume "k' \<in> fst ` set sm" "holds h v' g' (S k')"
    moreover have "insert d (G k) \<inter> S k' = {}"
      using r by simp
    ultimately show "holds h' v' g' ((S(k := {})) k')"
      using ranging_keys(1) [OF assms(1)] holds_frame [OF _ assms(2)] by auto
  qed
  moreover have "S k' \<subseteq> {..<length h'}" for k'
    using r len by (meson lessThan_subset_iff order_trans)
  moreover have "s < length h' \<and> s \<notin> F" if "src = Some s" for s
    using r that subsetD [OF assms(3), of s] len by fastforce
  ultimately show ?thesis
    using r unfolding ranging_def by (auto simp: apart_def)
qed

lemma merge_range_round:
  assumes "node h d dm G" "ranging h d src pre ((k, v) # es) ((k, g) # sm) G S" "merges_below n g"
  obtains h1 F where "merge_range n d src (k # map fst es) h = merge_range n d src (map fst es) h1"
    "node h1 d (AList.update k (the (merged_value (map_of dm k) (Some g))) dm) (G(k := F))"
    "same_but (insert d (G k)) h h1" "F \<subseteq> G k \<union> S k \<union> {length h..}"
proof -
  note r = assms(2) [unfolded ranging_def]
  have v: "holds h v g (S k)" "G k \<inter> S k = {}"
    using r by simp_all
  have nested: "merges n d' s a b (G k) (S k) h"
    if "v = HMap s" "g = VMap b" "holds h (HMap d') (VMap a) (G k)" for d' s a b
    using assms(3) that v by (simp add: merges_below_def)
  obtain v1 h1 F where round: "merge_range n d src (k # map fst es) h
        = merge_range n d src (map fst es) (assign d k v1 h1)"
      "same_but (G k) h h1" "holds h1 v1 (the (merged_value (map_of dm k) (Some g))) F"
      "F \<subseteq> G k \<union> S k \<union> {length h..}"
    by (rule merge_round [OF assms(1) ranging_keys(2) [OF assms(2)] v nested])
  have d: "d < length h" "\<And>k. d \<notin> G k" "\<And>k. G k \<subseteq> {..<length h}" "\<And>k' k''. k' \<noteq> k'' \<Longrightarrow> G k' \<inter> G k'' = {}"
    using assms(1) node_bound [OF assms(1)] by (auto simp: node_def apart_def)
  have "d \<notin> F"
    using subsetD [OF round(4), of d] d(1,2) r by auto
  moreover have "F \<inter> G k' = {}" if "k' \<noteq> k" for k'
    using round(4) d(3) [of k'] d(4) [OF that] r by fastforce
  ultimately have "node (assign d k v1 h1) d (AList.update k (the (merged_value (map_of dm k) (Some g))) dm) (G(k := F))"
    by (rule node_assign [OF assms(1) round(2,3)])
  moreover have "same_but (insert d (G k)) h (assign d k v1 h1)"
    using same_but_trans [OF round(2) same_but_assign] by simp
  ultimately show ?thesis
    using that round(1,4) by blast
qed

lemma merge_range_holds:
  assumes "node h d dm G" "ranging h d src pre es sm G S" "\<forall>(k, g) \<in> set sm. merges_below n g"
  shows "\<exists>h' G'. merge_range n d src (map fst es) h = Some h' \<and> node h' d (mergeValues dm sm) G'
    \<and> (\<forall>k. G' k \<subseteq> G k \<union> S k \<union> {length h..}) \<and> same_but (insert d (\<Union>k \<in> fst ` set sm. G k)) h h'"
  using assms
proof (induction sm arbitrary: h dm G S pre es)
  case Nil
  then show ?case
    by (auto simp: ranging_def intro!: exI [of _ h] exI [of _ G])
next
  case (Cons kg sm)
  obtain k g v es' where es: "kg = (k, g)" "es = (k, v) # es'"
    using Cons.prems(2) by (cases kg) (auto simp: ranging_def list_all2_Cons2)
  note loop = Cons.prems(2) [unfolded es]
  let ?m = "AList.update k (the (merged_value (map_of dm k) (Some g))) dm"
  obtain h1 F where round: "merge_range n d src (k # map fst es') h = merge_range n d src (map fst es') h1"
      "node h1 d ?m (G(k := F))" "same_but (insert d (G k)) h h1" "F \<subseteq> G k \<union> S k \<union> {length h..}"
    by (rule merge_range_round [OF Cons.prems(1) loop]) (use Cons.prems(3) es in auto)
  let ?G = "G(k := F)"
  obtain h' G' where rest: "merge_range n d src (map fst es') h1 = Some h'" "node h' d (mergeValues ?m sm) G'"
      "\<forall>k'. G' k' \<subseteq> ?G k' \<union> (S(k := {})) k' \<union> {length h1..}"
      "same_but (insert d (\<Union>k \<in> fst ` set sm. ?G k)) h1 h'"
    using Cons.IH [OF round(2) ranging_step [OF loop round(3,4)]] Cons.prems(3) by auto
  have "length h \<le> length h1"
    using round(3) by (simp add: same_but_def)
  then have "G' k' \<subseteq> G k' \<union> S k' \<union> {length h..}" for k'
    using rest(3) [rule_format, of k'] round(4) by (cases "k' = k") auto
  moreover have "insert d (G k) \<union> insert d (\<Union>k \<in> fst ` set sm. ?G k) = insert d (\<Union>k \<in> fst ` set (kg # sm). G k)"
    using ranging_keys(1) [OF loop] es(1) by auto
  then have "same_but (insert d (\<Union>k \<in> fst ` set (kg # sm). G k)) h h'"
    using same_but_trans [OF round(3) rest(4)] by simp
  ultimately show ?case
    using round(1) rest(1,2) es by (intro exI [of _ h'] exI [of _ G']) (simp add: mergeValues_Cons)
qed

lemma size_nested: "(k, g) \<in> set sm \<Longrightarrow> size g < size (VMap sm)"
  by (induction sm) auto

lemma holds_nil: "holds h (HMap None) (VMap m) F \<longleftrightarrow> m = [] \<and> F = {}"
  by (auto elim: holds_nilE intro: holds.nil)

text \<open>Both sides when the call has replaced a nil destination.\<close>

definition started :: "mref \<Rightarrow> vheap \<Rightarrow> nat \<times> vheap" where
  "started dst h = (case dst of None \<Rightarrow> make_map h | Some a \<Rightarrow> (a, h))"

lemma started_node:
  assumes "holds h (HMap dst) (VMap dm) Fd" "Fs \<subseteq> {..<length h}" "Fd \<inter> Fs = {}" "started dst h = (d, h0)"
  obtains G where "node h0 d dm G" "insert d (\<Union>k. G k) \<subseteq> Fd \<union> {length h..}" "insert d (\<Union>k. G k) \<inter> Fs = {}"
    "same_but {} h h0"
proof (cases dst)
  case None
  then have "d = length h" "h0 = h @ [[]]" "dm = []"
    using assms(1,4) holds_nil by (simp_all add: started_def make_map_def)
  then show ?thesis
    using assms(2) by (intro that [of "\<lambda>k. {}"]) (auto simp: node_def apart_def same_but_def nth_append)
next
  case (Some a)
  then have "d = a" "h0 = h"
    using assms(4) by (simp_all add: started_def)
  moreover obtain G where "node h a dm G" "Fd = insert a (\<Union>k. G k)"
    using assms(1) Some by (auto simp: holds_node)
  ultimately show ?thesis
    using assms(3) by (intro that [of G]) (auto simp: same_but_def)
qed

lemma started_ranging:
  assumes "holds h (HMap src) (VMap sm) Fs" "insert d (\<Union>k. G k) \<inter> Fs = {}"
  obtains S where "ranging h d src [] (entries h src) sm G S" "\<forall>k. S k \<subseteq> Fs"
proof (cases src)
  case None
  then show ?thesis
    using assms by (intro that [of "\<lambda>k. {}"]) (simp_all add: holds_nil entries_def apart_def ranging_def)
next
  case (Some s)
  then obtain S where S: "node h s sm S" "Fs = insert s (\<Union>k. S k)"
    using assms(1) holds_node by blast
  have "distinct (map fst (h ! s))"
    using S(1) holds_entries_keys [of h S "h ! s" sm] by (simp add: node_def gomap_wf_def)
  moreover have "S k \<subseteq> {..<length h}" for k
    by (rule node_bound [OF S(1)])
  moreover have "G k \<inter> S k' = {}" for k k'
    using assms(2) S(2) by blast
  ultimately have "ranging h d src [] (entries h src) sm G S"
    using S Some assms(2) unfolding ranging_def by (intro conjI) (auto simp: node_def entries_def)
  then show ?thesis
    using that S(2) by blast
qed

lemma mergeValues_at_merges: "size g \<le> n \<Longrightarrow> merges_below n g"
proof (induction n arbitrary: g)
  case 0
  then show ?case
    by (auto simp: merges_below_def)
next
  case (Suc n)
  have "merges (Suc n) dst src dm sm Fd Fs h"
    if g: "g = VMap sm" and dst: "holds h (HMap dst) (VMap dm) Fd"
      and src: "holds h (HMap src) (VMap sm) Fs" and disj: "Fd \<inter> Fs = {}" for sm h dst src dm Fd Fs
  proof -
    have below: "\<forall>(k, g) \<in> set sm. merges_below n g"
      using Suc.IH Suc.prems size_nested unfolding g by fastforce
    obtain d h0 where start: "started dst h = (d, h0)"
      by fastforce
    obtain G where G: "node h0 d dm G" "insert d (\<Union>k. G k) \<subseteq> Fd \<union> {length h..}"
        "insert d (\<Union>k. G k) \<inter> Fs = {}" "same_but {} h h0"
      by (rule started_node [OF dst holds_bound [OF src] disj start])
    have "holds h0 (HMap src) (VMap sm) Fs"
      by (rule holds_frame [OF src G(4)]) simp
    then obtain S where S: "ranging h0 d src [] (entries h0 src) sm G S" "\<forall>k. S k \<subseteq> Fs"
      by (rule started_ranging [OF _ G(3)])
    obtain h' G' where run: "merge_range n d src (map fst (entries h0 src)) h0 = Some h'"
        "node h' d (mergeValues dm sm) G'" "\<forall>k. G' k \<subseteq> G k \<union> S k \<union> {length h0..}"
        "same_but (insert d (\<Union>k \<in> fst ` set sm. G k)) h0 h'"
      using merge_range_holds [OF G(1) S(1) below] by blast
    have "same_but ({} \<union> insert d (\<Union>k \<in> fst ` set sm. G k)) h h'"
      by (rule same_but_trans [OF G(4) run(4)])
    then have "same_but Fd h h'"
      by (rule same_but_mono) (use G(2) in fastforce)
    moreover have "insert d (\<Union>k. G' k) \<subseteq> Fd \<union> Fs \<union> {length h..}"
      using run(3) G(2,4) S(2) by (fastforce simp: same_but_def)
    moreover have "holds h' (HMap (Some d)) (VMap (mergeValues dm sm)) (insert d (\<Union>k. G' k))"
      using run(2) holds_node by blast
    moreover have "mergeValues_at (Suc n) dst src h = Some (d, h')"
      using run(1) start by (simp add: started_def)
    moreover have "\<forall>a. dst = Some a \<longrightarrow> d = a"
      using start by (auto simp: started_def)
    ultimately show ?thesis
      unfolding merges_def by blast
  qed
  then show ?case
    unfolding merges_below_def by blast
qed

subsection \<open>Layers of values\<close>

text \<open>
  What \<open>renderHelmChart\<close> does with its layers of values: each is parsed when its turn comes and merged
  into the one map of all values. A parser is a function on the heap; \<open>chartutil.ReadValues\<close> returns
  maps of its own, so what it yields is fresh. Layers that cannot be read or parsed end \<open>renderHelmChart\<close>
  with an error before their merge; those branches are in \<open>Helm_Source\<close>.
\<close>

type_synonym parse = "vheap \<Rightarrow> mref \<times> vheap"

definition fresh_parse :: "parse \<Rightarrow> vmap \<Rightarrow> bool" where
  "fresh_parse p m \<longleftrightarrow>
     (\<forall>h. \<exists>F. holds (snd (p h)) (HMap (fst (p h))) (VMap m) F \<and> F \<subseteq> {length h..}
        \<and> same_but {} h (snd (p h)))"

fun merge_layers :: "nat \<Rightarrow> parse list \<Rightarrow> nat \<Rightarrow> vheap \<Rightarrow> (nat \<times> vheap) option" where
  "merge_layers n [] vals h = Some (vals, h)"
| "merge_layers n (p # ps) vals h =
     (case p h of
        (m, h1) \<Rightarrow>
          (case mergeValues_at n (Some vals) m h1 of
             None \<Rightarrow> None
           | Some (vals', h2) \<Rightarrow> merge_layers n ps vals' h2))"

lemma merge_layers_holds:
  assumes "list_all2 fresh_parse ps ms" "\<forall>m \<in> set ms. size (VMap m) \<le> n"
    and "holds h (HMap (Some d)) (VMap dm) Fd"
  shows "\<exists>h' F. merge_layers n ps d h = Some (d, h')
    \<and> holds h' (HMap (Some d)) (VMap (foldl mergeValues dm ms)) F \<and> same_but Fd h h'"
  using assms
proof (induction ps ms arbitrary: h dm Fd rule: list_all2_induct)
  case (Cons p ps m ms)
  obtain r h1 where p: "p h = (r, h1)"
    by fastforce
  obtain Fs where Fs: "holds h1 (HMap r) (VMap m) Fs" "Fs \<subseteq> {length h..}" "same_but {} h h1"
    using Cons.hyps(1) p unfolding fresh_parse_def by (metis fst_conv snd_conv)
  have dst: "holds h1 (HMap (Some d)) (VMap dm) Fd"
    by (rule holds_frame [OF Cons.prems(2) Fs(3)]) simp
  have "Fd \<subseteq> {..<length h}"
    by (rule holds_bound [OF Cons.prems(2)])
  then have "Fd \<inter> Fs = {}"
    using Fs(2) by fastforce
  moreover have "merges_below n (VMap m)"
    using Cons.prems(1) by (intro mergeValues_at_merges) simp
  ultimately have "merges n (Some d) r dm m Fd Fs h1"
    using dst Fs(1) unfolding merges_below_def by blast
  then obtain h2 F where h2: "mergeValues_at n (Some d) r h1 = Some (d, h2)"
      "holds h2 (HMap (Some d)) (VMap (mergeValues dm m)) F" "F \<subseteq> Fd \<union> Fs \<union> {length h1..}" "same_but Fd h1 h2"
    unfolding merges_def by blast
  obtain h' F' where h': "merge_layers n ps d h2 = Some (d, h')"
      "holds h' (HMap (Some d)) (VMap (foldl mergeValues (mergeValues dm m) ms)) F'" "same_but F h2 h'"
    using Cons.IH [OF _ h2(2)] Cons.prems(1) by auto
  have "same_but ({} \<union> Fd \<union> F) h h'"
    by (rule same_but_trans [OF same_but_trans [OF Fs(3) h2(4)] h'(3)])
  moreover have "F \<inter> {..<length h} \<subseteq> Fd"
    using subsetD [OF h2(3)] subsetD [OF Fs(2)] Fs(3) by (fastforce simp: same_but_def)
  then have "({} \<union> Fd \<union> F) \<inter> {..<length h} \<subseteq> Fd"
    by blast
  ultimately have "same_but Fd h h'"
    by (rule same_but_mono)
  then show ?case
    using p h2(1) h'(1,2) by auto
qed auto

text \<open>
  C33: Merging in place is safe the way \<open>renderHelmChart\<close> does it. With layers that are parsed afresh, the
  merge of references always ends, with any fuel from the size of a layer on; the one map it
  builds holds exactly the merge of the layers as values; and no map that existed before is changed.
\<close>

theorem merge_layers_refines_mergeValues:
  assumes "list_all2 fresh_parse ps ms" "\<forall>m \<in> set ms. size (VMap m) \<le> n"
  shows "\<exists>d h1 h' F. make_map h = (d, h1) \<and> merge_layers n ps d h1 = Some (d, h')
    \<and> holds h' (HMap (Some d)) (VMap (foldl mergeValues [] ms)) F \<and> same_but {} h h'"
proof -
  have "node (h @ [[]]) (length h) [] (\<lambda>k. {})"
    by (simp add: node_def apart_def)
  then have "holds (h @ [[]]) (HMap (Some (length h))) (VMap []) {length h}"
    unfolding holds_node by (intro exI [of _ "\<lambda>k. {}"]) simp
  from merge_layers_holds [OF assms this]
  obtain h' F where h': "merge_layers n ps (length h) (h @ [[]]) = Some (length h, h')"
      "holds h' (HMap (Some (length h))) (VMap (foldl mergeValues [] ms)) F"
      "same_but {length h} (h @ [[]]) h'"
    by blast
  have "same_but ({} \<union> {length h}) h h'"
    by (rule same_but_trans [OF _ h'(3)]) (simp add: same_but_def nth_append)
  then have "same_but {} h h'"
    by (rule same_but_mono) simp
  then show ?thesis
    using h'(1,2) by (auto simp: make_map_def)
qed

text \<open>Two layers that both have a nested map.\<close>

definition ex_parse :: "string \<Rightarrow> parse" where
  "ex_parse tag h = (Some (Suc (length h)),
     h @ [[(''tag'', HLeaf (VStr tag))], [(''image'', HMap (Some (length h)))]])"

lemma ex_parse_fresh: "fresh_parse (ex_parse tag) [(''image'', VMap [(''tag'', VStr tag)])]"
  unfolding fresh_parse_def
proof
  fix h :: vheap
  let ?h = "snd (ex_parse tag h)" and ?n = "length h"
  have cells: "?h ! ?n = [(''tag'', HLeaf (VStr tag))]" "?h ! Suc ?n = [(''image'', HMap (Some ?n))]"
      "length ?h = Suc (Suc ?n)"
    by (simp_all add: ex_parse_def nth_append)
  have "node ?h ?n [(''tag'', VStr tag)] (\<lambda>k. {})"
    using cells by (simp add: node_def apart_def holds.leaf)
  then have "holds ?h (HMap (Some ?n)) (VMap [(''tag'', VStr tag)]) {?n}"
    unfolding holds_node by (intro exI [of _ "\<lambda>k. {}"]) simp
  then have "node ?h (Suc ?n) [(''image'', VMap [(''tag'', VStr tag)])] (\<lambda>k. if k = ''image'' then {?n} else {})"
    using cells by (simp add: node_def apart_def)
  then have "holds ?h (HMap (Some (Suc ?n))) (VMap [(''image'', VMap [(''tag'', VStr tag)])]) {?n, Suc ?n}"
    unfolding holds_node by (intro exI [of _ "\<lambda>k. if k = ''image'' then {?n} else {}"]) auto
  moreover have "same_but {} h ?h"
    by (simp add: same_but_def ex_parse_def nth_append)
  moreover have "fst (ex_parse tag h) = Some (Suc ?n)"
    by (simp add: ex_parse_def)
  ultimately show "\<exists>F. holds ?h (HMap (fst (ex_parse tag h))) (VMap [(''image'', VMap [(''tag'', VStr tag)])]) F
      \<and> F \<subseteq> {?n..} \<and> same_but {} h ?h"
    by (intro exI [of _ "{?n, Suc ?n}"]) simp
qed

theorem merge_layers_refines_mergeValues_witness:
  "\<exists>d h' F. merge_layers 50 [ex_parse ''1'', ex_parse ''2''] 0 [[]] = Some (d, h')
     \<and> holds h' (HMap (Some d)) (VMap [(''image'', VMap [(''tag'', VStr ''2'')])]) F"
proof -
  have "list_all2 fresh_parse [ex_parse ''1'', ex_parse ''2'']
      [[(''image'', VMap [(''tag'', VStr ''1'')])], [(''image'', VMap [(''tag'', VStr ''2'')])]]"
    by (simp add: ex_parse_fresh)
  from merge_layers_refines_mergeValues [OF this, of 50 "[]"] show ?thesis
    by (auto simp: make_map_def mergeValues.simps)
qed

text \<open>
  The contract is needed. A layer that is merged a second time after another one has been overwritten
  by it: below, the cells 1 and 2 are the layer with tag 1, the cells 3 and 4 the one with tag 2.
\<close>

lemma shared_layer_overwritten:
  fixes h :: vheap
  defines "h \<equiv> [[], [(''image'', HMap (Some 2))], [(''tag'', HLeaf (VStr ''1''))],
                    [(''image'', HMap (Some 4))], [(''tag'', HLeaf (VStr ''2''))]]"
  shows "\<exists>h1 h2. mergeValues_at 9 (Some 0) (Some 1) h = Some (0, h1) \<and> mergeValues_at 9 (Some 0) (Some 3) h1 = Some (0, h2)
    \<and> h ! 2 = [(''tag'', HLeaf (VStr ''1''))] \<and> h2 ! 2 = [(''tag'', HLeaf (VStr ''2''))]"
  unfolding h_def by (simp add: eval_nat_numeral entries_def assign_def)

end
