(* ===== verification/Build_Race.thy ===== *)
theory Build_Race
  imports Helm_Source
begin

text \<open>
  The concurrency of \<open>runBuildDeps\<close> (\<open>internal/source/helm.go\<close>): a goroutine runs the dependency
  build and sends its result on a buffered channel, while the caller selects between the result and
  the cancellation of the context. \<open>Helm_Source\<close> has the sequential reading of it; here the two run
  interleaved, one step at a time, and the sequential reading is shown to give the same results.
\<close>

subsection \<open>The state\<close>

text \<open>What the build does: it makes calls, and returns, panics, or hangs for ever.\<close>

datatype script =
    Makes call script
  | Ends build_outcome
  | Hangs

datatype goroutine =
    Building script
  | Sending "error + unit"
  | Finished

text \<open>\<open>Background\<close> is never cancelled; a live context may be, at any moment, with any error.\<close>

datatype context_state =
    Background
  | Live
  | Cancelled error

datatype caller =
    Selecting
  | Back "error + unit"
  | CleanedUp "error + unit"

record race =
  rc_goroutine :: goroutine
  rc_done :: "(error + unit) list"
  rc_ctx :: context_state
  rc_caller :: caller
  rc_trace :: history

text \<open>\<open>done := make (chan error, 1)\<close>\<close>

definition done_capacity :: nat where
  "done_capacity = 1"

definition canceled :: "error \<Rightarrow> error" where
  "canceled e = Wrapf ''helm dependency build canceled'' e"

text \<open>\<open>if ctx == nil { ctx = context.Background () }\<close>, the channel, and the goroutine started.\<close>

definition race_start :: "context_state option \<Rightarrow> script \<Rightarrow> history \<Rightarrow> race" where
  "race_start ctx b h =
     \<lparr>rc_goroutine = Building b, rc_done = [],
      rc_ctx = (case ctx of None \<Rightarrow> Background | Some c \<Rightarrow> c),
      rc_caller = Selecting, rc_trace = h\<rparr>"

text \<open>
  One step of the goroutine, the context or the caller. The goroutine sends only while the channel
  has room. After an error the caller's checkout \<open>dir\<close> is removed by the deferred call of
  \<open>withCheckout\<close>.
\<close>

inductive race_step :: "string \<Rightarrow> race \<Rightarrow> race \<Rightarrow> bool" for dir where
  build_call: "rc_goroutine s = Building (Makes c b) \<Longrightarrow>
     race_step dir s (s\<lparr>rc_goroutine := Building b, rc_trace := rc_trace s @ [c]\<rparr>)"
| build_ends: "rc_goroutine s = Building (Ends out) \<Longrightarrow>
     race_step dir s (s\<lparr>rc_goroutine := Sending (goroutine_result out)\<rparr>)"
| send: "rc_goroutine s = Sending r \<Longrightarrow> length (rc_done s) < done_capacity \<Longrightarrow>
     race_step dir s (s\<lparr>rc_goroutine := Finished, rc_done := rc_done s @ [r]\<rparr>)"
| cancel: "rc_ctx s = Live \<Longrightarrow> race_step dir s (s\<lparr>rc_ctx := Cancelled e\<rparr>)"
| select_ctx: "rc_caller s = Selecting \<Longrightarrow> rc_ctx s = Cancelled e \<Longrightarrow>
     race_step dir s (s\<lparr>rc_caller := Back (Inl (canceled e))\<rparr>)"
| select_done: "rc_caller s = Selecting \<Longrightarrow> rc_done s = r # rest \<Longrightarrow>
     race_step dir s (s\<lparr>rc_caller := Back r, rc_done := rest\<rparr>)"
| clean_up: "rc_caller s = Back (Inl e) \<Longrightarrow>
     race_step dir s (s\<lparr>rc_caller := CleanedUp (Inl e), rc_trace := rc_trace s @ [CallRemoveAll dir]\<rparr>)"

inductive_cases race_stepE: "race_step dir s t"

abbreviation race_run :: "string \<Rightarrow> race \<Rightarrow> race \<Rightarrow> bool" where
  "race_run dir \<equiv> (race_step dir)\<^sup>*\<^sup>*"

text \<open>How the build ends, if it does, and the calls it makes.\<close>

fun script_end :: "script \<Rightarrow> build_outcome option" where
  "script_end (Makes c b) = script_end b"
| "script_end (Ends out) = Some out"
| "script_end Hangs = None"

fun script_calls :: "script \<Rightarrow> call list" where
  "script_calls (Makes c b) = c # script_calls b"
| "script_calls (Ends out) = []"
| "script_calls Hangs = []"

text \<open>The script of a build that makes the calls \<open>cs\<close> and ends with \<open>out\<close>.\<close>

definition script_of :: "call list \<Rightarrow> build_outcome \<Rightarrow> script" where
  "script_of cs out = foldr Makes cs (Ends out)"

lemma script_end_script_of [simp]: "script_end (script_of cs out) = Some out"
  by (induction cs) (simp_all add: script_of_def)

lemma script_calls_script_of [simp]: "script_calls (script_of cs out) = cs"
  by (induction cs) (simp_all add: script_of_def)

subsection \<open>Invariant\<close>

text \<open>
  Of a run that began with the build \<open>b\<close>: the goroutine's result is that of the build, the channel
  holds at most this one result and only after the goroutine is done, and the caller has the result
  of the build only when the goroutine is done, and the error of a cancelled context otherwise.
\<close>

definition race_inv :: "script \<Rightarrow> race \<Rightarrow> bool" where
  "race_inv b s \<longleftrightarrow>
     (case rc_goroutine s of
        Building b' \<Rightarrow> script_end b = script_end b' \<and> rc_done s = []
      | Sending r \<Rightarrow> map_option goroutine_result (script_end b) = Some r \<and> rc_done s = []
      | Finished \<Rightarrow> script_end b \<noteq> None)
     \<and> (\<forall>r \<in> set (rc_done s). map_option goroutine_result (script_end b) = Some r)
     \<and> (rc_caller s = Selecting \<longrightarrow> rc_goroutine s = Finished \<longrightarrow> rc_done s \<noteq> [])
     \<and> (\<forall>r. rc_caller s = Back r \<or> rc_caller s = CleanedUp r \<longrightarrow>
          (\<exists>e. rc_ctx s = Cancelled e \<and> r = Inl (canceled e))
          \<or> rc_goroutine s = Finished \<and> map_option goroutine_result (script_end b) = Some r)"

lemma race_inv_start: "race_inv b (race_start ctx b h)"
  by (simp add: race_inv_def race_start_def)

lemma race_inv_step: "race_step dir s t \<Longrightarrow> race_inv b s \<Longrightarrow> race_inv b t"
  by (induction rule: race_step.induct) (auto simp: race_inv_def split: goroutine.splits)

lemma race_inv_run: "race_run dir (race_start ctx b h) s \<Longrightarrow> race_inv b s"
  by (induction rule: rtranclp_induct) (auto intro: race_inv_start race_inv_step)

subsection \<open>The goroutine is never stuck\<close>

lemma build_goroutine_unblocked:
  assumes "race_run dir (race_start ctx b h) s" "rc_goroutine s = Sending r"
  shows "\<exists>t. race_step dir s t \<and> rc_goroutine t = Finished"
proof -
  have "rc_done s = []"
    using race_inv_run [OF assms(1)] assms(2) by (simp add: race_inv_def)
  then show ?thesis
    using race_step.send [OF assms(2)] by (fastforce simp: done_capacity_def)
qed

text \<open>
  C28: The goroutine of a dependency build never leaks on its channel: in every state of every run,
  also after the caller gave up on it, a goroutine that is about to send its result can do so at once
  and ends. A buffer of one element is what makes this true.
\<close>
theorem build_goroutine_never_blocks:
  assumes "race_run dir (race_start ctx b h) s" "rc_goroutine s = Sending r"
  shows "\<exists>t. race_step dir s t \<and> rc_goroutine t = Finished"
  by (rule build_goroutine_unblocked [OF assms])

text \<open>A context that is cancelled while the build is still running.\<close>

definition ex_abandoned :: race where
  "ex_abandoned =
     \<lparr>rc_goroutine = Sending (Inr ()), rc_done = [], rc_ctx = Cancelled (LibErr ''deadline''),
      rc_caller = CleanedUp (Inl (canceled (LibErr ''deadline''))),
      rc_trace = [CallRemoveAll ''/tmp/c'']\<rparr>"

lemma ex_abandoned_run:
  "race_run ''/tmp/c'' (race_start (Some Live) (Ends (Returned (Inr ()))) []) ex_abandoned"
proof -
  let ?step = "race_step ''/tmp/c''"
  let ?s = "race_start (Some Live) (Ends (Returned (Inr ()))) []"
  let ?s1 = "?s\<lparr>rc_ctx := Cancelled (LibErr ''deadline'')\<rparr>"
  let ?s2 = "?s1\<lparr>rc_caller := Back (Inl (canceled (LibErr ''deadline'')))\<rparr>"
  let ?s3 = "?s2\<lparr>rc_caller := CleanedUp (Inl (canceled (LibErr ''deadline''))),
    rc_trace := rc_trace ?s2 @ [CallRemoveAll ''/tmp/c'']\<rparr>"
  let ?s4 = "?s3\<lparr>rc_goroutine := Sending (goroutine_result (Returned (Inr ())))\<rparr>"
  have "?step ?s ?s1" "?step ?s1 ?s2"
    by (rule race_step.cancel race_step.select_ctx; simp add: race_start_def)+
  moreover have "?step ?s2 ?s3" "?step ?s3 ?s4"
    by (rule race_step.clean_up race_step.build_ends; simp add: race_start_def)+
  ultimately have "race_run ''/tmp/c'' ?s ?s4"
    by (meson rtranclp.rtrancl_into_rtrancl rtranclp.rtrancl_refl)
  then show ?thesis
    by (simp add: race_start_def ex_abandoned_def)
qed

theorem build_goroutine_never_blocks_witness:
  "\<exists>t. race_step ''/tmp/c'' ex_abandoned t \<and> rc_goroutine t = Finished"
  by (rule build_goroutine_never_blocks [OF ex_abandoned_run, of "Inr ()"]) (simp add: ex_abandoned_def)

subsection \<open>Every run ends\<close>

fun script_left :: "script \<Rightarrow> nat" where
  "script_left (Makes c b) = Suc (script_left b)"
| "script_left (Ends out) = 2"
| "script_left Hangs = 0"

definition race_left :: "race \<Rightarrow> nat" where
  "race_left s =
     (case rc_goroutine s of Building b \<Rightarrow> script_left b | Sending r \<Rightarrow> 1 | Finished \<Rightarrow> 0)
     + (case rc_ctx s of Live \<Rightarrow> 1 | _ \<Rightarrow> 0)
     + (case rc_caller s of Selecting \<Rightarrow> 2 | Back r \<Rightarrow> 1 | CleanedUp r \<Rightarrow> 0)"

lemma race_step_left: "race_step dir s t \<Longrightarrow> race_left t < race_left s"
  by (induction rule: race_step.induct) (auto simp: race_left_def split: context_state.split caller.split)

lemma build_caller_returned:
  assumes "race_run dir (race_start ctx b h) s" "\<nexists>t. race_step dir s t"
    and "ctx = Some Live \<or> (\<exists>e. ctx = Some (Cancelled e)) \<or> script_end b \<noteq> None"
  shows "rc_caller s \<noteq> Selecting"
proof
  assume sel: "rc_caller s = Selecting"
  have "rc_ctx s \<noteq> Live" "\<And>e. rc_ctx s \<noteq> Cancelled e"
    using assms(2) race_step.cancel race_step.select_ctx [OF sel] by blast+
  then have bg: "rc_ctx s = Background"
    by (cases "rc_ctx s") auto
  have keeps: "rc_ctx s' = Background \<longleftrightarrow> rc_ctx (race_start ctx b h) = Background"
    if "race_run dir (race_start ctx b h) s'" for s'
    using that by (induction rule: rtranclp_induct) (auto elim!: race_stepE)
  have "script_end b \<noteq> None"
    using keeps [OF assms(1)] bg assms(3) by (auto simp: race_start_def)
  note inv = race_inv_run [OF assms(1)]
  show False
  proof (cases "rc_goroutine s")
    case (Building b')
    then have "\<exists>t. race_step dir s t"
      using inv \<open>script_end b \<noteq> None\<close> race_step.intros(1,2)
      by (cases b') (fastforce simp: race_inv_def)+
    with assms(2) show False by blast
  next
    case (Sending r)
    then show False
      using build_goroutine_unblocked [OF assms(1)] assms(2) by blast
  next
    case Finished
    then obtain r rest where "rc_done s = r # rest"
      using inv sel by (cases "rc_done s") (auto simp: race_inv_def)
    then show False
      using race_step.select_done [OF sel] assms(2) by blast
  qed
qed

text \<open>
  C20: With a context that can be cancelled the reconcile worker is never pinned: a run of the race
  that cannot go on has the caller back, even when the build hangs for ever. Without a context it is
  back as well, unless the build hangs.
\<close>
theorem build_caller_always_returns:
  assumes "race_run dir (race_start ctx b h) s" "\<nexists>t. race_step dir s t"
    and "ctx = Some Live \<or> (\<exists>e. ctx = Some (Cancelled e)) \<or> script_end b \<noteq> None"
  shows "rc_caller s \<noteq> Selecting"
  by (rule build_caller_returned [OF assms])

text \<open>A build that hangs, cancelled.\<close>

definition ex_hung :: race where
  "ex_hung =
     \<lparr>rc_goroutine = Building Hangs, rc_done = [], rc_ctx = Cancelled (LibErr ''deadline''),
      rc_caller = CleanedUp (Inl (canceled (LibErr ''deadline''))),
      rc_trace = [CallRemoveAll ''/tmp/c'']\<rparr>"

text \<open>Cancelled before the build is done: the caller returns and its checkout is removed.\<close>

lemma race_run_cancelled:
  "race_run dir (race_start (Some Live) b h)
     \<lparr>rc_goroutine = Building b, rc_done = [], rc_ctx = Cancelled e, rc_caller = Back (Inl (canceled e)),
      rc_trace = h\<rparr>" (is "race_run dir ?s ?t")
proof -
  let ?s1 = "?s\<lparr>rc_ctx := Cancelled e\<rparr>"
  let ?s2 = "?s1\<lparr>rc_caller := Back (Inl (canceled e))\<rparr>"
  have "race_step dir ?s ?s1" "race_step dir ?s1 ?s2"
    by (rule race_step.cancel race_step.select_ctx; simp add: race_start_def)+
  moreover have "?s2 = ?t"
    by (simp add: race_start_def)
  ultimately show ?thesis
    by (metis rtranclp.simps)
qed

lemma race_run_cleaned:
  "race_run dir (race_start (Some Live) b h)
     \<lparr>rc_goroutine = Building b, rc_done = [], rc_ctx = Cancelled e,
      rc_caller = CleanedUp (Inl (canceled e)), rc_trace = h @ [CallRemoveAll dir]\<rparr>"
proof (rule rtranclp.rtrancl_into_rtrancl [OF race_run_cancelled])
  let ?t = "\<lparr>rc_goroutine = Building b, rc_done = [], rc_ctx = Cancelled e,
    rc_caller = Back (Inl (canceled e)), rc_trace = h\<rparr>"
  show "race_step dir ?t \<lparr>rc_goroutine = Building b, rc_done = [], rc_ctx = Cancelled e,
      rc_caller = CleanedUp (Inl (canceled e)), rc_trace = h @ [CallRemoveAll dir]\<rparr>"
    using race_step.clean_up [of ?t "canceled e" dir] by simp
qed

theorem build_caller_always_returns_witness:
  "rc_caller ex_hung \<noteq> Selecting"
proof (rule build_caller_always_returns [where ctx = "Some Live" and b = Hangs and dir = "''/tmp/c''" and h = "[]"])
  show "race_run ''/tmp/c'' (race_start (Some Live) Hangs []) ex_hung"
    using race_run_cleaned [of "''/tmp/c''" Hangs "[]"] by (simp add: ex_hung_def)
  show "\<nexists>t. race_step ''/tmp/c'' ex_hung t"
    by (auto simp: ex_hung_def elim: race_stepE)
qed simp

text \<open>
  C38: Cancellation does not stop the build: whatever call the build is about to make when the context
  is cancelled can be made after the caller returned and removed the checkout the build works in.
\<close>
theorem cancelled_build_outlives_checkout:
  "\<exists>s. race_run dir (race_start (Some Live) (Makes c b) h) s
     \<and> rc_caller s = CleanedUp (Inl (canceled e)) \<and> rc_trace s = h @ [CallRemoveAll dir, c]"
proof -
  let ?t = "\<lparr>rc_goroutine = Building (Makes c b), rc_done = [], rc_ctx = Cancelled e,
      rc_caller = CleanedUp (Inl (canceled e)), rc_trace = h @ [CallRemoveAll dir]\<rparr>"
  have "race_step dir ?t (?t\<lparr>rc_goroutine := Building b, rc_trace := rc_trace ?t @ [c]\<rparr>)"
    by (rule race_step.build_call) simp
  then show ?thesis
    using rtranclp.rtrancl_into_rtrancl [OF race_run_cleaned] by fastforce
qed

subsection \<open>Where the race ends\<close>

text \<open>The calls of the build in their order, with the removal of the checkout somewhere among them.\<close>

definition race_log :: "string \<Rightarrow> script \<Rightarrow> history \<Rightarrow> race \<Rightarrow> bool" where
  "race_log dir b h s \<longleftrightarrow>
     (\<exists>pre post. rc_trace s = h @ pre @ (case rc_caller s of CleanedUp r \<Rightarrow> [CallRemoveAll dir] | _ \<Rightarrow> []) @ post
        \<and> pre @ post @ (case rc_goroutine s of Building b' \<Rightarrow> script_calls b' | _ \<Rightarrow> []) = script_calls b)"

lemma race_log_step: "race_step dir s t \<Longrightarrow> race_log dir b h s \<Longrightarrow> race_log dir b h t"
proof (induction rule: race_step.induct)
  case (build_call s c b')
  then obtain pre post where "rc_trace s = h @ pre @ (case rc_caller s of CleanedUp r \<Rightarrow> [CallRemoveAll dir] | _ \<Rightarrow> []) @ post"
      "pre @ post @ c # script_calls b' = script_calls b"
    by (auto simp: race_log_def)
  then show ?case
    unfolding race_log_def by (intro exI [of _ pre] exI [of _ "post @ [c]"]) simp
next
  case (clean_up s e)
  then obtain pre post where "rc_trace s = h @ pre @ post"
      "pre @ post @ (case rc_goroutine s of Building b' \<Rightarrow> script_calls b' | _ \<Rightarrow> []) = script_calls b"
    by (auto simp: race_log_def)
  then show ?case
    unfolding race_log_def by (intro exI [of _ "pre @ post"] exI [of _ "[]"]) simp
qed (auto simp: race_log_def)

lemma race_log_run: "race_run dir (race_start ctx b h) s \<Longrightarrow> race_log dir b h s"
proof (induction rule: rtranclp_induct)
  case base
  show ?case
    by (auto simp: race_log_def race_start_def)
qed (rule race_log_step)

lemma stuck_goroutine:
  assumes "race_run dir (race_start ctx b h) s" "\<nexists>t. race_step dir s t"
  shows "rc_goroutine s = (if script_end b = None then Building Hangs else Finished)"
proof (cases "rc_goroutine s")
  case (Building b')
  then have "b' = Hangs"
    using assms(2) race_step.intros(1,2) by (cases b') blast+
  then show ?thesis
    using race_inv_run [OF assms(1)] Building by (simp add: race_inv_def)
next
  case (Sending r)
  then show ?thesis
    using build_goroutine_unblocked [OF assms(1)] assms(2) by blast
next
  case Finished
  then show ?thesis
    using race_inv_run [OF assms(1)] by (simp add: race_inv_def)
qed

lemma stuck_caller:
  assumes "\<nexists>t. race_step dir s t" "rc_caller s \<noteq> Selecting"
  shows "rc_caller s = Back (Inr ()) \<or> (\<exists>r. rc_caller s = CleanedUp r)"
proof (cases "rc_caller s")
  case (Back r)
  then show ?thesis
    using assms(1) race_step.clean_up by (cases r) (blast, simp)
qed (use assms(2) in simp_all)

text \<open>Only an error cleans up.\<close>

definition cleaned_failure :: "race \<Rightarrow> bool" where
  "cleaned_failure s \<longleftrightarrow> (\<forall>r. rc_caller s = CleanedUp r \<longrightarrow> (\<exists>e. r = Inl e))"

lemma cleaned_failure_run: "race_run dir (race_start ctx b h) s \<Longrightarrow> cleaned_failure s"
proof (induction rule: rtranclp_induct)
  case base
  show ?case
    by (simp add: cleaned_failure_def race_start_def)
next
  case (step s t)
  from step.hyps(2) step.IH show ?case
    by (auto simp: cleaned_failure_def elim!: race_stepE)
qed

text \<open>
  C37: The race between build and cancellation ends, and ends clean. There is no infinite run. Where a
  run with a context that can be cancelled cannot go on, the caller is back, and after an error its
  checkout is removed; the build has made all its calls, in order; and its goroutine has ended, also
  when nobody took its result, unless the build itself hangs.
\<close>
theorem build_race_terminates:
  "wfp (\<lambda>t s. race_step dir s t)
   \<and> (\<forall>s. race_run dir (race_start (Some Live) b h) s \<and> (\<nexists>t. race_step dir s t) \<longrightarrow>
        rc_goroutine s = (if script_end b = None then Building Hangs else Finished)
        \<and> (rc_caller s = Back (Inr ()) \<and> rc_trace s = h @ script_calls b
           \<or> (\<exists>e pre post. rc_caller s = CleanedUp (Inl e)
                \<and> rc_trace s = h @ pre @ CallRemoveAll dir # post \<and> pre @ post = script_calls b)))"
proof (intro conjI allI impI)
  show "wfp (\<lambda>t s. race_step dir s t)"
    by (rule wfp_if_convertible_to_nat [where f = race_left]) (rule race_step_left)
  fix s
  assume s: "race_run dir (race_start (Some Live) b h) s \<and> (\<nexists>t. race_step dir s t)"
  then show g: "rc_goroutine s = (if script_end b = None then Building Hangs else Finished)"
    using stuck_goroutine by blast
  have "rc_caller s \<noteq> Selecting"
    using s build_caller_returned by blast
  then have caller: "rc_caller s = Back (Inr ()) \<or> (\<exists>r. rc_caller s = CleanedUp r)"
    using s stuck_caller by blast
  have "race_log dir b h s" "cleaned_failure s"
    using s race_log_run cleaned_failure_run by blast+
  then show "rc_caller s = Back (Inr ()) \<and> rc_trace s = h @ script_calls b
      \<or> (\<exists>e pre post. rc_caller s = CleanedUp (Inl e)
           \<and> rc_trace s = h @ pre @ CallRemoveAll dir # post \<and> pre @ post = script_calls b)"
    using caller g by (auto simp: race_log_def cleaned_failure_def split: if_splits)
qed

theorem build_race_terminates_witness:
  "rc_goroutine ex_hung = Building Hangs \<and> (\<exists>e. rc_caller ex_hung = CleanedUp (Inl e))"
proof -
  have "race_run ''/tmp/c'' (race_start (Some Live) Hangs []) ex_hung"
    using race_run_cleaned [of "''/tmp/c''" Hangs "[]"] by (simp add: ex_hung_def)
  moreover have "\<nexists>t. race_step ''/tmp/c'' ex_hung t"
    by (auto simp: ex_hung_def elim: race_stepE)
  ultimately show ?thesis
    using build_race_terminates [of "''/tmp/c''" Hangs "[]"] by (auto simp: ex_hung_def)
qed

subsection \<open>The sequential reading\<close>

lemma race_run_script:
  "race_run dir (s\<lparr>rc_goroutine := Building (script_of cs out)\<rparr>)
     (s\<lparr>rc_goroutine := Building (Ends out), rc_trace := rc_trace s @ cs\<rparr>)"
proof (induction cs arbitrary: s)
  case Nil
  show ?case by (simp add: script_of_def)
next
  case (Cons c cs)
  let ?s = "s\<lparr>rc_goroutine := Building (script_of (c # cs) out)\<rparr>"
  have "race_step dir ?s (?s\<lparr>rc_goroutine := Building (script_of cs out), rc_trace := rc_trace ?s @ [c]\<rparr>)"
    by (rule race_step.build_call) (simp add: script_of_def)
  moreover have "?s\<lparr>rc_goroutine := Building (script_of cs out), rc_trace := rc_trace ?s @ [c]\<rparr>
      = s\<lparr>rc_trace := rc_trace s @ [c], rc_goroutine := Building (script_of cs out)\<rparr>"
    by simp
  ultimately show ?case
    using Cons.IH [of "s\<lparr>rc_trace := rc_trace s @ [c]\<rparr>"]
    by (metis (no_types, lifting) append.assoc append_Cons append_Nil converse_rtranclp_into_rtranclp
        race.select_convs(5) race.surjective race.update_convs(1,5))
qed

text \<open>The build runs to its end before anything else happens.\<close>

lemma race_run_built:
  "\<exists>s. race_run dir (race_start ctx (script_of cs out) h) s
     \<and> rc_caller s = Back (goroutine_result out) \<and> rc_trace s = h @ cs"
proof -
  let ?s = "race_start ctx (script_of cs out) h"
  let ?s1 = "?s\<lparr>rc_goroutine := Building (Ends out), rc_trace := rc_trace ?s @ cs\<rparr>"
  let ?s2 = "?s1\<lparr>rc_goroutine := Sending (goroutine_result out)\<rparr>"
  let ?s3 = "?s2\<lparr>rc_goroutine := Finished, rc_done := rc_done ?s2 @ [goroutine_result out]\<rparr>"
  let ?s4 = "?s3\<lparr>rc_caller := Back (goroutine_result out), rc_done := []\<rparr>"
  have "race_run dir ?s ?s1"
    using race_run_script [where s = ?s and cs = cs and out = out and dir = dir] by (simp add: race_start_def)
  moreover have "race_step dir ?s1 ?s2" "race_step dir ?s2 ?s3" "race_step dir ?s3 ?s4"
    by (rule race_step.build_ends race_step.send race_step.select_done;
        simp add: race_start_def done_capacity_def)+
  ultimately have "race_run dir ?s ?s4"
    by (meson rtranclp.rtrancl_into_rtrancl)
  then show ?thesis
    by (intro exI [of _ ?s4]) (simp add: race_start_def)
qed

text \<open>While the caller has not cleaned up, the trace is the build's calls so far.\<close>

lemma race_trace_run:
  assumes "race_run dir (race_start ctx b h) s" "\<forall>r. rc_caller s \<noteq> CleanedUp r"
  shows "rc_trace s @ (case rc_goroutine s of Building b' \<Rightarrow> script_calls b' | _ \<Rightarrow> [])
    = h @ script_calls b"
  using assms
proof (induction rule: rtranclp_induct)
  case base
  show ?case by (simp add: race_start_def)
next
  case (step s t)
  from step.hyps(2) have "\<forall>r. rc_caller s \<noteq> CleanedUp r"
    using step.prems by (cases rule: race_step.cases) auto
  with step.IH step.hyps(2) step.prems show ?case
    by (auto elim!: race_stepE)
qed

lemma race_results:
  "{r. \<exists>s. race_run dir (race_start (Some Live) (script_of cs out) h) s \<and> rc_caller s = Back r}
   = insert (goroutine_result out) (range (\<lambda>e. Inl (canceled e)))" (is "?L = ?R")
proof
  show "?L \<subseteq> ?R"
    by (auto dest!: race_inv_run simp: race_inv_def)
  have "\<exists>s. race_run dir (race_start (Some Live) (script_of cs out) h) s
      \<and> rc_caller s = Back (Inl (canceled e))" for e
    using race_run_cancelled by fastforce
  then show "?R \<subseteq> ?L"
    using race_run_built by blast
qed

lemma runBuildDeps_results:
  assumes "build dir (h @ [CallSelectDone]) = (out, h')"
  shows "{r. \<exists>f. fst (runBuildDeps (hl\<lparr>hl_CtxDone := f\<rparr>) build dir h) = r}
   = insert (goroutine_result out) (range (\<lambda>e. Inl (canceled e)))" (is "?L = ?R")
proof -
  have run: "fst (runBuildDeps (hl\<lparr>hl_CtxDone := f\<rparr>) build dir h) =
      (case f h of None \<Rightarrow> goroutine_result out | Some e \<Rightarrow> Inl (canceled e))" for f
    using assms by (simp add: runBuildDeps_def outside_def canceled_def split: option.split)
  have "?L \<subseteq> ?R"
    by (auto simp: run split: option.splits)
  moreover have "?R \<subseteq> ?L"
    using run [of "\<lambda>_. None"] run [of "\<lambda>_. Some e" for e] by force
  ultimately show ?thesis
    by blast
qed

lemma uncancelled_build_precedes_return:
  assumes "build dir (h @ [CallSelectDone]) = (out, h @ CallSelectDone # cs)"
    and s: "race_run dir (race_start ctx (script_of cs out) h) s" "rc_caller s = Back r"
    and "\<forall>e. rc_ctx s \<noteq> Cancelled e"
  shows "rc_trace s = h @ cs
    \<and> runBuildDeps (hl\<lparr>hl_CtxDone := \<lambda>_. None\<rparr>) build dir h = (r, h @ CallSelectDone # cs)"
proof -
  have "rc_goroutine s = Finished" "r = goroutine_result out"
    using race_inv_run [OF s(1)] s(2) assms(4) by (auto simp: race_inv_def)
  then show ?thesis
    using race_trace_run [OF s(1)] s(2) assms by (simp add: runBuildDeps_def outside_def)
qed

text \<open>
  C19: The sequential reading of the dependency build is right: for a build that makes the calls \<open>cs\<close>
  and ends with \<open>out\<close>, the results the caller can get in a run of the race are exactly those of
  \<open>runBuildDeps\<close> for some answer of the context; and when the context was not cancelled, the whole
  build precedes the return, as in the sequential history.
\<close>
theorem build_race_refines_runBuildDeps:
  assumes "build dir (h @ [CallSelectDone]) = (out, h @ CallSelectDone # cs)"
  shows "{r. \<exists>s. race_run dir (race_start (Some Live) (script_of cs out) h) s \<and> rc_caller s = Back r}
      = {r. \<exists>f. fst (runBuildDeps (hl\<lparr>hl_CtxDone := f\<rparr>) build dir h) = r}
    \<and> (\<forall>ctx s r. race_run dir (race_start ctx (script_of cs out) h) s \<and> rc_caller s = Back r
          \<and> (\<forall>e. rc_ctx s \<noteq> Cancelled e) \<longrightarrow>
        rc_trace s = h @ cs
        \<and> runBuildDeps (hl\<lparr>hl_CtxDone := \<lambda>_. None\<rparr>) build dir h = (r, h @ CallSelectDone # cs))"
  unfolding race_results runBuildDeps_results [of build dir h out, OF assms]
  using uncancelled_build_precedes_return [of build dir h out cs, OF assms] by blast

theorem build_race_refines_runBuildDeps_witness:
  "{r. \<exists>s. race_run ''/tmp/c'' (race_start (Some Live)
           (script_of [CallLoadChart ''c''] (Panicked ''index'')) []) s \<and> rc_caller s = Back r}
   = {r. \<exists>f. fst (runBuildDeps (ex_helm\<lparr>hl_CtxDone := f\<rparr>)
           (\<lambda>d h. (Panicked ''index'', h @ [CallLoadChart ''c''])) ''/tmp/c'' []) = r}"
  using build_race_refines_runBuildDeps [where build = "\<lambda>d h. (Panicked ''index'', h @ [CallLoadChart ''c''])"
      and dir = "''/tmp/c''" and h = "[]" and cs = "[CallLoadChart ''c'']" and hl = ex_helm
      and out = "Panicked ''index''"] by simp

end
