(* ===== verification/Go_Heap.thy ===== *)
theory Go_Heap
  imports Api_Types
begin

text \<open>
  Go memory for the data of the API types, and what it means to copy it deeply. A struct value holds
  its strings and numbers directly and refers to cells of the heap through pointers and slices. A
  \<^emph>\<open>reader\<close> yields the value a pointer structure denotes together with the addresses it went
  through; the locale \<open>deep_copier\<close> is the contract of a copying function: it keeps every old cell,
  the copy denotes the same value, and it goes through new cells only.
\<close>

subsection \<open>Pointers, slices, cells\<close>

type_synonym addr = nat

text \<open>A nil pointer is \<open>None\<close>.\<close>

type_synonym ptr = "addr option"

text \<open>A slice: its backing array, the offset of its first element, and its length; nil is \<open>None\<close>.\<close>

type_synonym slice = "(addr \<times> nat \<times> nat) option"

text \<open>
  A struct of a library, with fields this program never looks at: what it holds directly, and the
  addresses it refers to.
\<close>

type_synonym lib_struct = "string \<times> addr list"

record TypeMeta =
  tm_kind :: string
  tm_apiVersion :: string

record GGitSource =
  ggs_url :: string
  ggs_ref :: string
  ggs_path :: string
  ggs_auth :: ptr

record GHelmSource =
  ghs_git :: GGitSource
  ghs_releaseName :: string
  ghs_namespace :: string
  ghs_values :: ptr
  ghs_valuesFiles :: slice
  ghs_dependencyBuild :: bool

record GKustomizeSource =
  gks_git :: GGitSource

record GSource =
  gsrc_type :: string
  gsrc_git :: ptr
  gsrc_configMap :: ptr
  gsrc_helm :: ptr
  gsrc_kustomize :: ptr

record GWebhook =
  gwh_type :: string
  gwh_url :: string
  gwh_urlSecretRef :: ptr

record GNotifySpec =
  gns_webhooks :: slice

record GTarget =
  gtgt_namespaces :: slice
  gtgt_labelSelector :: ptr

record GSpec =
  gspec_source :: GSource
  gspec_target :: GTarget
  gspec_interval :: go_int
  gspec_notify :: ptr

record GStatus =
  gst_lastCheckedAt :: ptr
  gst_driftedResources :: slice
  gst_summary :: DriftSummary
  gst_observedGeneration :: go_int
  gst_lastNotifiedHash :: string
  gst_conditions :: slice

record GDriftCheck =
  gdc_type :: TypeMeta
  gdc_meta :: lib_struct
  gdc_spec :: GSpec
  gdc_status :: GStatus

record GDriftCheckList =
  gdl_type :: TypeMeta
  gdl_meta :: lib_struct
  gdl_items :: slice

text \<open>A cell holds one variable of a known type, or the backing array of a slice.\<close>

datatype cell =
    CGitAuth GitAuthSpec
  | CLocalSecretRef LocalSecretRef
  | CSecretKeyRef SecretKeyRef
  | CConfigMapSource ConfigMapSource
  | CDriftSummary DriftSummary
  | CDriftedResource DriftedResource
  | CGitSource GGitSource
  | CHelmSource GHelmSource
  | CKustomizeSource GKustomizeSource
  | CSource GSource
  | CWebhook GWebhook
  | CNotifySpec GNotifySpec
  | CTarget GTarget
  | CSpec GSpec
  | CStatus GStatus
  | CDriftCheck GDriftCheck
  | CDriftCheckList GDriftCheckList
  | CTime time
  | CLib lib_struct
  | CStrings "string list"
  | CBytes bytes
  | CWebhooks "GWebhook list"
  | CDriftedResources "DriftedResource list"
  | CConditions "Condition list"
  | CDriftChecks "GDriftCheck list"

text \<open>The content of a cell, when it has the type that is asked for.\<close>

named_theorems get_cell "contents of a cell at a type"

definition get_GitAuth :: "cell \<Rightarrow> GitAuthSpec option" where
  [get_cell]: "get_GitAuth c = (case c of CGitAuth x \<Rightarrow> Some x | _ \<Rightarrow> None)"

definition get_LocalSecretRef :: "cell \<Rightarrow> LocalSecretRef option" where
  [get_cell]: "get_LocalSecretRef c = (case c of CLocalSecretRef x \<Rightarrow> Some x | _ \<Rightarrow> None)"

definition get_SecretKeyRef :: "cell \<Rightarrow> SecretKeyRef option" where
  [get_cell]: "get_SecretKeyRef c = (case c of CSecretKeyRef x \<Rightarrow> Some x | _ \<Rightarrow> None)"

definition get_ConfigMapSource :: "cell \<Rightarrow> ConfigMapSource option" where
  [get_cell]: "get_ConfigMapSource c = (case c of CConfigMapSource x \<Rightarrow> Some x | _ \<Rightarrow> None)"

definition get_DriftSummary :: "cell \<Rightarrow> DriftSummary option" where
  [get_cell]: "get_DriftSummary c = (case c of CDriftSummary x \<Rightarrow> Some x | _ \<Rightarrow> None)"

definition get_DriftedResource :: "cell \<Rightarrow> DriftedResource option" where
  [get_cell]: "get_DriftedResource c = (case c of CDriftedResource x \<Rightarrow> Some x | _ \<Rightarrow> None)"

definition get_GitSource :: "cell \<Rightarrow> GGitSource option" where
  [get_cell]: "get_GitSource c = (case c of CGitSource x \<Rightarrow> Some x | _ \<Rightarrow> None)"

definition get_HelmSource :: "cell \<Rightarrow> GHelmSource option" where
  [get_cell]: "get_HelmSource c = (case c of CHelmSource x \<Rightarrow> Some x | _ \<Rightarrow> None)"

definition get_KustomizeSource :: "cell \<Rightarrow> GKustomizeSource option" where
  [get_cell]: "get_KustomizeSource c = (case c of CKustomizeSource x \<Rightarrow> Some x | _ \<Rightarrow> None)"

definition get_Source :: "cell \<Rightarrow> GSource option" where
  [get_cell]: "get_Source c = (case c of CSource x \<Rightarrow> Some x | _ \<Rightarrow> None)"

definition get_Webhook :: "cell \<Rightarrow> GWebhook option" where
  [get_cell]: "get_Webhook c = (case c of CWebhook x \<Rightarrow> Some x | _ \<Rightarrow> None)"

definition get_NotifySpec :: "cell \<Rightarrow> GNotifySpec option" where
  [get_cell]: "get_NotifySpec c = (case c of CNotifySpec x \<Rightarrow> Some x | _ \<Rightarrow> None)"

definition get_Target :: "cell \<Rightarrow> GTarget option" where
  [get_cell]: "get_Target c = (case c of CTarget x \<Rightarrow> Some x | _ \<Rightarrow> None)"

definition get_Spec :: "cell \<Rightarrow> GSpec option" where
  [get_cell]: "get_Spec c = (case c of CSpec x \<Rightarrow> Some x | _ \<Rightarrow> None)"

definition get_Status :: "cell \<Rightarrow> GStatus option" where
  [get_cell]: "get_Status c = (case c of CStatus x \<Rightarrow> Some x | _ \<Rightarrow> None)"

definition get_DriftCheck :: "cell \<Rightarrow> GDriftCheck option" where
  [get_cell]: "get_DriftCheck c = (case c of CDriftCheck x \<Rightarrow> Some x | _ \<Rightarrow> None)"

definition get_DriftCheckList :: "cell \<Rightarrow> GDriftCheckList option" where
  [get_cell]: "get_DriftCheckList c = (case c of CDriftCheckList x \<Rightarrow> Some x | _ \<Rightarrow> None)"

definition get_Time :: "cell \<Rightarrow> time option" where
  [get_cell]: "get_Time c = (case c of CTime x \<Rightarrow> Some x | _ \<Rightarrow> None)"

definition get_Lib :: "cell \<Rightarrow> lib_struct option" where
  [get_cell]: "get_Lib c = (case c of CLib x \<Rightarrow> Some x | _ \<Rightarrow> None)"

definition get_Strings :: "cell \<Rightarrow> (string list) option" where
  [get_cell]: "get_Strings c = (case c of CStrings x \<Rightarrow> Some x | _ \<Rightarrow> None)"

definition get_Bytes :: "cell \<Rightarrow> bytes option" where
  [get_cell]: "get_Bytes c = (case c of CBytes x \<Rightarrow> Some x | _ \<Rightarrow> None)"

definition get_Webhooks :: "cell \<Rightarrow> (GWebhook list) option" where
  [get_cell]: "get_Webhooks c = (case c of CWebhooks x \<Rightarrow> Some x | _ \<Rightarrow> None)"

definition get_DriftedResources :: "cell \<Rightarrow> (DriftedResource list) option" where
  [get_cell]: "get_DriftedResources c = (case c of CDriftedResources x \<Rightarrow> Some x | _ \<Rightarrow> None)"

definition get_Conditions :: "cell \<Rightarrow> (Condition list) option" where
  [get_cell]: "get_Conditions c = (case c of CConditions x \<Rightarrow> Some x | _ \<Rightarrow> None)"

definition get_DriftChecks :: "cell \<Rightarrow> (GDriftCheck list) option" where
  [get_cell]: "get_DriftChecks c = (case c of CDriftChecks x \<Rightarrow> Some x | _ \<Rightarrow> None)"

lemma get_cell_eqs:
  "get_GitAuth (CGitAuth x1) = Some x1"
  "get_LocalSecretRef (CLocalSecretRef x2) = Some x2"
  "get_SecretKeyRef (CSecretKeyRef x3) = Some x3"
  "get_ConfigMapSource (CConfigMapSource x4) = Some x4"
  "get_DriftSummary (CDriftSummary x5) = Some x5"
  "get_DriftedResource (CDriftedResource x6) = Some x6"
  "get_GitSource (CGitSource x7) = Some x7"
  "get_HelmSource (CHelmSource x8) = Some x8"
  "get_KustomizeSource (CKustomizeSource x9) = Some x9"
  "get_Source (CSource x10) = Some x10"
  "get_Webhook (CWebhook x11) = Some x11"
  "get_NotifySpec (CNotifySpec x12) = Some x12"
  "get_Target (CTarget x13) = Some x13"
  "get_Spec (CSpec x14) = Some x14"
  "get_Status (CStatus x15) = Some x15"
  "get_DriftCheck (CDriftCheck x16) = Some x16"
  "get_DriftCheckList (CDriftCheckList x17) = Some x17"
  "get_Time (CTime x18) = Some x18"
  "get_Lib (CLib x19) = Some x19"
  "get_Strings (CStrings x20) = Some x20"
  "get_Bytes (CBytes x21) = Some x21"
  "get_Webhooks (CWebhooks x22) = Some x22"
  "get_DriftedResources (CDriftedResources x23) = Some x23"
  "get_Conditions (CConditions x24) = Some x24"
  "get_DriftChecks (CDriftChecks x25) = Some x25"
  by (simp_all add: get_cell)

record heap =
  cells :: "addr \<rightharpoonup> cell"
  next_addr :: addr

definition heap_wf :: "heap \<Rightarrow> bool" where
  "heap_wf h \<longleftrightarrow> dom (cells h) \<subseteq> {..<next_addr h}"

text \<open>\<open>new\<close> and \<open>make\<close>: a cell at an address that was never used.\<close>

definition alloc :: "cell \<Rightarrow> heap \<Rightarrow> addr \<times> heap" where
  "alloc c h =
     (next_addr h, \<lparr>cells = (cells h)(next_addr h \<mapsto> c), next_addr = Suc (next_addr h)\<rparr>)"

definition store :: "addr \<Rightarrow> cell \<Rightarrow> heap \<Rightarrow> heap" where
  "store a c h = h\<lparr>cells := (cells h)(a \<mapsto> c)\<rparr>"

text \<open>A sequence of writes.\<close>

definition stores :: "(addr \<times> cell) list \<Rightarrow> heap \<Rightarrow> heap" where
  "stores ws h = fold (\<lambda>(a, c). store a c) ws h"

lemma cells_stores: "a \<notin> fst ` set ws \<Longrightarrow> cells (stores ws h) a = cells h a"
  by (induction ws arbitrary: h) (auto simp: stores_def store_def)

text \<open>\<open>extends h h'\<close>: \<open>h'\<close> has every cell of \<open>h\<close>, unchanged.\<close>

definition extends :: "heap \<Rightarrow> heap \<Rightarrow> bool" where
  "extends h h' \<longleftrightarrow> heap_wf h \<and> heap_wf h' \<and> cells h \<subseteq>\<^sub>m cells h'"

lemma extends_refl: "heap_wf h \<Longrightarrow> extends h h"
  by (simp add: extends_def)

lemma extends_trans: "extends h h1 \<Longrightarrow> extends h1 h2 \<Longrightarrow> extends h h2"
  by (auto simp: extends_def intro: map_le_trans)

lemma extends_dom: "extends h h' \<Longrightarrow> dom (cells h) \<subseteq> dom (cells h')"
  by (auto simp: extends_def dest: map_le_implies_dom_le)

lemma extends_cell: "extends h h' \<Longrightarrow> cells h a = Some c \<Longrightarrow> cells h' a = Some c"
  by (auto simp: extends_def map_le_def dom_def)

lemma alloc_extends:
  assumes "heap_wf h" "alloc c h = (a, h')"
  shows "extends h h'" "a \<notin> dom (cells h)" "cells h' a = Some c"
  using assms domI [of "cells h"]
  by (auto simp: alloc_def extends_def heap_wf_def map_le_def less_Suc_eq subset_iff
      split: if_splits)

subsection \<open>Readers\<close>

type_synonym 'b reader = "heap \<Rightarrow> ('b \<times> addr set) option"

definition rd_return :: "'b \<Rightarrow> 'b reader" where
  "rd_return v h = Some (v, {})"

definition rd_bind :: "'a reader \<Rightarrow> ('a \<Rightarrow> 'b reader) \<Rightarrow> 'b reader" where
  "rd_bind m k h =
     (case m h of
        None \<Rightarrow> None
      | Some (x, A) \<Rightarrow> (case k x h of None \<Rightarrow> None | Some (y, B) \<Rightarrow> Some (y, A \<union> B)))"

definition rd_cell :: "(cell \<Rightarrow> 'a option) \<Rightarrow> addr \<Rightarrow> 'a reader" where
  "rd_cell get a h =
     (case cells h a of
        None \<Rightarrow> None
      | Some c \<Rightarrow> (case get c of None \<Rightarrow> None | Some x \<Rightarrow> Some (x, {a})))"

text \<open>\<open>framed m\<close>: the result of \<open>m\<close> depends on the cells it reports only, and these exist.\<close>

definition framed :: "'b reader \<Rightarrow> bool" where
  "framed m \<longleftrightarrow>
     (\<forall>h v A. m h = Some (v, A) \<longrightarrow>
        A \<subseteq> dom (cells h)
        \<and> (\<forall>h'. (\<forall>a \<in> A. cells h' a = cells h a) \<longrightarrow> m h' = Some (v, A)))"

named_theorems frames "readers that depend on the cells they report only"

lemma framedI:
  assumes "\<And>h v A. m h = Some (v, A) \<Longrightarrow> A \<subseteq> dom (cells h)"
    and "\<And>h v A h'. m h = Some (v, A) \<Longrightarrow> (\<forall>a \<in> A. cells h' a = cells h a) \<Longrightarrow> m h' = Some (v, A)"
  shows "framed m"
  using assms unfolding framed_def by blast

lemma framed_dom: "framed m \<Longrightarrow> m h = Some (v, A) \<Longrightarrow> A \<subseteq> dom (cells h)"
  unfolding framed_def by blast

lemma framed_agree:
  "framed m \<Longrightarrow> m h = Some (v, A) \<Longrightarrow> \<forall>a \<in> A. cells h' a = cells h a \<Longrightarrow> m h' = Some (v, A)"
  unfolding framed_def by blast

lemma framed_extends:
  assumes "framed m" "m h = Some (v, A)" "extends h h'"
  shows "m h' = Some (v, A)"
  using assms framed_dom [OF assms(1,2)] extends_cell [OF assms(3)]
  by (intro framed_agree [OF assms(1,2)]) force

lemma framed_return [frames]: "framed (rd_return v)"
  by (rule framedI) (auto simp: rd_return_def)

lemma framed_bind [frames]:
  assumes "framed m" "\<And>x. framed (k x)"
  shows "framed (rd_bind m k)"
proof (rule framedI)
  fix h v A
  assume "rd_bind m k h = Some (v, A)"
  then obtain x B C where m: "m h = Some (x, B)" and k: "k x h = Some (v, C)" and A: "A = B \<union> C"
    by (auto simp: rd_bind_def split: option.splits)
  show "A \<subseteq> dom (cells h)"
    using framed_dom [OF assms(1) m] framed_dom [OF assms(2) k] A by blast
  fix h' :: heap
  assume "\<forall>a \<in> A. cells h' a = cells h a"
  then have "m h' = Some (x, B)" "k x h' = Some (v, C)"
    using framed_agree [OF assms(1) m] framed_agree [OF assms(2) k] A by simp_all
  then show "rd_bind m k h' = Some (v, A)"
    by (simp add: rd_bind_def A)
qed

lemma framed_cell [frames]: "framed (rd_cell get a)"
  by (rule framedI) (auto simp: rd_cell_def split: option.splits)

lemma framed_case_option [frames]:
  "framed m \<Longrightarrow> (\<And>x. framed (k x)) \<Longrightarrow> framed (case y of None \<Rightarrow> m | Some x \<Rightarrow> k x)"
  by (cases y) simp_all

lemma framed_case_prod [frames]:
  "(\<And>x y. framed (k x y)) \<Longrightarrow> framed (case z of (x, y) \<Rightarrow> k x y)"
  by (cases z) simp

lemma rd_bind_Some:
  "rd_bind m k h = Some (v, A) \<longleftrightarrow>
     (\<exists>x B C. m h = Some (x, B) \<and> k x h = Some (v, C) \<and> A = B \<union> C)"
  by (auto simp: rd_bind_def split: option.splits)

lemma rd_return_Some: "rd_return x h = Some (v, A) \<longleftrightarrow> v = x \<and> A = {}"
  by (auto simp: rd_return_def)

lemma rd_cell_Some:
  "rd_cell get a h = Some (v, A) \<longleftrightarrow> (\<exists>c. cells h a = Some c \<and> get c = Some v \<and> A = {a})"
  by (auto simp: rd_cell_def split: option.splits)

subsection \<open>The contract of a deep copy\<close>

locale deep_copier =
  fixes copy :: "'a \<Rightarrow> heap \<Rightarrow> 'a \<times> heap" and den :: "'a \<Rightarrow> 'b reader"
  assumes framed_den: "framed (den x)"
    and copies:
      "heap_wf h \<Longrightarrow> den x h = Some (v, A) \<Longrightarrow> copy x h = (y, h') \<Longrightarrow>
         extends h h' \<and> (\<exists>B. den y h' = Some (v, B) \<and> B \<inter> dom (cells h) = {})"
begin

lemma copied:
  assumes "heap_wf h" "den x h = Some (v, A)" "copy x h = (y, h')"
  obtains B where "extends h h'" "den y h' = Some (v, B)" "B \<inter> dom (cells h) = {}"
  using copies [OF assms] by blast

text \<open>
  Original and copy are independent: writes to new cells are not seen through the original, and
  writes to old cells not through the copy.
\<close>

lemma independent:
  assumes "heap_wf h" "den x h = Some (v, A)" "copy x h = (y, h')"
  shows "extends h h' \<and> (\<exists>B. den y h' = Some (v, B)
    \<and> (\<forall>ws. fst ` set ws \<inter> dom (cells h) = {} \<longrightarrow> den x (stores ws h') = Some (v, A))
    \<and> (\<forall>ws. fst ` set ws \<subseteq> dom (cells h) \<longrightarrow> den y (stores ws h') = Some (v, B)))"
proof -
  obtain B where B: "extends h h'" "den y h' = Some (v, B)" "B \<inter> dom (cells h) = {}"
    using copied [OF assms] by blast
  have orig: "den x h' = Some (v, A)"
    by (rule framed_extends [OF framed_den assms(2) B(1)])
  have A: "A \<subseteq> dom (cells h)"
    by (rule framed_dom [OF framed_den assms(2)])
  have "den x (stores ws h') = Some (v, A)" if "fst ` set ws \<inter> dom (cells h) = {}" for ws
    using that A by (intro framed_agree [OF framed_den orig] ballI cells_stores) blast
  moreover have "den y (stores ws h') = Some (v, B)" if "fst ` set ws \<subseteq> dom (cells h)" for ws
    using that B(3) by (intro framed_agree [OF framed_den B(2)] ballI cells_stores) blast
  ultimately show ?thesis
    using B(1,2) by blast
qed

end

subsection \<open>Building blocks\<close>

text \<open>\<open>*out = *in\<close> for a type without pointers.\<close>

definition copy_flat :: "'a \<Rightarrow> heap \<Rightarrow> 'a \<times> heap" where
  "copy_flat x h = (x, h)"

lemma deep_copier_flat: "deep_copier copy_flat (\<lambda>x. rd_return (f x))"
  by unfold_locales (auto simp: copy_flat_def rd_return_Some extends_refl intro: frames)

text \<open>Two fields in turn.\<close>

fun copy_pair ::
    "('a \<Rightarrow> heap \<Rightarrow> 'a \<times> heap) \<Rightarrow> ('b \<Rightarrow> heap \<Rightarrow> 'b \<times> heap) \<Rightarrow> 'a \<times> 'b \<Rightarrow> heap
     \<Rightarrow> ('a \<times> 'b) \<times> heap" where
  "copy_pair ca cb (a, b) h =
     (let (a', h1) = ca a h; (b', h2) = cb b h1 in ((a', b'), h2))"

fun rd_pair :: "('a \<Rightarrow> 'c reader) \<Rightarrow> ('b \<Rightarrow> 'd reader) \<Rightarrow> 'a \<times> 'b \<Rightarrow> ('c \<times> 'd) reader" where
  "rd_pair da db (a, b) = rd_bind (da a) (\<lambda>v. rd_bind (db b) (\<lambda>w. rd_return (v, w)))"

lemma deep_copier_pair:
  assumes "deep_copier ca da" "deep_copier cb db"
  shows "deep_copier (copy_pair ca cb) (rd_pair da db)"
proof (unfold_locales, goal_cases)
  case (1 x)
  show ?case
    by (cases x) (auto intro!: frames deep_copier.framed_den [OF assms(1)]
        deep_copier.framed_den [OF assms(2)])
next
  case (2 h x v A y h')
  obtain a b where x: "x = (a, b)"
    by fastforce
  obtain v1 v2 A1 A2 where d: "da a h = Some (v1, A1)" "db b h = Some (v2, A2)" "v = (v1, v2)"
    using 2(2) by (auto simp: x rd_bind_Some rd_return_Some)
  obtain a' h1 b' where c: "ca a h = (a', h1)" "cb b h1 = (b', h')" "y = (a', b')"
    using 2(3) by (auto simp: x Let_def split: prod.splits)
  obtain B1 where B1: "extends h h1" "da a' h1 = Some (v1, B1)" "B1 \<inter> dom (cells h) = {}"
    using deep_copier.copied [OF assms(1) 2(1) d(1) c(1)] by blast
  have "db b h1 = Some (v2, A2)"
    by (rule framed_extends [OF deep_copier.framed_den [OF assms(2)] d(2) B1(1)])
  then obtain B2 where B2: "extends h1 h'" "db b' h' = Some (v2, B2)" "B2 \<inter> dom (cells h1) = {}"
    using deep_copier.copied [OF assms(2) _ _ c(2)] B1(1) by (auto simp: extends_def)
  have "da a' h' = Some (v1, B1)"
    by (rule framed_extends [OF deep_copier.framed_den [OF assms(1)] B1(2) B2(1)])
  moreover have "B2 \<inter> dom (cells h) = {}"
    using B2(3) extends_dom [OF B1(1)] by blast
  ultimately show ?case
    using B1(3) B2(2) extends_trans [OF B1(1) B2(1)]
    by (auto simp: c(3) d(3) rd_bind_Some rd_return_Some)
qed

text \<open>
  A struct, as the tuple of the fields that are copied (\<open>get\<close>, \<open>put\<close>), and the rest, which is
  assigned (\<open>*out = *in\<close>).
\<close>

definition copy_struct ::
    "('r \<Rightarrow> 'a) \<Rightarrow> ('r \<Rightarrow> 'a \<Rightarrow> 'r) \<Rightarrow> ('a \<Rightarrow> heap \<Rightarrow> 'a \<times> heap) \<Rightarrow> 'r \<Rightarrow> heap \<Rightarrow> 'r \<times> heap" where
  "copy_struct get put ca r h = (let (x, h1) = ca (get r) h in (put r x, h1))"

definition rd_struct ::
    "('r \<Rightarrow> 'a) \<Rightarrow> ('r \<Rightarrow> 'b \<Rightarrow> 'c) \<Rightarrow> ('a \<Rightarrow> 'b reader) \<Rightarrow> 'r \<Rightarrow> 'c reader" where
  "rd_struct get build da r = rd_bind (da (get r)) (\<lambda>v. rd_return (build r v))"

lemma deep_copier_struct:
  assumes "deep_copier ca da"
    and "\<And>r x. get (put r x) = x" "\<And>r x. build (put r x) = build r"
  shows "deep_copier (copy_struct get put ca) (rd_struct get build da)"
proof (unfold_locales, goal_cases)
  case (1 r)
  show ?case
    unfolding rd_struct_def by (intro frames deep_copier.framed_den [OF assms(1)])
next
  case (2 h r v A y h')
  obtain w where d: "da (get r) h = Some (w, A)" "v = build r w"
    using 2(2) by (auto simp: rd_struct_def rd_bind_Some rd_return_Some)
  obtain x where c: "ca (get r) h = (x, h')" "y = put r x"
    using 2(3) by (auto simp: copy_struct_def Let_def split: prod.splits)
  show ?case
    using deep_copier.copies [OF assms(1) 2(1) d(1) c(1)]
    by (auto simp: rd_struct_def rd_bind_Some rd_return_Some d(2) c(2) assms(2,3))
qed

subsection \<open>Pointers\<close>

text \<open>
  \<open>*out = new(T); (*in).DeepCopyInto(*out)\<close>, and the same for the array of a slice: the new cell is
  allocated before the value is copied, and holds the copy in the end. What it holds in between is
  seen by nobody; here it is the assigned value.
\<close>

definition copy_cell ::
    "('a \<Rightarrow> cell) \<Rightarrow> ('a \<Rightarrow> heap \<Rightarrow> 'a \<times> heap) \<Rightarrow> 'a \<Rightarrow> heap \<Rightarrow> addr \<times> heap" where
  "copy_cell mk copy x h =
     (let (out, h1) = alloc (mk x) h; (y, h2) = copy x h1 in (out, store out (mk y) h2))"

text \<open>The final assignment is to a cell that the old heap did not have.\<close>

lemma store_fresh:
  assumes "extends h h2" "a \<notin> dom (cells h)" "a \<in> dom (cells h2)"
  shows "extends h (store a c h2)" "cells (store a c h2) a = Some c"
  using assms by (auto simp: extends_def heap_wf_def store_def map_le_def)

lemma copy_cell_copies:
  assumes dc: "deep_copier copy den"
    and "heap_wf h" "den x h = Some (w, A)" "copy_cell mk copy x h = (out, h')"
  obtains y B where "extends h h'" "out \<notin> dom (cells h)" "cells h' out = Some (mk y)"
    "den y h' = Some (w, B)" "B \<inter> dom (cells h) = {}"
proof -
  note fr = deep_copier.framed_den [OF dc]
  obtain h1 y h2 where c: "alloc (mk x) h = (out, h1)" "copy x h1 = (y, h2)" "h' = store out (mk y) h2"
    using assms(4) by (auto simp: copy_cell_def Let_def split: prod.splits)
  note al = alloc_extends [OF assms(2) c(1)]
  have "den x h1 = Some (w, A)"
    by (rule framed_extends [OF fr assms(3) al(1)])
  then obtain B where B: "extends h1 h2" "den y h2 = Some (w, B)" "B \<inter> dom (cells h1) = {}"
    using deep_copier.copied [OF dc _ _ c(2)] al(1) by (auto simp: extends_def)
  have out: "out \<in> dom (cells h1)" "out \<in> dom (cells h2)"
    using al(3) extends_cell [OF B(1)] by auto
  have "den y h' = Some (w, B)"
    using B(3) out(1) unfolding c(3) by (intro framed_agree [OF fr B(2)]) (auto simp: store_def)
  moreover have "B \<inter> dom (cells h) = {}"
    using B(3) extends_dom [OF al(1)] by blast
  ultimately show thesis
    using that store_fresh [OF extends_trans [OF al(1) B(1)] al(2) out(2)] al(2) c(3) by blast
qed

text \<open>
  \<open>if in != nil { *out = new(T); (*in).DeepCopyInto(*out) }\<close>. A pointer that is not nil always
  points at a cell of its type; the other case cannot arise in Go.
\<close>

definition new_copy ::
    "('a \<Rightarrow> cell) \<Rightarrow> (cell \<Rightarrow> 'a option) \<Rightarrow> ('a \<Rightarrow> heap \<Rightarrow> 'a \<times> heap) \<Rightarrow> ptr \<Rightarrow> heap \<Rightarrow> ptr \<times> heap" where
  "new_copy mk get copy p h =
     (case p of
        None \<Rightarrow> (None, h)
      | Some a \<Rightarrow>
          (case Option.bind (cells h a) get of
             None \<Rightarrow> (p, h)
           | Some x \<Rightarrow> (let (out, h') = copy_cell mk copy x h in (Some out, h'))))"

definition rd_ptr :: "(cell \<Rightarrow> 'a option) \<Rightarrow> ('a \<Rightarrow> 'b reader) \<Rightarrow> ptr \<Rightarrow> 'b option reader" where
  "rd_ptr get den p =
     (case p of
        None \<Rightarrow> rd_return None
      | Some a \<Rightarrow> rd_bind (rd_cell get a) (\<lambda>x. rd_bind (den x) (\<lambda>v. rd_return (Some v))))"

lemma new_copy_nil [simp]: "new_copy mk get copy None h = (None, h)"
  by (simp add: new_copy_def)

lemma new_copy_keeps_nil: "new_copy mk get copy p h = (q, h') \<Longrightarrow> q = None \<longleftrightarrow> p = None"
  by (auto simp: new_copy_def Let_def split: option.splits prod.splits)

lemma deep_copier_new:
  assumes "deep_copier copy den" "\<And>x. get (mk x) = Some x"
  shows "deep_copier (new_copy mk get copy) (rd_ptr get den)"
proof (unfold_locales, goal_cases)
  case (1 p)
  show ?case
    unfolding rd_ptr_def by (intro frames deep_copier.framed_den [OF assms(1)])
next
  case (2 h p v A q h')
  show ?case
  proof (cases p)
    case None
    then show ?thesis
      using 2 by (auto simp: rd_ptr_def rd_return_Some extends_refl)
  next
    case (Some a)
    obtain c x w A1 where d: "cells h a = Some c" "get c = Some x" "den x h = Some (w, A1)" "v = Some w"
      using 2(2) by (auto simp: Some rd_ptr_def rd_bind_Some rd_return_Some rd_cell_Some)
    obtain out where c: "copy_cell mk copy x h = (out, h')" "q = Some out"
      using 2(3) by (auto simp: Some new_copy_def d(1,2) Let_def split: prod.splits)
    show ?thesis
      by (rule copy_cell_copies [OF assms(1) 2(1) d(3) c(1)])
        (auto simp: c(2) d(4) rd_ptr_def rd_bind_Some rd_return_Some rd_cell_Some assms(2))
  qed
qed

subsection \<open>Slices\<close>

text \<open>\<open>for i := range *in { (*in)[i].DeepCopyInto(&(*out)[i]) }\<close>.\<close>

fun copy_list :: "('a \<Rightarrow> heap \<Rightarrow> 'a \<times> heap) \<Rightarrow> 'a list \<Rightarrow> heap \<Rightarrow> 'a list \<times> heap" where
  "copy_list copy [] h = ([], h)"
| "copy_list copy (x # xs) h =
     (let (y, h1) = copy x h; (ys, h2) = copy_list copy xs h1 in (y # ys, h2))"

fun rd_list :: "('a \<Rightarrow> 'b reader) \<Rightarrow> 'a list \<Rightarrow> 'b list reader" where
  "rd_list den [] = rd_return []"
| "rd_list den (x # xs) = rd_bind (den x) (\<lambda>v. rd_bind (rd_list den xs) (\<lambda>vs. rd_return (v # vs)))"

lemma deep_copier_list:
  assumes "deep_copier copy den"
  shows "deep_copier (copy_list copy) (rd_list den)"
proof (unfold_locales, goal_cases)
  case (1 xs)
  show ?case
    by (induction xs) (auto intro!: frames deep_copier.framed_den [OF assms])
next
  case (2 h xs v A ys h')
  then show ?case
  proof (induction xs arbitrary: h v A ys)
    case Nil
    then show ?case
      by (auto simp: rd_return_Some extends_refl)
  next
    case (Cons x xs)
    note fr = deep_copier.framed_den [OF assms]
    have frs: "framed (rd_list den zs)" for zs
      by (induction zs) (auto intro!: frames fr)
    obtain v1 v2 A1 A2 where d: "den x h = Some (v1, A1)" "rd_list den xs h = Some (v2, A2)" "v = v1 # v2"
      using Cons.prems(2) by (auto simp: rd_bind_Some rd_return_Some)
    obtain y h1 zs where c: "copy x h = (y, h1)" "copy_list copy xs h1 = (zs, h')" "ys = y # zs"
      using Cons.prems(3) by (auto simp: Let_def split: prod.splits)
    obtain B1 where B1: "extends h h1" "den y h1 = Some (v1, B1)" "B1 \<inter> dom (cells h) = {}"
      using deep_copier.copied [OF assms Cons.prems(1) d(1) c(1)] by blast
    have wf: "heap_wf h1"
      using B1(1) by (simp add: extends_def)
    obtain B2 where B2: "extends h1 h'" "rd_list den zs h' = Some (v2, B2)" "B2 \<inter> dom (cells h1) = {}"
      using Cons.IH [OF wf framed_extends [OF frs d(2) B1(1)] c(2)] by blast
    have "den y h' = Some (v1, B1)"
      by (rule framed_extends [OF fr B1(2) B2(1)])
    moreover have "B2 \<inter> dom (cells h) = {}"
      using B2(3) extends_dom [OF B1(1)] by blast
    ultimately show ?case
      using B2(2) B1(3) extends_trans [OF B1(1) B2(1)]
      by (auto simp: c(3) d(3) rd_bind_Some rd_return_Some)
  qed
qed

text \<open>
  \<open>if in != nil { *out = make([]T, len(*in)); for i := range *in { ... } }\<close>: the new array has the
  length of the slice, whatever the array behind it had.
\<close>

definition slice_copy ::
    "('a list \<Rightarrow> cell) \<Rightarrow> (cell \<Rightarrow> 'a list option) \<Rightarrow> ('a \<Rightarrow> heap \<Rightarrow> 'a \<times> heap)
     \<Rightarrow> slice \<Rightarrow> heap \<Rightarrow> slice \<times> heap" where
  "slice_copy mk get copy s h =
     (case s of
        None \<Rightarrow> (None, h)
      | Some (a, off, n) \<Rightarrow>
          (case Option.bind (cells h a) get of
             None \<Rightarrow> (s, h)
           | Some arr \<Rightarrow>
               (let (out, h') = copy_cell mk (copy_list copy) (take n (drop off arr)) h
                in (Some (out, 0, n), h'))))"

text \<open>A nil slice and an empty one differ in Go, so the denotation keeps them apart.\<close>

definition rd_slice ::
    "(cell \<Rightarrow> 'a list option) \<Rightarrow> ('a \<Rightarrow> 'b reader) \<Rightarrow> slice \<Rightarrow> 'b list option reader" where
  "rd_slice get den s =
     (case s of
        None \<Rightarrow> rd_return None
      | Some (a, off, n) \<Rightarrow>
          rd_bind (rd_cell (\<lambda>c. case get c of
                              None \<Rightarrow> None
                            | Some arr \<Rightarrow> if off + n \<le> length arr then Some (take n (drop off arr)) else None) a)
            (\<lambda>xs. rd_bind (rd_list den xs) (\<lambda>vs. rd_return (Some vs))))"

lemma slice_copy_nil [simp]: "slice_copy mk get copy None h = (None, h)"
  by (simp add: slice_copy_def)

lemma length_copy_list: "copy_list copy xs h = (ys, h') \<Longrightarrow> length ys = length xs"
  by (induction xs arbitrary: h ys h') (auto simp: Let_def split: prod.splits)

lemma length_rd_list: "rd_list den xs h = Some (vs, A) \<Longrightarrow> length vs = length xs"
  by (induction xs arbitrary: vs A) (auto simp: rd_return_Some rd_bind_Some)

lemma deep_copier_slice:
  assumes "deep_copier copy den" "\<And>xs. get (mk xs) = Some xs"
  shows "deep_copier (slice_copy mk get copy) (rd_slice get den)"
proof (unfold_locales, goal_cases)
  case (1 s)
  show ?case
    unfolding rd_slice_def
    by (intro frames deep_copier.framed_den [OF deep_copier_list [OF assms(1)]])
next
  case (2 h s v A q h')
  show ?case
  proof (cases s)
    case None
    then show ?thesis
      using 2 by (auto simp: rd_slice_def rd_return_Some extends_refl)
  next
    case (Some t)
    then obtain a off n where s: "s = Some (a, off, n)"
      by (cases t) auto
    obtain c arr vs A1 where d: "cells h a = Some c" "get c = Some arr" "off + n \<le> length arr"
        "rd_list den (take n (drop off arr)) h = Some (vs, A1)" "v = Some vs"
      using 2(2) by (auto simp: s rd_slice_def rd_bind_Some rd_return_Some rd_cell_Some
          split: option.splits if_splits)
    obtain out where c: "copy_cell mk (copy_list copy) (take n (drop off arr)) h = (out, h')"
        "q = Some (out, 0, n)"
      using 2(3) by (auto simp: s slice_copy_def d(1,2) Let_def split: prod.splits)
    obtain y B where B: "extends h h'" "out \<notin> dom (cells h)" "cells h' out = Some (mk y)"
        "rd_list den y h' = Some (vs, B)" "B \<inter> dom (cells h) = {}"
      by (rule copy_cell_copies [OF deep_copier_list [OF assms(1)] 2(1) d(4) c(1)])
    have "length y = n"
      using length_rd_list [OF B(4)] length_rd_list [OF d(4)] d(3) by simp
    then show ?thesis
      using B by (auto simp: c(2) d(5) rd_slice_def rd_bind_Some rd_return_Some rd_cell_Some assms(2))
  qed
qed

end
