(* ===== verification/Deep_Copy.thy ===== *)
theory Deep_Copy
  imports Go_Heap
begin

text \<open>
  The copying functions of \<open>api/v1alpha1/zz_generated.deepcopy.go\<close>, one definition each, on the
  heap of \<open>Go_Heap\<close>. The API server's cache hands out shared objects and the client library relies
  on these functions to keep them apart; each \<open>X_DeepCopyInto\<close> is a deep copier for the denotation
  \<open>rd_X\<close>, which reads the value as the records of \<open>Api_Types\<close>.
\<close>

subsection \<open>Copying functions of the libraries\<close>

text \<open>
  The structs of the Kubernetes libraries bring their own copying functions: \<open>ObjectMeta\<close>,
  \<open>ListMeta\<close>, \<open>LabelSelector\<close>, \<open>JSON\<close>, \<open>Time\<close> and \<open>Condition\<close>, and what their memory denotes.
\<close>

record lib_copies =
  ObjectMeta_DeepCopyInto :: "lib_struct \<Rightarrow> heap \<Rightarrow> lib_struct \<times> heap"
  ListMeta_DeepCopyInto :: "lib_struct \<Rightarrow> heap \<Rightarrow> lib_struct \<times> heap"
  LabelSelector_DeepCopyInto :: "lib_struct \<Rightarrow> heap \<Rightarrow> lib_struct \<times> heap"
  JSON_DeepCopyInto :: "lib_struct \<Rightarrow> heap \<Rightarrow> lib_struct \<times> heap"
  Time_DeepCopy :: "ptr \<Rightarrow> heap \<Rightarrow> ptr \<times> heap"
  Condition_DeepCopyInto :: "Condition \<Rightarrow> heap \<Rightarrow> Condition \<times> heap"
  rd_ObjectMeta :: "lib_struct \<Rightarrow> ObjectMeta reader"
  rd_ListMeta :: "lib_struct \<Rightarrow> string reader"
  rd_LabelSelector :: "lib_struct \<Rightarrow> LabelSelector reader"
  rd_JSON :: "lib_struct \<Rightarrow> bytes reader"

text \<open>Their documented behaviour.\<close>

definition lib_ok :: "lib_copies \<Rightarrow> bool" where
  "lib_ok L \<longleftrightarrow>
     deep_copier (ObjectMeta_DeepCopyInto L) (rd_ObjectMeta L)
     \<and> deep_copier (ListMeta_DeepCopyInto L) (rd_ListMeta L)
     \<and> deep_copier (LabelSelector_DeepCopyInto L) (rd_LabelSelector L)
     \<and> deep_copier (JSON_DeepCopyInto L) (rd_JSON L)
     \<and> deep_copier (Time_DeepCopy L) (rd_ptr get_Time rd_return)
     \<and> (\<forall>p h q h'. Time_DeepCopy L p h = (q, h') \<longrightarrow> (q = None \<longleftrightarrow> p = None))
     \<and> deep_copier (Condition_DeepCopyInto L) rd_return"

named_theorems deep_copies "deep copiers, and how they are composed"

lemmas [deep_copies] = deep_copier_pair deep_copier_new deep_copier_slice

lemma lib_copiers [deep_copies]:
  assumes "lib_ok L"
  shows "deep_copier (ObjectMeta_DeepCopyInto L) (rd_ObjectMeta L)"
    and "deep_copier (ListMeta_DeepCopyInto L) (rd_ListMeta L)"
    and "deep_copier (LabelSelector_DeepCopyInto L) (rd_LabelSelector L)"
    and "deep_copier (JSON_DeepCopyInto L) (rd_JSON L)"
    and "deep_copier (Time_DeepCopy L) (rd_ptr get_Time rd_return)"
    and "deep_copier (Condition_DeepCopyInto L) rd_return"
  using assms by (simp_all add: lib_ok_def)

lemma deep_copier_assign [deep_copies]: "deep_copier copy_flat rd_return"
  using deep_copier_flat [of "\<lambda>x. x"] by (simp add: eta_contract_eq)

text \<open>A copying function that copies the fields of a struct in turn.\<close>

lemma struct_copier:
  assumes "deep_copier ca da" "\<And>r h. f r h = copy_struct get put ca r h"
    and "\<And>r x. get (put r x) = x" "\<And>r x. build (put r x) = build r"
  shows "deep_copier f (rd_struct get build da)"
proof -
  have "f = copy_struct get put ca"
    by (intro ext) (rule assms(2))
  then show ?thesis
    using deep_copier_struct [of ca da get put build] assms by simp
qed

subsection \<open>Structs without pointers\<close>

definition ConfigMapSource_DeepCopyInto :: "ConfigMapSource \<Rightarrow> heap \<Rightarrow> ConfigMapSource \<times> heap" where
  "ConfigMapSource_DeepCopyInto inp h = (inp, h)"

definition DriftSummary_DeepCopyInto :: "DriftSummary \<Rightarrow> heap \<Rightarrow> DriftSummary \<times> heap" where
  "DriftSummary_DeepCopyInto inp h = (inp, h)"

definition DriftedResource_DeepCopyInto :: "DriftedResource \<Rightarrow> heap \<Rightarrow> DriftedResource \<times> heap" where
  "DriftedResource_DeepCopyInto inp h = (inp, h)"

definition GitAuth_DeepCopyInto :: "GitAuthSpec \<Rightarrow> heap \<Rightarrow> GitAuthSpec \<times> heap" where
  "GitAuth_DeepCopyInto inp h =
     (let out = inp; out = out\<lparr>gas_secretRef := gas_secretRef inp\<rparr> in (out, h))"

definition LocalSecretRef_DeepCopyInto :: "LocalSecretRef \<Rightarrow> heap \<Rightarrow> LocalSecretRef \<times> heap" where
  "LocalSecretRef_DeepCopyInto inp h = (inp, h)"

definition SecretKeyRef_DeepCopyInto :: "SecretKeyRef \<Rightarrow> heap \<Rightarrow> SecretKeyRef \<times> heap" where
  "SecretKeyRef_DeepCopyInto inp h = (inp, h)"

lemma flat_copies:
  "ConfigMapSource_DeepCopyInto = copy_flat" "DriftSummary_DeepCopyInto = copy_flat"
  "DriftedResource_DeepCopyInto = copy_flat" "GitAuth_DeepCopyInto = copy_flat"
  "LocalSecretRef_DeepCopyInto = copy_flat" "SecretKeyRef_DeepCopyInto = copy_flat"
  by (simp_all add: fun_eq_iff copy_flat_def ConfigMapSource_DeepCopyInto_def
      DriftSummary_DeepCopyInto_def DriftedResource_DeepCopyInto_def GitAuth_DeepCopyInto_def
      LocalSecretRef_DeepCopyInto_def SecretKeyRef_DeepCopyInto_def Let_def)

subsection \<open>Sources\<close>

definition GitSource_DeepCopyInto :: "GGitSource \<Rightarrow> heap \<Rightarrow> GGitSource \<times> heap" where
  "GitSource_DeepCopyInto inp h =
     (let out = inp;
          (auth, h) = new_copy CGitAuth get_GitAuth copy_flat (ggs_auth inp) h
      in (out\<lparr>ggs_auth := auth\<rparr>, h))"

definition rd_GitSource :: "GGitSource \<Rightarrow> GitSourceSpec reader" where
  "rd_GitSource =
     rd_struct ggs_auth
       (\<lambda>r auth. \<lparr>gss_url = ggs_url r, gss_ref = ggs_ref r, gss_path = ggs_path r, gss_auth = auth\<rparr>)
       (rd_ptr get_GitAuth rd_return)"

lemma GitSource_copier [deep_copies]: "deep_copier GitSource_DeepCopyInto rd_GitSource"
  unfolding rd_GitSource_def
  by (rule struct_copier [where put = "\<lambda>r x. r\<lparr>ggs_auth := x\<rparr>"], (rule deep_copies get_cell_eqs)+)
    (simp_all add: GitSource_DeepCopyInto_def copy_struct_def)

definition KustomizeSource_DeepCopyInto :: "GKustomizeSource \<Rightarrow> heap \<Rightarrow> GKustomizeSource \<times> heap" where
  "KustomizeSource_DeepCopyInto inp h =
     (let out = inp;
          (git, h) = GitSource_DeepCopyInto (gks_git inp) h
      in (out\<lparr>gks_git := git\<rparr>, h))"

definition rd_KustomizeSource :: "GKustomizeSource \<Rightarrow> KustomizeSourceSpec reader" where
  "rd_KustomizeSource = rd_struct gks_git (\<lambda>r git. \<lparr>kss_git = git\<rparr>) rd_GitSource"

lemma KustomizeSource_copier [deep_copies]:
  "deep_copier KustomizeSource_DeepCopyInto rd_KustomizeSource"
  unfolding rd_KustomizeSource_def
  by (rule struct_copier [where put = "\<lambda>r x. r\<lparr>gks_git := x\<rparr>", OF GitSource_copier])
    (simp_all add: KustomizeSource_DeepCopyInto_def copy_struct_def)

definition HelmSource_DeepCopyInto :: "lib_copies \<Rightarrow> GHelmSource \<Rightarrow> heap \<Rightarrow> GHelmSource \<times> heap" where
  "HelmSource_DeepCopyInto L inp h =
     (let out = inp;
          (git, h) = GitSource_DeepCopyInto (ghs_git inp) h;
          (values, h) = new_copy CLib get_Lib (JSON_DeepCopyInto L) (ghs_values inp) h;
          (files, h) = slice_copy CStrings get_Strings copy_flat (ghs_valuesFiles inp) h
      in (out\<lparr>ghs_git := git, ghs_values := values, ghs_valuesFiles := files\<rparr>, h))"

text \<open>The records of \<open>Api_Types\<close> have lists for slices: a nil slice reads as the empty one.\<close>

definition items :: "'a list option \<Rightarrow> 'a list" where
  "items s = (case s of None \<Rightarrow> [] | Some xs \<Rightarrow> xs)"

definition rd_HelmSource :: "lib_copies \<Rightarrow> GHelmSource \<Rightarrow> HelmSourceSpec reader" where
  "rd_HelmSource L =
     rd_struct (\<lambda>r. (ghs_git r, ghs_values r, ghs_valuesFiles r))
       (\<lambda>r (git, values, files).
          \<lparr>hss_git = git, hss_releaseName = ghs_releaseName r, hss_namespace = ghs_namespace r,
           hss_values = values, hss_valuesFiles = items files,
           hss_dependencyBuild = ghs_dependencyBuild r\<rparr>)
       (rd_pair rd_GitSource
         (rd_pair (rd_ptr get_Lib (rd_JSON L)) (rd_slice get_Strings rd_return)))"

lemma HelmSource_copier [deep_copies]:
  assumes "lib_ok L"
  shows "deep_copier (HelmSource_DeepCopyInto L) (rd_HelmSource L)"
  unfolding rd_HelmSource_def
  by (rule struct_copier [where put = "\<lambda>r (git, values, files).
        r\<lparr>ghs_git := git, ghs_values := values, ghs_valuesFiles := files\<rparr>"],
      (rule deep_copies get_cell_eqs assms)+)
    (auto simp: HelmSource_DeepCopyInto_def copy_struct_def Let_def split: prod.splits)

definition Source_DeepCopyInto :: "lib_copies \<Rightarrow> GSource \<Rightarrow> heap \<Rightarrow> GSource \<times> heap" where
  "Source_DeepCopyInto L inp h =
     (let out = inp;
          (git, h) = new_copy CGitSource get_GitSource GitSource_DeepCopyInto (gsrc_git inp) h;
          (configMap, h) = new_copy CConfigMapSource get_ConfigMapSource copy_flat (gsrc_configMap inp) h;
          (helm, h) = new_copy CHelmSource get_HelmSource (HelmSource_DeepCopyInto L) (gsrc_helm inp) h;
          (kustomize, h) =
            new_copy CKustomizeSource get_KustomizeSource KustomizeSource_DeepCopyInto (gsrc_kustomize inp) h
      in (out\<lparr>gsrc_git := git, gsrc_configMap := configMap, gsrc_helm := helm,
              gsrc_kustomize := kustomize\<rparr>, h))"

definition rd_Source :: "lib_copies \<Rightarrow> GSource \<Rightarrow> Source reader" where
  "rd_Source L =
     rd_struct (\<lambda>r. (gsrc_git r, gsrc_configMap r, gsrc_helm r, gsrc_kustomize r))
       (\<lambda>r (git, configMap, helm, kustomize).
          \<lparr>src_type = gsrc_type r, src_git = git, src_configMap = configMap, src_helm = helm,
           src_kustomize = kustomize\<rparr>)
       (rd_pair (rd_ptr get_GitSource rd_GitSource)
         (rd_pair (rd_ptr get_ConfigMapSource rd_return)
           (rd_pair (rd_ptr get_HelmSource (rd_HelmSource L))
             (rd_ptr get_KustomizeSource rd_KustomizeSource))))"

lemma Source_copier [deep_copies]:
  assumes "lib_ok L"
  shows "deep_copier (Source_DeepCopyInto L) (rd_Source L)"
  unfolding rd_Source_def
  by (rule struct_copier [where put = "\<lambda>r (git, configMap, helm, kustomize).
        r\<lparr>gsrc_git := git, gsrc_configMap := configMap, gsrc_helm := helm, gsrc_kustomize := kustomize\<rparr>"],
      (rule deep_copies get_cell_eqs assms)+)
    (auto simp: Source_DeepCopyInto_def copy_struct_def Let_def split: prod.splits)

subsection \<open>Notification and target settings\<close>

definition Webhook_DeepCopyInto :: "GWebhook \<Rightarrow> heap \<Rightarrow> GWebhook \<times> heap" where
  "Webhook_DeepCopyInto inp h =
     (let out = inp;
          (ref, h) = new_copy CSecretKeyRef get_SecretKeyRef copy_flat (gwh_urlSecretRef inp) h
      in (out\<lparr>gwh_urlSecretRef := ref\<rparr>, h))"

definition rd_Webhook :: "GWebhook \<Rightarrow> WebhookSpec reader" where
  "rd_Webhook =
     rd_struct gwh_urlSecretRef (\<lambda>r ref. \<lparr>wh_type = gwh_type r, wh_url = gwh_url r, wh_urlSecretRef = ref\<rparr>)
       (rd_ptr get_SecretKeyRef rd_return)"

lemma Webhook_copier [deep_copies]: "deep_copier Webhook_DeepCopyInto rd_Webhook"
  unfolding rd_Webhook_def
  by (rule struct_copier [where put = "\<lambda>r x. r\<lparr>gwh_urlSecretRef := x\<rparr>"],
      (rule deep_copies get_cell_eqs)+)
    (simp_all add: Webhook_DeepCopyInto_def copy_struct_def)

definition NotifySpec_DeepCopyInto :: "GNotifySpec \<Rightarrow> heap \<Rightarrow> GNotifySpec \<times> heap" where
  "NotifySpec_DeepCopyInto inp h =
     (let out = inp;
          (webhooks, h) = slice_copy CWebhooks get_Webhooks Webhook_DeepCopyInto (gns_webhooks inp) h
      in (out\<lparr>gns_webhooks := webhooks\<rparr>, h))"

definition rd_NotifySpec :: "GNotifySpec \<Rightarrow> NotifySpec reader" where
  "rd_NotifySpec =
     rd_struct gns_webhooks (\<lambda>r webhooks. \<lparr>ns_webhooks = items webhooks\<rparr>) (rd_slice get_Webhooks rd_Webhook)"

lemma NotifySpec_copier [deep_copies]: "deep_copier NotifySpec_DeepCopyInto rd_NotifySpec"
  unfolding rd_NotifySpec_def
  by (rule struct_copier [where put = "\<lambda>r x. r\<lparr>gns_webhooks := x\<rparr>"],
      (rule deep_copies get_cell_eqs)+)
    (simp_all add: NotifySpec_DeepCopyInto_def copy_struct_def)

definition Target_DeepCopyInto :: "lib_copies \<Rightarrow> GTarget \<Rightarrow> heap \<Rightarrow> GTarget \<times> heap" where
  "Target_DeepCopyInto L inp h =
     (let out = inp;
          (namespaces, h) = slice_copy CStrings get_Strings copy_flat (gtgt_namespaces inp) h;
          (selector, h) = new_copy CLib get_Lib (LabelSelector_DeepCopyInto L) (gtgt_labelSelector inp) h
      in (out\<lparr>gtgt_namespaces := namespaces, gtgt_labelSelector := selector\<rparr>, h))"

definition rd_Target :: "lib_copies \<Rightarrow> GTarget \<Rightarrow> Target reader" where
  "rd_Target L =
     rd_struct (\<lambda>r. (gtgt_namespaces r, gtgt_labelSelector r))
       (\<lambda>r (namespaces, selector). \<lparr>tgt_namespaces = items namespaces, tgt_labelSelector = selector\<rparr>)
       (rd_pair (rd_slice get_Strings rd_return) (rd_ptr get_Lib (rd_LabelSelector L)))"

lemma Target_copier [deep_copies]:
  assumes "lib_ok L"
  shows "deep_copier (Target_DeepCopyInto L) (rd_Target L)"
  unfolding rd_Target_def
  by (rule struct_copier [where put = "\<lambda>r (namespaces, selector).
        r\<lparr>gtgt_namespaces := namespaces, gtgt_labelSelector := selector\<rparr>"],
      (rule deep_copies get_cell_eqs assms)+)
    (auto simp: Target_DeepCopyInto_def copy_struct_def Let_def split: prod.splits)

subsection \<open>The resource\<close>

definition DriftCheckSpec_DeepCopyInto :: "lib_copies \<Rightarrow> GSpec \<Rightarrow> heap \<Rightarrow> GSpec \<times> heap" where
  "DriftCheckSpec_DeepCopyInto L inp h =
     (let out = inp;
          (src, h) = Source_DeepCopyInto L (gspec_source inp) h;
          (tgt, h) = Target_DeepCopyInto L (gspec_target inp) h;
          out = out\<lparr>gspec_source := src, gspec_target := tgt, gspec_interval := gspec_interval inp\<rparr>;
          (notify, h) = new_copy CNotifySpec get_NotifySpec NotifySpec_DeepCopyInto (gspec_notify inp) h
      in (out\<lparr>gspec_notify := notify\<rparr>, h))"

definition rd_Spec :: "lib_copies \<Rightarrow> GSpec \<Rightarrow> DriftCheckSpec reader" where
  "rd_Spec L =
     rd_struct (\<lambda>r. (gspec_source r, gspec_target r, gspec_notify r))
       (\<lambda>r (src, tgt, notify).
          \<lparr>spec_source = src, spec_target = tgt, spec_interval = gspec_interval r, spec_notify = notify\<rparr>)
       (rd_pair (rd_Source L) (rd_pair (rd_Target L) (rd_ptr get_NotifySpec rd_NotifySpec)))"

lemma Spec_copier [deep_copies]:
  assumes "lib_ok L"
  shows "deep_copier (DriftCheckSpec_DeepCopyInto L) (rd_Spec L)"
  unfolding rd_Spec_def
  by (rule struct_copier [where put = "\<lambda>r (src, tgt, notify).
        r\<lparr>gspec_source := src, gspec_target := tgt, gspec_notify := notify\<rparr>"],
      (rule deep_copies get_cell_eqs assms)+)
    (auto simp: DriftCheckSpec_DeepCopyInto_def copy_struct_def Let_def split: prod.splits)

definition DriftCheckStatus_DeepCopyInto :: "lib_copies \<Rightarrow> GStatus \<Rightarrow> heap \<Rightarrow> GStatus \<times> heap" where
  "DriftCheckStatus_DeepCopyInto L inp h =
     (let out = inp;
          (checked, h) = Time_DeepCopy L (gst_lastCheckedAt inp) h;
          (drifted, h) =
            slice_copy CDriftedResources get_DriftedResources copy_flat (gst_driftedResources inp) h;
          out = out\<lparr>gst_lastCheckedAt := checked, gst_driftedResources := drifted,
                    gst_summary := gst_summary inp\<rparr>;
          (conditions, h) =
            slice_copy CConditions get_Conditions (Condition_DeepCopyInto L) (gst_conditions inp) h
      in (out\<lparr>gst_conditions := conditions\<rparr>, h))"

definition rd_Status :: "lib_copies \<Rightarrow> GStatus \<Rightarrow> DriftCheckStatus reader" where
  "rd_Status L =
     rd_struct (\<lambda>r. (gst_lastCheckedAt r, gst_driftedResources r, gst_conditions r))
       (\<lambda>r (checked, drifted, conditions).
          \<lparr>st_lastCheckedAt = checked, st_driftedResources = items drifted, st_summary = gst_summary r,
           st_observedGeneration = gst_observedGeneration r,
           st_lastNotifiedHash = gst_lastNotifiedHash r, st_conditions = items conditions\<rparr>)
       (rd_pair (rd_ptr get_Time rd_return)
         (rd_pair (rd_slice get_DriftedResources rd_return) (rd_slice get_Conditions rd_return)))"

lemma Status_copier [deep_copies]:
  assumes "lib_ok L"
  shows "deep_copier (DriftCheckStatus_DeepCopyInto L) (rd_Status L)"
  unfolding rd_Status_def
  by (rule struct_copier [where put = "\<lambda>r (checked, drifted, conditions).
        r\<lparr>gst_lastCheckedAt := checked, gst_driftedResources := drifted, gst_conditions := conditions\<rparr>"],
      (rule deep_copies get_cell_eqs assms)+)
    (auto simp: DriftCheckStatus_DeepCopyInto_def copy_struct_def Let_def split: prod.splits)

definition DriftCheck_DeepCopyInto :: "lib_copies \<Rightarrow> GDriftCheck \<Rightarrow> heap \<Rightarrow> GDriftCheck \<times> heap" where
  "DriftCheck_DeepCopyInto L inp h =
     (let out = inp;
          out = out\<lparr>gdc_type := gdc_type inp\<rparr>;
          (om, h) = ObjectMeta_DeepCopyInto L (gdc_meta inp) h;
          (spec, h) = DriftCheckSpec_DeepCopyInto L (gdc_spec inp) h;
          (status, h) = DriftCheckStatus_DeepCopyInto L (gdc_status inp) h
      in (out\<lparr>gdc_meta := om, gdc_spec := spec, gdc_status := status\<rparr>, h))"

text \<open>A resource denotes its type and the record the reconciler works on.\<close>

definition rd_DriftCheck :: "lib_copies \<Rightarrow> GDriftCheck \<Rightarrow> (TypeMeta \<times> DriftCheck) reader" where
  "rd_DriftCheck L =
     rd_struct (\<lambda>r. (gdc_meta r, gdc_spec r, gdc_status r))
       (\<lambda>r (om, spec, status). (gdc_type r, \<lparr>dc_meta = om, dc_spec = spec, dc_status = status\<rparr>))
       (rd_pair (rd_ObjectMeta L) (rd_pair (rd_Spec L) (rd_Status L)))"

lemma DriftCheck_copier [deep_copies]:
  assumes "lib_ok L"
  shows "deep_copier (DriftCheck_DeepCopyInto L) (rd_DriftCheck L)"
  unfolding rd_DriftCheck_def
  by (rule struct_copier [where put = "\<lambda>r (om, spec, status).
        r\<lparr>gdc_meta := om, gdc_spec := spec, gdc_status := status\<rparr>"],
      (rule deep_copies get_cell_eqs assms)+)
    (auto simp: DriftCheck_DeepCopyInto_def copy_struct_def Let_def split: prod.splits)

definition DriftCheckList_DeepCopyInto ::
    "lib_copies \<Rightarrow> GDriftCheckList \<Rightarrow> heap \<Rightarrow> GDriftCheckList \<times> heap" where
  "DriftCheckList_DeepCopyInto L inp h =
     (let out = inp;
          out = out\<lparr>gdl_type := gdl_type inp\<rparr>;
          (lm, h) = ListMeta_DeepCopyInto L (gdl_meta inp) h;
          (xs, h) = slice_copy CDriftChecks get_DriftChecks (DriftCheck_DeepCopyInto L) (gdl_items inp) h
      in (out\<lparr>gdl_meta := lm, gdl_items := xs\<rparr>, h))"

definition rd_DriftCheckList ::
    "lib_copies \<Rightarrow> GDriftCheckList \<Rightarrow> (TypeMeta \<times> string \<times> (TypeMeta \<times> DriftCheck) list) reader" where
  "rd_DriftCheckList L =
     rd_struct (\<lambda>r. (gdl_meta r, gdl_items r)) (\<lambda>r (lm, xs). (gdl_type r, lm, items xs))
       (rd_pair (rd_ListMeta L) (rd_slice get_DriftChecks (rd_DriftCheck L)))"

lemma DriftCheckList_copier [deep_copies]:
  assumes "lib_ok L"
  shows "deep_copier (DriftCheckList_DeepCopyInto L) (rd_DriftCheckList L)"
  unfolding rd_DriftCheckList_def
  by (rule struct_copier [where put = "\<lambda>r (lm, xs). r\<lparr>gdl_meta := lm, gdl_items := xs\<rparr>"],
      (rule deep_copies get_cell_eqs assms)+)
    (auto simp: DriftCheckList_DeepCopyInto_def copy_struct_def Let_def split: prod.splits)

subsection \<open>Copies behind a pointer\<close>

text \<open>\<open>if in == nil { return nil }; out := new(T); in.DeepCopyInto(out); return out\<close>, per type.\<close>

definition ConfigMapSource_DeepCopy :: "ptr \<Rightarrow> heap \<Rightarrow> ptr \<times> heap" where
  "ConfigMapSource_DeepCopy = new_copy CConfigMapSource get_ConfigMapSource ConfigMapSource_DeepCopyInto"

definition DriftCheck_DeepCopy :: "lib_copies \<Rightarrow> ptr \<Rightarrow> heap \<Rightarrow> ptr \<times> heap" where
  "DriftCheck_DeepCopy L = new_copy CDriftCheck get_DriftCheck (DriftCheck_DeepCopyInto L)"

definition DriftCheckList_DeepCopy :: "lib_copies \<Rightarrow> ptr \<Rightarrow> heap \<Rightarrow> ptr \<times> heap" where
  "DriftCheckList_DeepCopy L = new_copy CDriftCheckList get_DriftCheckList (DriftCheckList_DeepCopyInto L)"

definition DriftCheckSpec_DeepCopy :: "lib_copies \<Rightarrow> ptr \<Rightarrow> heap \<Rightarrow> ptr \<times> heap" where
  "DriftCheckSpec_DeepCopy L = new_copy CSpec get_Spec (DriftCheckSpec_DeepCopyInto L)"

definition DriftCheckStatus_DeepCopy :: "lib_copies \<Rightarrow> ptr \<Rightarrow> heap \<Rightarrow> ptr \<times> heap" where
  "DriftCheckStatus_DeepCopy L = new_copy CStatus get_Status (DriftCheckStatus_DeepCopyInto L)"

definition DriftSummary_DeepCopy :: "ptr \<Rightarrow> heap \<Rightarrow> ptr \<times> heap" where
  "DriftSummary_DeepCopy = new_copy CDriftSummary get_DriftSummary DriftSummary_DeepCopyInto"

definition DriftedResource_DeepCopy :: "ptr \<Rightarrow> heap \<Rightarrow> ptr \<times> heap" where
  "DriftedResource_DeepCopy = new_copy CDriftedResource get_DriftedResource DriftedResource_DeepCopyInto"

definition GitAuth_DeepCopy :: "ptr \<Rightarrow> heap \<Rightarrow> ptr \<times> heap" where
  "GitAuth_DeepCopy = new_copy CGitAuth get_GitAuth GitAuth_DeepCopyInto"

definition GitSource_DeepCopy :: "ptr \<Rightarrow> heap \<Rightarrow> ptr \<times> heap" where
  "GitSource_DeepCopy = new_copy CGitSource get_GitSource GitSource_DeepCopyInto"

definition HelmSource_DeepCopy :: "lib_copies \<Rightarrow> ptr \<Rightarrow> heap \<Rightarrow> ptr \<times> heap" where
  "HelmSource_DeepCopy L = new_copy CHelmSource get_HelmSource (HelmSource_DeepCopyInto L)"

definition KustomizeSource_DeepCopy :: "ptr \<Rightarrow> heap \<Rightarrow> ptr \<times> heap" where
  "KustomizeSource_DeepCopy = new_copy CKustomizeSource get_KustomizeSource KustomizeSource_DeepCopyInto"

definition LocalSecretRef_DeepCopy :: "ptr \<Rightarrow> heap \<Rightarrow> ptr \<times> heap" where
  "LocalSecretRef_DeepCopy = new_copy CLocalSecretRef get_LocalSecretRef LocalSecretRef_DeepCopyInto"

definition NotifySpec_DeepCopy :: "ptr \<Rightarrow> heap \<Rightarrow> ptr \<times> heap" where
  "NotifySpec_DeepCopy = new_copy CNotifySpec get_NotifySpec NotifySpec_DeepCopyInto"

definition SecretKeyRef_DeepCopy :: "ptr \<Rightarrow> heap \<Rightarrow> ptr \<times> heap" where
  "SecretKeyRef_DeepCopy = new_copy CSecretKeyRef get_SecretKeyRef SecretKeyRef_DeepCopyInto"

definition Source_DeepCopy :: "lib_copies \<Rightarrow> ptr \<Rightarrow> heap \<Rightarrow> ptr \<times> heap" where
  "Source_DeepCopy L = new_copy CSource get_Source (Source_DeepCopyInto L)"

definition Target_DeepCopy :: "lib_copies \<Rightarrow> ptr \<Rightarrow> heap \<Rightarrow> ptr \<times> heap" where
  "Target_DeepCopy L = new_copy CTarget get_Target (Target_DeepCopyInto L)"

definition Webhook_DeepCopy :: "ptr \<Rightarrow> heap \<Rightarrow> ptr \<times> heap" where
  "Webhook_DeepCopy = new_copy CWebhook get_Webhook Webhook_DeepCopyInto"

text \<open>
  A \<open>runtime.Object\<close> is a dynamic type and a pointer of it, or the nil interface, which is not the
  same as a nil pointer of a dynamic type.
\<close>

datatype runtime_object =
    DriftCheckObject ptr
  | DriftCheckListObject ptr

definition DriftCheck_DeepCopyObject :: "lib_copies \<Rightarrow> ptr \<Rightarrow> heap \<Rightarrow> runtime_object option \<times> heap" where
  "DriftCheck_DeepCopyObject L p h =
     (let (c, h) = DriftCheck_DeepCopy L p h
      in if c \<noteq> None then (Some (DriftCheckObject c), h) else (None, h))"

definition DriftCheckList_DeepCopyObject :: "lib_copies \<Rightarrow> ptr \<Rightarrow> heap \<Rightarrow> runtime_object option \<times> heap" where
  "DriftCheckList_DeepCopyObject L p h =
     (let (c, h) = DriftCheckList_DeepCopy L p h
      in if c \<noteq> None then (Some (DriftCheckListObject c), h) else (None, h))"

interpretation gs: deep_copier GitSource_DeepCopyInto rd_GitSource
  by (rule GitSource_copier)

interpretation ks: deep_copier KustomizeSource_DeepCopyInto rd_KustomizeSource
  by (rule KustomizeSource_copier)

interpretation ns: deep_copier NotifySpec_DeepCopyInto rd_NotifySpec
  by (rule NotifySpec_copier)

lemma DriftCheck_DeepCopy_copier:
  "lib_ok L \<Longrightarrow> deep_copier (DriftCheck_DeepCopy L) (rd_ptr get_DriftCheck (rd_DriftCheck L))"
  unfolding DriftCheck_DeepCopy_def by (intro deep_copies get_cell_eqs)

lemma DriftCheckList_DeepCopy_copier:
  "lib_ok L \<Longrightarrow> deep_copier (DriftCheckList_DeepCopy L) (rd_ptr get_DriftCheckList (rd_DriftCheckList L))"
  unfolding DriftCheckList_DeepCopy_def by (intro deep_copies get_cell_eqs)

subsection \<open>An instance\<close>

text \<open>Libraries whose structs hold their fields directly, but for the raw bytes of a JSON value.\<close>

definition ex_lib :: lib_copies where
  "ex_lib =
     \<lparr>ObjectMeta_DeepCopyInto = copy_flat, ListMeta_DeepCopyInto = copy_flat,
      LabelSelector_DeepCopyInto = copy_flat,
      JSON_DeepCopyInto =
        copy_struct (\<lambda>r. case snd r of [] \<Rightarrow> None | a # _ \<Rightarrow> Some a)
          (\<lambda>r p. (fst r, case p of None \<Rightarrow> [] | Some a \<Rightarrow> [a])) (new_copy CBytes get_Bytes copy_flat),
      Time_DeepCopy = new_copy CTime get_Time copy_flat,
      Condition_DeepCopyInto = copy_flat,
      rd_ObjectMeta = (\<lambda>r. rd_return
        \<lparr>om_name = fst r, om_namespace = ''apps'', om_generation = 1, om_resourceVersion = ''7''\<rparr>),
      rd_ListMeta = (\<lambda>r. rd_return (fst r)),
      rd_LabelSelector = (\<lambda>r. rd_return \<lparr>sel_matchLabels = [(''app'', fst r)], sel_matchExpressions = []\<rparr>),
      rd_JSON =
        rd_struct (\<lambda>r. case snd r of [] \<Rightarrow> None | a # _ \<Rightarrow> Some a)
          (\<lambda>r raw. case raw of None \<Rightarrow> [] | Some b \<Rightarrow> b) (rd_ptr get_Bytes rd_return)\<rparr>"

lemma ex_lib_ok: "lib_ok ex_lib"
  unfolding lib_ok_def ex_lib_def lib_copies.simps
  by (intro conjI allI impI deep_copier_flat deep_copier_new deep_copier_struct deep_copier_assign get_cell_eqs
      new_copy_keeps_nil) (auto split: option.split)

text \<open>A resource with the target namespaces in the first half of an array of two.\<close>

definition ex_resource :: GDriftCheck where
  "ex_resource =
     \<lparr>gdc_type = \<lparr>tm_kind = ''DriftCheck'', tm_apiVersion = ''v1alpha1''\<rparr>, gdc_meta = (''web'', []),
      gdc_spec =
        \<lparr>gspec_source =
           \<lparr>gsrc_type = ''ConfigMap'', gsrc_git = None, gsrc_configMap = Some 1, gsrc_helm = None,
            gsrc_kustomize = None\<rparr>,
         gspec_target = \<lparr>gtgt_namespaces = Some (0, 0, 1), gtgt_labelSelector = None\<rparr>,
         gspec_interval = 0, gspec_notify = None\<rparr>,
      gdc_status =
        \<lparr>gst_lastCheckedAt = Some 2, gst_driftedResources = None,
         gst_summary = \<lparr>sum_changed = 0, sum_new = 0, sum_deleted = 0, sum_unchanged = 1\<rparr>,
         gst_observedGeneration = 1, gst_lastNotifiedHash = [], gst_conditions = None\<rparr>\<rparr>"

definition ex_heap :: heap where
  "ex_heap =
     \<lparr>cells = [0 \<mapsto> CStrings [''apps'', ''db''],
               1 \<mapsto> CConfigMapSource \<lparr>cms_name = ''m'', cms_namespace = [], cms_key = []\<rparr>,
               2 \<mapsto> CTime 5, 3 \<mapsto> CDriftCheck ex_resource,
               4 \<mapsto> CDriftChecks [ex_resource],
               5 \<mapsto> CDriftCheckList
                     \<lparr>gdl_type = \<lparr>tm_kind = ''DriftCheckList'', tm_apiVersion = ''v1alpha1''\<rparr>,
                      gdl_meta = (''9'', []), gdl_items = Some (4, 0, 1)\<rparr>],
      next_addr = 6\<rparr>"

definition ex_denoted :: DriftCheck where
  "ex_denoted =
     \<lparr>dc_meta = \<lparr>om_name = ''web'', om_namespace = ''apps'', om_generation = 1, om_resourceVersion = ''7''\<rparr>,
      dc_spec =
        \<lparr>spec_source =
           \<lparr>src_type = ''ConfigMap'', src_git = None,
            src_configMap = Some \<lparr>cms_name = ''m'', cms_namespace = [], cms_key = []\<rparr>,
            src_helm = None, src_kustomize = None\<rparr>,
         spec_target = \<lparr>tgt_namespaces = [''apps''], tgt_labelSelector = None\<rparr>,
         spec_interval = 0, spec_notify = None\<rparr>,
      dc_status =
        \<lparr>st_lastCheckedAt = Some 5, st_driftedResources = [],
         st_summary = \<lparr>sum_changed = 0, sum_new = 0, sum_deleted = 0, sum_unchanged = 1\<rparr>,
         st_observedGeneration = 1, st_lastNotifiedHash = [], st_conditions = []\<rparr>\<rparr>"

lemma ex_heap_wf: "heap_wf ex_heap"
  by (auto simp: heap_wf_def ex_heap_def)

lemmas read_simps =
  rd_struct_def rd_ptr_def rd_slice_def rd_cell_def rd_bind_def rd_return_def get_cell items_def
  rd_GitSource_def rd_Source_def rd_Target_def rd_Spec_def rd_Status_def rd_DriftCheck_def
  rd_DriftCheckList_def

lemma ex_heap_resource:
  "rd_ptr get_DriftCheck (rd_DriftCheck ex_lib) (Some 3) ex_heap =
     Some (Some (\<lparr>tm_kind = ''DriftCheck'', tm_apiVersion = ''v1alpha1''\<rparr>, ex_denoted), {0, 1, 2, 3})"
  by (simp add: read_simps ex_heap_def ex_resource_def ex_lib_def ex_denoted_def) blast

lemma ex_heap_list:
  "rd_ptr get_DriftCheckList (rd_DriftCheckList ex_lib) (Some 5) ex_heap =
     Some (Some (\<lparr>tm_kind = ''DriftCheckList'', tm_apiVersion = ''v1alpha1''\<rparr>, ''9'',
                 [(\<lparr>tm_kind = ''DriftCheck'', tm_apiVersion = ''v1alpha1''\<rparr>, ex_denoted)]), {0, 1, 2, 4, 5})"
  by (simp add: read_simps ex_heap_def ex_resource_def ex_lib_def ex_denoted_def) blast

text \<open>
  C13: A deep copy of a resource denotes the same resource, lies in new memory, and is independent of
  the original: no sequence of writes to the copy's cells is seen through the original, and no
  sequence of writes to cells that existed before is seen through the copy.
\<close>
theorem DriftCheck_DeepCopy_independent:
  assumes "lib_ok L" "heap_wf h"
    and "rd_ptr get_DriftCheck (rd_DriftCheck L) p h = Some (v, A)"
    and "DriftCheck_DeepCopy L p h = (q, h')"
  shows "extends h h' \<and> (\<exists>B. rd_ptr get_DriftCheck (rd_DriftCheck L) q h' = Some (v, B)
    \<and> (\<forall>ws. fst ` set ws \<inter> dom (cells h) = {} \<longrightarrow>
          rd_ptr get_DriftCheck (rd_DriftCheck L) p (stores ws h') = Some (v, A))
    \<and> (\<forall>ws. fst ` set ws \<subseteq> dom (cells h) \<longrightarrow>
          rd_ptr get_DriftCheck (rd_DriftCheck L) q (stores ws h') = Some (v, B)))"
  by (rule deep_copier.independent [OF DriftCheck_DeepCopy_copier [OF assms(1)] assms(2-4)])

theorem DriftCheck_DeepCopy_independent_witness:
  "case DriftCheck_DeepCopy ex_lib (Some 3) ex_heap of
     (q, h') \<Rightarrow> extends ex_heap h' \<and> (\<exists>B. rd_ptr get_DriftCheck (rd_DriftCheck ex_lib) q h' =
       Some (Some (\<lparr>tm_kind = ''DriftCheck'', tm_apiVersion = ''v1alpha1''\<rparr>, ex_denoted), B))"
  using DriftCheck_DeepCopy_independent [OF ex_lib_ok ex_heap_wf ex_heap_resource]
  by (auto split: prod.split)

text \<open>
  Copying a list of resources as a \<open>runtime.Object\<close> gives the nil interface exactly for a nil
  list, and otherwise a list object, never a nil pointer in disguise: the copy denotes the same items
  in the same order and shares no memory with the original.
\<close>
theorem DriftCheckList_DeepCopyObject_copies:
  assumes "lib_ok L" "heap_wf h"
    and "rd_ptr get_DriftCheckList (rd_DriftCheckList L) p h = Some (v, A)"
    and "DriftCheckList_DeepCopyObject L p h = (obj, h')"
  shows "extends h h' \<and>
    (case obj of
       None \<Rightarrow> p = None
     | Some (DriftCheckObject q) \<Rightarrow> False
     | Some (DriftCheckListObject q) \<Rightarrow> q \<noteq> None
         \<and> (\<exists>B. rd_ptr get_DriftCheckList (rd_DriftCheckList L) q h' = Some (v, B) \<and> A \<inter> B = {}))"
proof -
  obtain q where c: "DriftCheckList_DeepCopy L p h = (q, h')"
      "obj = (if q \<noteq> None then Some (DriftCheckListObject q) else None)"
    using assms(4) by (auto simp: DriftCheckList_DeepCopyObject_def Let_def split: prod.splits if_splits)
  note dc = DriftCheckList_DeepCopy_copier [OF assms(1)]
  obtain B where B: "extends h h'" "rd_ptr get_DriftCheckList (rd_DriftCheckList L) q h' = Some (v, B)"
      "B \<inter> dom (cells h) = {}"
    using deep_copier.copied [OF dc assms(2,3) c(1)] by blast
  have "A \<inter> B = {}"
    using framed_dom [OF deep_copier.framed_den [OF dc] assms(3)] B(3) by blast
  moreover have "q = None \<longleftrightarrow> p = None"
    using new_copy_keeps_nil c(1) unfolding DriftCheckList_DeepCopy_def by metis
  ultimately show ?thesis
    using B(1,2) by (auto simp: c(2))
qed

theorem DriftCheckList_DeepCopyObject_copies_witness:
  "case DriftCheckList_DeepCopyObject ex_lib (Some 5) ex_heap of
     (obj, h') \<Rightarrow> extends ex_heap h' \<and> obj \<noteq> Some (DriftCheckObject None)"
  using DriftCheckList_DeepCopyObject_copies [OF ex_lib_ok ex_heap_wf ex_heap_list]
  by (auto split: prod.split)

end
