(* ===== verification/Spec2Isabelle.thy ===== *)
theory Spec2Isabelle
  imports Announcements Isolation Run_Bounds Admission Status_Schema Access_Control JSON_Document Merge_Heap
    Manager Build_Race Deep_Copy
begin

text \<open>
  \<^bold>\<open>The program.\<close> kube-drift is a Kubernetes operator. A \<open>DriftCheck\<close> names a source of desired manifests
  (a ConfigMap, a Git repository, a Helm chart or a Kustomize overlay), a target that narrows them, an
  interval and webhooks. \<open>Reconcile\<close> reads the DriftCheck, builds the source, lets the kube-diff engine
  compare what it loads with the live cluster, writes the result into the status, sets gauges,
  notifies the webhooks when the drift set changed, and asks to be called again.

  \<^bold>\<open>Theories and the code they model.\<close>
  \<^item> \<open>Prelude\<close>, \<open>Go_Strings\<close>, \<open>Go_SHA256\<close>: the 64-bit \<open>int\<close>, byte strings, map enumerations, \<open>float64\<close>
    of an integer; the functions of \<open>strings\<close>, \<open>bytes\<close>, \<open>fmt\<close> and \<open>sort\<close> that are used; SHA-256 itself.
  \<^item> \<open>Api_Types\<close>: \<open>api/v1alpha1/types.go\<close>. \<open>Source_Types\<close>: the records of \<open>internal/source\<close> and
    \<open>internal/notify\<close>, and the values of libraries that pass through them.
  \<^item> \<open>World\<close>, \<open>Libraries\<close>: effects. A computation of type \<open>'a io\<close> maps the history of outside calls to a
    result and a longer history; code outside the repository is a record of functions that answer
    from the history, so nothing is assumed about it but what a theorem names. \<open>Example_Env\<close> is one
    concrete environment, used to show that hypotheses can be met.
  \<^item> \<open>Metrics\<close>: \<open>internal/metrics/metrics.go\<close>; the locale \<open>gauge_vec\<close> is what prometheus documents, and
    \<open>gauge_values\<close> reads the registry off a history.
  \<^item> \<open>Git_Source\<close>: \<open>internal/source/git.go\<close>. \<open>Helm_Values\<close> and \<open>Helm_Source\<close>: \<open>helm.go\<close> and
    \<open>kustomize.go\<close>. \<open>Merge_Heap\<close>: \<open>mergeValues\<close> again, on maps that are references to cells. \<open>Sources\<close>:
    \<open>target.go\<close> and the dispatch of \<open>Load\<close>.
  \<^item> \<open>Notify_Sender\<close>: \<open>internal/notify/notify.go\<close>, payloads down to their bytes; \<open>JSON_Text\<close> and
    \<open>JSON_Document\<close>: how a receiver reads the strings and the documents in them.
  \<^item> \<open>Source_Config\<close>, \<open>Drift_Reconcile\<close>: \<open>internal/controller/driftcheck_controller.go\<close>; \<open>Drift_Notify\<close>:
    \<open>internal/controller/notify.go\<close>. \<open>Example_Run\<close> is one run in the example environment.
  \<^item> \<open>Controller_Loop\<close>: \<open>SetupWithManager\<close> and the runs of \<open>Reconcile\<close> as the watch and the work queue
    of the controller runtime start them, an \<open>inductive\<close> step relation on queue, timers and history.
  \<^item> \<open>Announcements\<close>: the notifications of the whole process against an API server with resource
    versions and reads of any age, where others may delete and re-create a DriftCheck at any time.
  \<^item> \<open>Run_Shape\<close> and \<open>Run_Rule\<close>: the forms that a run's calls and writes can take, and the rule
    \<open>Reconcile_call_rule\<close> that a predicate on calls holds of a run if it holds of each kind of call.
    \<open>Secret_Reads\<close>, \<open>Isolation\<close>, \<open>Access_Control\<close> use it: the Secrets a run reads, what it does to other
    DriftChecks, the rights it needs. \<open>Run_Bounds\<close> counts a run's calls.
  \<^item> \<open>Admission\<close>: the validation markers and defaults of \<open>types.go\<close>, as a check of what a user submits.
    \<open>Status_Schema\<close>: what the schema generated from them, \<open>config/crd/bases\<close>, lets be stored of a status.
    \<open>Access_Control\<close>: the role generated from the markers above \<open>Reconcile\<close>.
  \<^item> \<open>Build_Race\<close>: \<open>runBuildDeps\<close> of \<open>helm.go\<close> as the interleaving of its goroutine, the context and
    the caller, with the channel between them.
  \<^item> \<open>Go_Flags\<close> and \<open>Manager\<close>: the command line, \<open>cmd/main.go\<close>, \<open>groupversion_info.go\<close> and the start-up
    of \<open>metrics.go\<close>.
  \<^item> \<open>Go_Heap\<close> and \<open>Deep_Copy\<close>: pointers, slices and cells, and the generated copying functions of
    \<open>zz_generated.deepcopy.go\<close>.

  \<^bold>\<open>Interfaces.\<close> The locales \<open>clone_func\<close> (the injectable clone), \<open>manifest_source\<close> and \<open>filtered_source\<close>
  (kube-diff's \<open>source.Source\<close>), \<open>notifier\<close> (\<open>notify.Notifier\<close>), \<open>temp_resource\<close> (acquire, use, release),
  \<open>gauge_vec\<close> and \<open>deep_copier\<close> (what a copying function promises) state what a client relies on; each
  is interpreted on the model's own definitions, the real clone, the four sources, the HTTP sender,
  the temporary directories and files, the registry, the copying functions. \<open>call_count\<close> bounds the
  calls of one kind in a run; it is interpreted for status writes, gauges, deliveries and events.

  \<^bold>\<open>What is shown.\<close> Each component has its functional behaviour on success and failure. This theory
  proves what a single run guarantees, through the abstract specification \<open>decide\<close> and \<open>perform\<close> that
  \<open>Reconcile\<close> refines: a run reads before it writes, a comparison is persisted as it was made,
  failures keep or clear the report as documented, and Secrets are read in one namespace only.
  \<open>Isolation\<close> adds that it touches nothing of another DriftCheck, \<open>Run_Bounds\<close> that its writes, deliveries
  and events are bounded by its own spec.
  \<open>Controller_Loop\<close> lifts this to the life of the process: no DriftCheck is dropped, webhooks hear only
  what was persisted, the registry implements a map of reports, and what paces the evaluations;
  \<open>Announcements\<close> adds that they hear only changes, and that what is recorded as announced was delivered.
  \<open>JSON_Document\<close> shows that receivers read what was sent. \<open>Merge_Heap\<close> shows that the merge in place has
  the result of the merge of values, and \<open>Helm_Values\<close> what that result is.
  \<open>wiring_ok\<close> collects the contracts of what is injected: the clone, the fetcher and the engine make
  only the calls of loading and reading, the notifier only deliveries; \<open>Manager\<close> shows that the
  reconciler of \<open>main\<close> meets it. \<open>Build_Race\<close> shows that the sequential reading of the dependency build
  in \<open>Helm_Source\<close> has the results of the concurrent one, and in which states the race can end. The theories on schema and role compare the
  program with what it is deployed with: which failures admission rules out, that status writes are
  legal but for the length of a failure's message, and that the role allows all requests of the
  process but the reads of Secrets. \<open>Deep_Copy\<close> shows that copies denote what
  they copy and share no memory with it.

  \<^bold>\<open>Bounds.\<close> All recursions are structural or have a termination proof. There are
  two uses of fuel: the JSON reader's is the length of its input, which \<open>json_parse_marshal\<close> shows to be
  enough, and the depth of a merge on references, for which \<open>merge_layers_refines_mergeValues\<close> shows
  that the size of a layer is enough. Counts are 64-bit
  words; theorems that need them not to wrap say so.

  \<^bold>\<open>Not modelled.\<close> Logging, build information, and the end-to-end test helpers in \<open>test/utils\<close>. A context
  is a component of its own only in \<open>Build_Race\<close>; elsewhere its cancellation is one of the answers of
  the calls it is passed to. The controller runtime runs one request at a time, as by its default.
  Quoted strings in error texts print every character outside ASCII as it is, without Go's tables of
  printable ones.
  The API server's reading of the text of an interval, the requests of kube-diff's own client, and
  those of leader election and of the metrics filter are outside the model.
\<close>

section \<open>One run of the controller\<close>

text \<open>
  C34: A run first reads and only then writes: up to the verdict there is no status write, no gauge, no
  event and no webhook, whatever source is loaded, and what follows is the action for that verdict.
\<close>

theorem Reconcile_decides_then_acts:
  assumes "wiring_ok E r"
  shows "\<exists>v h1 t. decide E r req h = (v, h1) \<and> h1 = h @ t \<and> list_all (\<lambda>c. \<not> visible c) t
    \<and> Reconcile E r req h = perform E r req v h1"
proof -
  obtain v h1 where d: "decide E r req h = (v, h1)"
    by fastforce
  then show ?thesis
    using decide_quiet [OF assms d] by (simp add: Reconcile_perform)
qed

theorem Reconcile_decides_then_acts_witness:
  "\<exists>v h1. decide ex_env ex_reconciler ex_req [] = (v, h1) \<and> list_all (\<lambda>c. \<not> visible c) h1
     \<and> Reconcile ex_env ex_reconciler ex_req [] = perform ex_env ex_reconciler ex_req v h1"
  using Reconcile_decides_then_acts [OF ex_wiring, of ex_req "[]"] by auto

text \<open>
  C14: A comparison is persisted as it was made. The first write of its run carries the summary and the
  drifted resources of the engine's results, the time, the generation they are for and \<open>Ready=True\<close>;
  the metadata, the spec and the notification fingerprint are those that were read.
\<close>

theorem Reconcile_writes_evaluation:
  assumes "wiring_ok E r" "decide E r req h = (Compared dc results, h1)"
  shows "\<exists>d t. snd (Reconcile E r req h) = h1 @ CallStatusUpdate d # t
    \<and> dc_meta d = dc_meta dc \<and> dc_spec d = dc_spec dc
    \<and> (st_driftedResources (dc_status d), st_summary (dc_status d)) = summarize (e_kd E) results
    \<and> st_lastCheckedAt (dc_status d) = Some (kl_Now (e_kube E) h1)
    \<and> st_observedGeneration (dc_status d) = dc_generation dc
    \<and> st_lastNotifiedHash (dc_status d) = st_lastNotifiedHash (dc_status dc)
    \<and> st_conditions (dc_status d) =
        kl_SetStatusCondition (e_kube E) h1 (st_conditions (dc_status dc))
          (ready_condition ''True'' ''DriftEvaluated''
             (evaluated_message (snd (summarize (e_kd E) results))) (dc_generation dc))"
proof -
  let ?d = "evaluated_status E h1 dc results"
  obtain t where "snd (Reconcile E r req h) = h1 @ CallStatusUpdate ?d # t"
    using evaluated_calls [where r = r and E = E and interval = "effective_interval dc"
        and results = results and h = h1 and dc = dc] assms(1)
    unfolding Reconcile_perform assms(2) wiring_ok_def by auto
  then show ?thesis
    by (intro exI [of _ ?d] exI [of _ t])
      (simp add: evaluated_status_def set_condition_def go_simps Let_def split: prod.split)
qed

theorem Reconcile_writes_evaluation_witness:
  "\<exists>h1 d t. snd (Reconcile ex_env ex_reconciler ex_req []) = h1 @ CallStatusUpdate d # t
    \<and> (st_driftedResources (dc_status d), st_summary (dc_status d))
        = summarize ex_kd [ex_result ex_manifest]
    \<and> st_observedGeneration (dc_status d) = 3"
proof -
  have "e_kd ex_env = ex_kd" "dc_generation ex_dc = 3"
    by (simp_all add: ex_env_def ex_dc_def)
  then show ?thesis
    using Reconcile_writes_evaluation [OF ex_wiring ex_compared] by metis
qed

text \<open>
  C7: A permanent failure leaves no stale reading and is retried on the interval. Every gauge of the
  DriftCheck is deleted and no other, \<open>Ready=False\<close> is written with the reason and the error, the last
  drift report stays, and the run asks for the interval unless the write itself failed.
\<close>

theorem Reconcile_permanent_failure:
  assumes "wiring_ok E r" "r_Metrics r = Some u"
    and "decide E r req h = (Permanent dc reason cause, h1)"
  shows "\<exists>h2 d.
      snd (Reconcile E r req h) = h2 @ [CallStatusUpdate d]
      \<and> d = dc\<lparr>dc_status := (dc_status dc)\<lparr>st_conditions :=
              kl_SetStatusCondition (e_kube E) h2 (st_conditions (dc_status dc))
                (ready_condition ''False'' reason (err_text cause) (dc_generation dc))\<rparr>\<rparr>
      \<and> fst (Reconcile E r req h) =
          (case kl_StatusUpdate (e_kube E) h2 d of
             Inl err \<Rightarrow> (CtrlResult_zero, Some err)
           | Inr _ \<Rightarrow> (\<lparr>requeueAfter = effective_interval dc\<rparr>, None))
      \<and> (\<forall>name ns status. gauge_values (snd (Reconcile E r req h)) [name, ns, status] =
           (if name = dc_name dc \<and> ns = dc_namespace dc then None
            else gauge_values h [name, ns, status]))"
proof -
  define h2 where "h2 = snd (Recorder_Delete (r_Metrics r) (dc_name dc) (dc_namespace dc) h1)"
  let ?d = "not_ready E h2 dc reason cause"
  obtain t where t: "h1 = h @ t" "list_all (\<lambda>c. \<not> visible c) t"
    using decide_quiet [OF assms(1,3)] by blast
  have run: "Reconcile E r req h =
      ((case kl_StatusUpdate (e_kube E) h2 ?d of
          Inl err \<Rightarrow> (CtrlResult_zero, Some err)
        | Inr _ \<Rightarrow> (\<lparr>requeueAfter = effective_interval dc\<rparr>, None)), h2 @ [CallStatusUpdate ?d])"
    by (simp add: Reconcile_perform assms(3) permanentFail_def markNotReady_calls h2_def
        split: prod.split sum.split)
  have "gauge_values h1 = gauge_values h"
    using t(2) unfolding t(1) by (intro registry.view_quiet) (auto simp: list_all_iff dest: gauge_visible)
  then have "gauge_values h2 [name, ns, status] =
      (if name = dc_name dc \<and> ns = dc_namespace dc then None else gauge_values h [name, ns, status])"
    for name ns status
    by (simp add: h2_def assms(2) registry.view_Recorder_Delete)
  then show ?thesis
    by (intro exI [of _ h2] exI [of _ ?d])
      (simp add: run registry.view_other not_ready_def set_condition_def go_simps)
qed

theorem Reconcile_permanent_failure_witness:
  "\<exists>h2 d. snd (Reconcile ex_env (ex_reconciler\<lparr>r_Fetcher := None\<rparr>) ex_req []) = h2 @ [CallStatusUpdate d]
     \<and> fst (Reconcile ex_env (ex_reconciler\<lparr>r_Fetcher := None\<rparr>) ex_req [])
         = (\<lparr>requeueAfter = 60000000000\<rparr>, None)"
proof -
  have w: "wiring_ok ex_env (ex_reconciler\<lparr>r_Fetcher := None\<rparr>)"
    using ex_wiring by (simp add: wiring_ok_def fetcher_ok_def notifier_ok_def)
  have d: "decide ex_env (ex_reconciler\<lparr>r_Fetcher := None\<rparr>) ex_req [] =
      (Permanent ex_dc ''NoFetcher'' (Errorf ''cluster fetcher is not configured''),
       [CallGetDriftCheck ex_req])"
    by (simp add: decide_def evaluate_def client_GetDriftCheck_def outside_def ex_get)
  have m: "r_Metrics (ex_reconciler\<lparr>r_Fetcher := None\<rparr>) = Some ()"
    by (simp add: ex_reconciler_def)
  have i: "effective_interval ex_dc = 60000000000"
    by (simp add: effective_interval_def ex_dc_def)
  show ?thesis
    using Reconcile_permanent_failure [OF w m d] by (auto simp: i ex_update)
qed

text \<open>
  C21: A transient compare failure keeps the last reading. Its error is returned for backoff, the one
  write of the run is \<open>Ready=False\<close> with reason \<open>CompareError\<close>, whose own failure is not reported, and no
  gauge changes.
\<close>

theorem Reconcile_transient_failure:
  assumes "wiring_ok E r" "decide E r req h = (Transient dc err, h1)"
  shows "\<exists>d. snd (Reconcile E r req h) = h1 @ [CallStatusUpdate d]
      \<and> d = dc\<lparr>dc_status := (dc_status dc)\<lparr>st_conditions :=
              kl_SetStatusCondition (e_kube E) h1 (st_conditions (dc_status dc))
                (ready_condition ''False'' ''CompareError'' (err_text err) (dc_generation dc))\<rparr>\<rparr>
      \<and> fst (Reconcile E r req h) = (CtrlResult_zero, Some err)
      \<and> gauge_values (snd (Reconcile E r req h)) = gauge_values h"
proof -
  let ?d = "not_ready E h1 dc ''CompareError'' err"
  obtain t where t: "h1 = h @ t" "list_all (\<lambda>c. \<not> visible c) t"
    using decide_quiet [OF assms] by blast
  have run: "Reconcile E r req h = ((CtrlResult_zero, Some err), h1 @ [CallStatusUpdate ?d])"
    by (simp add: Reconcile_perform assms(2) markNotReady_calls)
  have "gauge_values h1 = gauge_values h"
    using t(2) unfolding t(1) by (intro registry.view_quiet) (auto simp: list_all_iff dest: gauge_visible)
  then show ?thesis
    by (intro exI [of _ ?d]) (simp add: run registry.view_other not_ready_def set_condition_def go_simps)
qed

definition ex_timeout_env :: env where
  "ex_timeout_env = ex_env\<lparr>e_kd := ex_kd\<lparr>kd_Run := \<lambda>load f. fail (LibErr ''timeout'')\<rparr>\<rparr>"

theorem Reconcile_transient_failure_witness:
  "\<exists>err h1 d. snd (Reconcile ex_timeout_env ex_reconciler ex_req []) = h1 @ [CallStatusUpdate d]
     \<and> fst (Reconcile ex_timeout_env ex_reconciler ex_req []) = (CtrlResult_zero, Some err)"
proof -
  have w: "wiring_ok ex_timeout_env ex_reconciler"
    using ex_wiring by (auto simp: wiring_ok_def engine_ok_def ex_timeout_env_def intro!: quiet)
  have "\<not> kl_IsForbidden ex_kube (LibErr ''timeout'')" "\<not> kl_IsUnauthorized ex_kube (LibErr ''timeout'')"
    by (simp_all add: ex_kube_def)
  then have "decide ex_timeout_env ex_reconciler ex_req [] = (Transient ex_dc (LibErr ''timeout''),
      [CallGetDriftCheck ex_req, CallGetConfigMap \<lparr>nn_namespace = ''prod'', nn_name = ''desired''\<rparr>])"
    using ex_kube_env
    by (simp add: ex_decide ex_timeout_env_def verdict_of_run_def fail_def del: source_Load.simps)
  then show ?thesis
    using Reconcile_transient_failure [OF w] by blast
qed

text \<open>
  A DriftCheck that is gone leaves no series behind: the run deletes the gauges of the requested
  object and no other, writes no status, and is not retried.
\<close>

theorem Reconcile_gone:
  assumes "kl_GetDriftCheck (e_kube E) h req = Inl e" "kl_IsNotFound (e_kube E) e"
    and "r_Metrics r = Some u"
  shows "fst (Reconcile E r req h) = (CtrlResult_zero, None)
    \<and> (\<exists>c. snd (Reconcile E r req h) = h @ [CallGetDriftCheck req, c] \<and> gauge_call c)
    \<and> (\<forall>name ns status. gauge_values (snd (Reconcile E r req h)) [name, ns, status] =
         (if name = nn_name req \<and> ns = nn_namespace req then None
          else gauge_values h [name, ns, status]))"
proof -
  have run: "Reconcile E r req h = ((CtrlResult_zero, None),
      snd (Recorder_Delete (Some u) (nn_name req) (nn_namespace req) (h @ [CallGetDriftCheck req])))"
    using assms
    by (simp add: Reconcile_perform decide_def client_GetDriftCheck_def outside_def)
  moreover have "gauge_values (h @ [CallGetDriftCheck req]) = gauge_values h"
    by (rule registry.view_other) simp
  ultimately show ?thesis
    using registry.view_Recorder_Delete [of u "nn_name req" "nn_namespace req" "h @ [CallGetDriftCheck req]"]
    by (simp add: Recorder_Delete_Some)
qed

theorem Reconcile_gone_witness:
  "fst (Reconcile ex_env ex_reconciler \<lparr>nn_namespace = ''prod'', nn_name = ''old''\<rparr> [])
     = (CtrlResult_zero, None)"
proof -
  let ?req = "\<lparr>nn_namespace = ''prod'', nn_name = ''old''\<rparr>"
  have "kl_GetDriftCheck (e_kube ex_env) [] ?req = Inl (StatusErr ''NotFound'' ''not found'')"
    "kl_IsNotFound (e_kube ex_env) (StatusErr ''NotFound'' ''not found'')"
    by (simp_all add: ex_env_def ex_kube_def ex_req_def)
  moreover have "r_Metrics ex_reconciler = Some ()"
    by (simp add: ex_reconciler_def)
  ultimately show ?thesis
    using Reconcile_gone [of ex_env "[]" ?req] by blast
qed

text \<open>
  The reason of a permanent failure says what failed, and nothing that may heal by itself is made
  permanent: an engine error is permanent only if the API server forbids the read, and every other
  engine error is transient.
\<close>

theorem decide_reasons:
  assumes "decide E r req h = (v, h1)"
  shows "case v of
      Permanent dc reason cause \<Rightarrow>
        (reason, r_Fetcher r) = (''NoFetcher'', None)
        \<or> reason = ''SourceError'' \<and> (\<exists>h0. buildSource E r dc h0 = (Inl cause, h1))
        \<or> reason = ''InvalidTarget''
          \<and> (\<exists>src. applyTarget (e_kube E) src (spec_target (dc_spec dc)) = Inl cause)
        \<or> reason = ''FetchError''
          \<and> (kl_IsForbidden (e_kube E) cause \<or> kl_IsUnauthorized (e_kube E) cause)
    | Transient dc err \<Rightarrow>
        \<not> (kl_IsForbidden (e_kube E) err \<or> kl_IsUnauthorized (e_kube E) err)
    | Unreadable err \<Rightarrow> \<not> kl_IsNotFound (e_kube E) err
    | _ \<Rightarrow> True"
proof (cases "kl_GetDriftCheck (e_kube E) h req")
  case (Inl e)
  then show ?thesis
    using assms by (auto simp: decide_def client_GetDriftCheck_def outside_def split: if_splits)
next
  case (Inr dc)
  then have "evaluate E r dc (h @ [CallGetDriftCheck req]) = (v, h1)"
    using assms by (simp add: decide_def client_GetDriftCheck_def outside_def)
  then show ?thesis
  proof (cases rule: evaluate_cases)
    case (ran run)
    then show ?thesis
      by (cases rule: verdict_of_run_cases [where run = run and k = "e_kube E" and dc = dc]) simp_all
  qed auto
qed

theorem decide_reasons_witness:
  "\<not> (kl_IsForbidden ex_kube (LibErr ''timeout'') \<or> kl_IsUnauthorized ex_kube (LibErr ''timeout''))"
proof -
  have "\<exists>h1. decide ex_timeout_env ex_reconciler ex_req [] = (Transient ex_dc (LibErr ''timeout''), h1)"
    using ex_kube_env
    by (simp add: ex_decide ex_timeout_env_def verdict_of_run_def fail_def ex_kube_def
        del: source_Load.simps)
  then obtain h1 where "decide ex_timeout_env ex_reconciler ex_req []
      = (Transient ex_dc (LibErr ''timeout''), h1)" ..
  from decide_reasons [OF this] show ?thesis
    using ex_kube_env by (simp add: ex_timeout_env_def)
qed

text \<open>
  A DriftCheck cannot reach the Secrets of another namespace: every Secret that one run reads, for
  Git credentials or webhook URLs, is in the namespace of the request.
\<close>

theorem Reconcile_secret_namespace:
  assumes "wiring_ok E r"
    and "\<forall>h dc. kl_GetDriftCheck (e_kube E) h req = Inr dc \<longrightarrow> dc_namespace dc = nn_namespace req"
    and "\<forall>h d d'. kl_StatusUpdate (e_kube E) h d = Inr d' \<longrightarrow> dc_namespace d' = dc_namespace d"
  shows "\<exists>t. snd (Reconcile E r req h) = h @ t \<and> list_all (secrets_in (nn_namespace req)) t"
proof (rule Reconcile_rule [OF secrets_in_rule assms(1)])
  have named: "secrets_in (nn_namespace req) (CallGetSecret n)"
    if "n \<in> set (secret_refs d)" "dc_namespace d = nn_namespace req" for n d
    using secret_refs_namespace [OF that(1)] that(2) by simp
  fix dc n
  assume dc: "kl_GetDriftCheck (e_kube E) h req = Inr dc"
  then have ns: "dc_namespace dc = nn_namespace req"
    using assms(2) by blast
  show "secrets_in (nn_namespace req) (CallGetSecret n)" if "n \<in> set (source_refs dc)"
    using that ns by (intro named [of n dc]) (simp_all add: secret_refs_def)
  fix k results d
  assume "kl_StatusUpdate (e_kube E) k (evaluated_status E k dc results) = Inr d"
    and n: "n \<in> set (secret_refs d)"
  then have "dc_namespace d = nn_namespace req"
    using assms(3) ns evaluated_status_keeps(1) by metis
  then show "secrets_in (nn_namespace req) (CallGetSecret n)"
    by (rule named [OF n])
qed

theorem Reconcile_secret_namespace_witness:
  "list_all (secrets_in ''prod'') (snd (Reconcile ex_env ex_reconciler ex_req []))"
proof -
  have "\<forall>h dc. kl_GetDriftCheck (e_kube ex_env) h ex_req = Inr dc \<longrightarrow> dc_namespace dc = nn_namespace ex_req"
    by (simp add: ex_get) (simp add: ex_dc_def ex_req_def)
  moreover have "\<forall>h d d'. kl_StatusUpdate (e_kube ex_env) h d = Inr d' \<longrightarrow> dc_namespace d' = dc_namespace d"
    by (simp add: ex_update)
  ultimately show ?thesis
    using Reconcile_secret_namespace [OF ex_wiring, of ex_req "[]"] by (simp add: ex_req_def)
qed

end
